theory Spec2Isabelle
  imports Main "HOL-Library.Word" "HOL-Library.Monad_Syntax" "HOL-Library.Code_Target_Numeral"
begin

unbundle bit_operations_syntax

section \<open>Common data model of the image readers\<close>

text \<open>
  Bytes are 8-bit words. Every other machine integer of the readers (\<open>CKDWORD\<close>,
  \<open>CKWORD\<close>, \<open>int\<close>) is a natural number or an integer with the wrap-around of the
  C++ type written out (\<open>mod 2 ^ 32\<close>, \<open>mod 2 ^ 16\<close>) at the places where the source
  computes in that type.

  A C++ buffer is a list of bytes, a pointer into it is the list together with an offset.
  Reading or writing outside the list is undefined behaviour in C++; the checked
  accessors \<open>rd\<close> and \<open>wr\<close> return \<open>None\<close> there, and the readers report it as the
  outcome \<open>Undefined\<close>, which is not one of the return codes of the source.
\<close>

type_synonym byte = "8 word"

text \<open>
  The return codes \<open>CKBITMAPERROR_GENERIC\<close>, \<open>CKBITMAPERROR_READERROR\<close>,
  \<open>CKBITMAPERROR_UNSUPPORTEDFILE\<close> and \<open>CKBITMAPERROR_FILECORRUPTED\<close> of the readers
  (a successful call returns 0 and is the \<open>Inr\<close> side of the result), and \<open>Undefined\<close>
  for an execution that leaves the defined behaviour of C++.
\<close>

datatype failure = Generic | ReadError | UnsupportedFile | FileCorrupted | Undefined

definition rd :: "byte list \<Rightarrow> nat \<Rightarrow> byte option" where
  "rd buf i = (if i < length buf then Some (buf ! i) else None)"

definition wr :: "byte list \<Rightarrow> nat \<Rightarrow> byte \<Rightarrow> byte list option" where
  "wr buf i v = (if i < length buf then Some (buf[i := v]) else None)"

text \<open>\<open>for (i = i0; i < n; i++) body\<close> over a state, stopping at undefined behaviour.\<close>

function forM :: "nat \<Rightarrow> nat \<Rightarrow> (nat \<Rightarrow> 's \<Rightarrow> 's option) \<Rightarrow> 's \<Rightarrow> 's option" where
  "forM i n body s =
     (if i < n then (case body i s of None \<Rightarrow> None | Some s' \<Rightarrow> forM (Suc i) n body s')
      else Some s)"
  by pat_completeness auto
termination
  by (relation "measure (\<lambda>(i, n, body, s). n - i)") auto

declare forM.simps [simp del]

text \<open>
  What the C++ implementation leaves open: the files \<open>fopen\<close> finds for reading and
  the names it can open for writing, the content of storage that was allocated and never
  written, and the order in which the two arguments of a call are evaluated.
\<close>

record env =
  fs :: "byte list \<Rightarrow> byte list option"
  writable :: "byte list \<Rightarrow> bool"
  uninit :: "nat \<Rightarrow> byte"
  args_right_to_left :: bool

section \<open>BMP: palette lookup and the RLE decoding context\<close>

definition SetBGRAFromPalette ::
  "byte list \<Rightarrow> nat \<Rightarrow> nat \<Rightarrow> byte \<Rightarrow> byte list \<Rightarrow> bool \<Rightarrow> nat \<Rightarrow> byte list option" where
  "SetBGRAFromPalette buf row x idx0 palette is3Byte entries =
     (let idx = (if unat idx0 \<ge> entries then 0 else unat idx0);
          stride = (if is3Byte then 3 else 4 :: nat)
      in do {
        b \<leftarrow> rd palette (idx * stride + 0);
        buf \<leftarrow> wr buf (row + (x * 4 + 0) mod 2 ^ 32) b;
        g \<leftarrow> rd palette (idx * stride + 1);
        buf \<leftarrow> wr buf (row + (x * 4 + 1) mod 2 ^ 32) g;
        r \<leftarrow> rd palette (idx * stride + 2);
        buf \<leftarrow> wr buf (row + (x * 4 + 2) mod 2 ^ 32) r;
        wr buf (row + (x * 4 + 3) mod 2 ^ 32) 255
      })"

record RLEContext =
  rle_src :: "byte list"
  rle_srcSize :: nat
  rle_srcPos :: nat
  rle_dst :: "byte list"
  rle_dstStride :: nat
  rle_width :: nat
  rle_height :: nat
  rle_topDown :: bool
  rle_palette :: "byte list"
  rle_is3BytePalette :: bool
  rle_paletteEntries :: nat
  rle_x :: nat
  rle_y :: nat

definition new_RLEContext ::
  "byte list \<Rightarrow> nat \<Rightarrow> byte list \<Rightarrow> nat \<Rightarrow> nat \<Rightarrow> nat \<Rightarrow> bool \<Rightarrow> byte list \<Rightarrow> bool \<Rightarrow> nat
   \<Rightarrow> RLEContext" where
  "new_RLEContext s ss d ds w h td pal is3 pe =
     \<lparr> rle_src = s, rle_srcSize = ss, rle_srcPos = 0, rle_dst = d, rle_dstStride = ds,
       rle_width = w, rle_height = h, rle_topDown = td, rle_palette = pal,
       rle_is3BytePalette = is3, rle_paletteEntries = pe,
       rle_x = 0, rle_y = (if td then 0 else (h + 2 ^ 32 - 1) mod 2 ^ 32) \<rparr>"

text \<open>\<open>Row()\<close>: the offset of the current row in the destination, or the null pointer.\<close>

definition Row :: "RLEContext \<Rightarrow> nat option" where
  "Row c = (if rle_y c < rle_height c then Some ((rle_y c * rle_dstStride c) mod 2 ^ 32) else None)"

definition NextLine :: "RLEContext \<Rightarrow> RLEContext" where
  "NextLine c =
     (let c = c\<lparr>rle_x := 0\<rparr>
      in if rle_topDown c then c\<lparr>rle_y := (rle_y c + 1) mod 2 ^ 32\<rparr>
         else if rle_y c > 0 then c\<lparr>rle_y := rle_y c - 1\<rparr>
         else c\<lparr>rle_y := rle_height c\<rparr>)"

definition Delta :: "RLEContext \<Rightarrow> byte \<Rightarrow> byte \<Rightarrow> RLEContext" where
  "Delta c dx dy =
     (let c = c\<lparr>rle_x := (rle_x c + unat dx) mod 2 ^ 32\<rparr>
      in if rle_topDown c then c\<lparr>rle_y := (rle_y c + unat dy) mod 2 ^ 32\<rparr>
         else c\<lparr>rle_y := (rle_y c + 2 ^ 32 - unat dy) mod 2 ^ 32\<rparr>)"

definition HasMore :: "RLEContext \<Rightarrow> bool" where
  "HasMore c \<longleftrightarrow> rle_srcPos c < rle_srcSize c \<and> rle_y c < rle_height c"

definition ReadByte :: "RLEContext \<Rightarrow> (byte \<times> RLEContext) option" where
  "ReadByte c =
     (if rle_srcPos c < rle_srcSize c
      then do { b \<leftarrow> rd (rle_src c) (rle_srcPos c); Some (b, c\<lparr>rle_srcPos := rle_srcPos c + 1\<rparr>) }
      else Some (0, c))"

definition SetPixel :: "RLEContext \<Rightarrow> byte \<Rightarrow> RLEContext option" where
  "SetPixel c idx =
     (case Row c of
        None \<Rightarrow> Some c
      | Some row \<Rightarrow>
          if rle_x c < rle_width c
          then do {
            d \<leftarrow> SetBGRAFromPalette (rle_dst c) row (rle_x c) idx (rle_palette c)
                   (rle_is3BytePalette c) (rle_paletteEntries c);
            Some (c\<lparr>rle_dst := d, rle_x := (rle_x c + 1) mod 2 ^ 32\<rparr>)
          }
          else Some c)"

text \<open>
  \<open>ctx.Delta(ctx.ReadByte(), ctx.ReadByte())\<close>: C++ does not fix which argument is
  evaluated first, so which of the two stream bytes becomes \<open>dx\<close> is the compiler's choice.
\<close>

definition read_Delta :: "env \<Rightarrow> RLEContext \<Rightarrow> RLEContext option" where
  "read_Delta e c = do {
     (b1, c) \<leftarrow> ReadByte c;
     (b2, c) \<leftarrow> ReadByte c;
     Some (if args_right_to_left e then Delta c b2 b1 else Delta c b1 b2)
   }"

text \<open>One turn of the \<open>while (ctx.HasMore())\<close> loop of \<open>DecodeRLE8\<close>; the flag is the \<open>return\<close>.\<close>

definition DecodeRLE8_body :: "env \<Rightarrow> RLEContext \<Rightarrow> (RLEContext \<times> bool) option" where
  "DecodeRLE8_body e c = do {
     (first, c) \<leftarrow> ReadByte c;
     (second, c) \<leftarrow> ReadByte c;
     if first = 0 then
       if second = 0 then Some (NextLine c, False)
       else if second = 1 then Some (c, True)
       else if second = 2 then do { c \<leftarrow> read_Delta e c; Some (c, False) }
       else do {
         c \<leftarrow> forM 0 (unat second)
                (\<lambda>i c. do { (b, c) \<leftarrow> ReadByte c; SetPixel c b }) c;
         Some (if second AND 1 \<noteq> 0 then c\<lparr>rle_srcPos := rle_srcPos c + 1\<rparr> else c, False)
       }
     else do {
       c \<leftarrow> forM 0 (unat first) (\<lambda>i c. SetPixel c second) c;
       Some (c, False)
     }
   }"


lemma forM_rule:
  assumes "forM i n body s = Some s'" and "P s"
    and "\<And>j t t'. P t \<Longrightarrow> i \<le> j \<Longrightarrow> j < n \<Longrightarrow> body j t = Some t' \<Longrightarrow> P t'"
  shows "P s'"
  using assms
proof (induction i n body s rule: forM.induct)
  case (1 i n body s)
  show ?case
  proof (cases "i < n")
    case True
    with "1.prems"(1) obtain t where t: "body i s = Some t" and r: "forM (Suc i) n body t = Some s'"
      by (subst (asm) forM.simps) (auto split: option.splits)
    have "P t" using "1.prems"(3)[OF "1.prems"(2) _ True t] by simp
    show ?thesis
      by (rule "1.IH"[OF True t r \<open>P t\<close>]) (metis "1.prems"(3) Suc_leD)
  next
    case False
    with "1.prems"(1) have "s' = s" by (subst (asm) forM.simps) simp
    with "1.prems"(2) show ?thesis by simp
  qed
qed

lemma ReadByte_pos:
  "ReadByte c = Some (b, c') \<Longrightarrow> rle_srcPos c \<le> rle_srcPos c' \<and> rle_srcSize c' = rle_srcSize c
     \<and> (rle_srcPos c < rle_srcSize c \<longrightarrow> rle_srcPos c < rle_srcPos c')"
  by (auto simp: ReadByte_def bind_eq_Some_conv split: if_splits)

lemma SetPixel_pos:
  "SetPixel c b = Some c' \<Longrightarrow> rle_srcPos c' = rle_srcPos c \<and> rle_srcSize c' = rle_srcSize c"
  by (auto simp: SetPixel_def bind_eq_Some_conv split: if_splits option.splits)

lemma NextLine_pos:
  "rle_srcPos (NextLine c) = rle_srcPos c \<and> rle_srcSize (NextLine c) = rle_srcSize c"
  by (simp add: NextLine_def Let_def)

lemma Delta_pos:
  "rle_srcPos (Delta c a b) = rle_srcPos c \<and> rle_srcSize (Delta c a b) = rle_srcSize c"
  by (simp add: Delta_def Let_def)

lemma read_Delta_pos:
  "read_Delta e c = Some c' \<Longrightarrow> rle_srcPos c \<le> rle_srcPos c' \<and> rle_srcSize c' = rle_srcSize c"
  by (auto simp: read_Delta_def bind_eq_Some_conv Delta_pos dest!: ReadByte_pos split: if_splits)

lemma DecodeRLE8_body_pos:
  assumes "DecodeRLE8_body e c = Some (c', stop)" and "rle_srcPos c < rle_srcSize c"
  shows "rle_srcPos c < rle_srcPos c' \<and> rle_srcSize c' = rle_srcSize c"
proof -
  from assms(1) obtain f c1 s c2 where
    r1: "ReadByte c = Some (f, c1)" and r2: "ReadByte c1 = Some (s, c2)"
    by (auto simp: DecodeRLE8_body_def bind_eq_Some_conv)
  from ReadByte_pos[OF r1] ReadByte_pos[OF r2] assms(2)
  have c2: "rle_srcPos c < rle_srcPos c2" "rle_srcSize c2 = rle_srcSize c" by auto
  let ?P = "\<lambda>t. rle_srcPos c2 \<le> rle_srcPos t \<and> rle_srcSize t = rle_srcSize c2"
  have lit: "?P t" if "forM 0 n (\<lambda>i c. do { (b, c) \<leftarrow> ReadByte c; SetPixel c b }) c2 = Some t" for n t
    by (rule forM_rule[OF that, where P = ?P])
       (auto simp: bind_eq_Some_conv dest!: ReadByte_pos SetPixel_pos)
  have run: "?P t" if "forM 0 n (\<lambda>i c. SetPixel c v) c2 = Some t" for n t v
    by (rule forM_rule[OF that, where P = ?P]) (auto dest!: SetPixel_pos)
  from assms(1) r1 r2 c2 show ?thesis
    by (auto simp: DecodeRLE8_body_def bind_eq_Some_conv NextLine_pos
             split: if_splits dest!: read_Delta_pos lit run)
qed

text \<open>
  \<open>DecodeRLE8\<close>: the loop ends because every turn consumes at least one byte of the
  stream. (\<open>srcPos\<close> is a \<open>CKDWORD\<close>; it is kept here as an unbounded number, the stream
  handed to the decoder being shorter than \<open>2 ^ 31\<close> bytes.)
\<close>

function DecodeRLE8 :: "env \<Rightarrow> RLEContext \<Rightarrow> RLEContext option" where
  "DecodeRLE8 e c =
     (if HasMore c
      then (case DecodeRLE8_body e c of
              None \<Rightarrow> None
            | Some (c', stop) \<Rightarrow> if stop then Some c' else DecodeRLE8 e c')
      else Some c)"
  by pat_completeness auto
termination
proof (relation "measure (\<lambda>(e, c). rle_srcSize c - rle_srcPos c)")
  fix e c x2 x y
  assume "HasMore c" and "DecodeRLE8_body e c = Some x2" and "(x, y) = x2" and "\<not> y"
  then show "((e, x), (e, c)) \<in> measure (\<lambda>(e, c). rle_srcSize c - rle_srcPos c)"
    using DecodeRLE8_body_pos[of e c x y] by (auto simp: HasMore_def)
qed simp

declare DecodeRLE8.simps [simp del]

text \<open>One turn of the loop of \<open>DecodeRLE4\<close>. The literal bytes of an absolute run are read
  from \<open>ctx.src\<close> directly, without the bound check of \<open>ReadByte\<close>.\<close>

definition DecodeRLE4_body :: "env \<Rightarrow> RLEContext \<Rightarrow> (RLEContext \<times> bool) option" where
  "DecodeRLE4_body e c = do {
     (first, c) \<leftarrow> ReadByte c;
     (second, c) \<leftarrow> ReadByte c;
     if first = 0 then
       if second = 0 then Some (NextLine c, False)
       else if second = 1 then Some (c, True)
       else if second = 2 then do { c \<leftarrow> read_Delta e c; Some (c, False) }
       else do {
         c \<leftarrow> forM 0 (unat second)
                (\<lambda>i c. do {
                   b \<leftarrow> rd (rle_src c) (rle_srcPos c);
                   if i mod 2 = 0 then SetPixel c (drop_bit 4 b)
                   else SetPixel (c\<lparr>rle_srcPos := rle_srcPos c + 1\<rparr>) (b AND 0x0F)
                 }) c;
         c \<leftarrow> Some (if second AND 1 \<noteq> 0 then c\<lparr>rle_srcPos := rle_srcPos c + 1\<rparr> else c);
         Some (if ((unat second + 1) div 2) mod 2 \<noteq> 0 then c\<lparr>rle_srcPos := rle_srcPos c + 1\<rparr> else c,
               False)
       }
     else do {
       c \<leftarrow> forM 0 (unat first)
              (\<lambda>i c. SetPixel c (if i mod 2 \<noteq> 0 then second AND 0x0F else drop_bit 4 second)) c;
       Some (c, False)
     }
   }"

lemma DecodeRLE4_body_pos:
  assumes "DecodeRLE4_body e c = Some (c', stop)" and "rle_srcPos c < rle_srcSize c"
  shows "rle_srcPos c < rle_srcPos c' \<and> rle_srcSize c' = rle_srcSize c"
proof -
  from assms(1) obtain f c1 s c2 where
    r1: "ReadByte c = Some (f, c1)" and r2: "ReadByte c1 = Some (s, c2)"
    by (auto simp: DecodeRLE4_body_def bind_eq_Some_conv)
  from ReadByte_pos[OF r1] ReadByte_pos[OF r2] assms(2)
  have c2: "rle_srcPos c < rle_srcPos c2" "rle_srcSize c2 = rle_srcSize c" by auto
  let ?P = "\<lambda>t. rle_srcPos c2 \<le> rle_srcPos t \<and> rle_srcSize t = rle_srcSize c2"
  have lit: "?P t"
    if "forM 0 n (\<lambda>i c. do {
                   b \<leftarrow> rd (rle_src c) (rle_srcPos c);
                   if i mod 2 = 0 then SetPixel c (drop_bit 4 b)
                   else SetPixel (c\<lparr>rle_srcPos := rle_srcPos c + 1\<rparr>) (b AND 0x0F)
                 }) c2 = Some t" for n t
    by (rule forM_rule[OF that, where P = ?P])
       (auto simp: bind_eq_Some_conv split: if_splits dest!: SetPixel_pos)
  have run: "?P t" if "forM 0 n (\<lambda>i c. SetPixel c (v i)) c2 = Some t" for n t v
    by (rule forM_rule[OF that, where P = ?P]) (auto dest!: SetPixel_pos)
  from assms(1) r1 r2 c2 show ?thesis
    by (auto simp: DecodeRLE4_body_def bind_eq_Some_conv NextLine_pos
             split: if_splits dest!: read_Delta_pos lit run)
qed

function DecodeRLE4 :: "env \<Rightarrow> RLEContext \<Rightarrow> RLEContext option" where
  "DecodeRLE4 e c =
     (if HasMore c
      then (case DecodeRLE4_body e c of
              None \<Rightarrow> None
            | Some (c', stop) \<Rightarrow> if stop then Some c' else DecodeRLE4 e c')
      else Some c)"
  by pat_completeness auto
termination
proof (relation "measure (\<lambda>(e, c). rle_srcSize c - rle_srcPos c)")
  fix e c x2 x y
  assume "HasMore c" and "DecodeRLE4_body e c = Some x2" and "(x, y) = x2" and "\<not> y"
  then show "((e, x), (e, c)) \<in> measure (\<lambda>(e, c). rle_srcSize c - rle_srcPos c)"
    using DecodeRLE4_body_pos[of e c x y] by (auto simp: HasMore_def)
qed simp

declare DecodeRLE4.simps [simp del]


section \<open>Little-endian fields, image description\<close>

text \<open>
  The headers are packed structs filled by reading bytes into them on a little-endian
  machine: a field is the little-endian value of its bytes. Bytes that a short read did
  not deliver keep the zero the field was initialised with.
\<close>

fun le_nat :: "byte list \<Rightarrow> nat" where
  "le_nat [] = 0"
| "le_nat (b # bs) = unat b + 256 * le_nat bs"

definition field :: "byte list \<Rightarrow> nat \<Rightarrow> nat \<Rightarrow> nat" where
  "field hdr off n = le_nat (take n (drop off hdr))"

fun le_bytes :: "nat \<Rightarrow> nat \<Rightarrow> byte list" where
  "le_bytes 0 v = []"
| "le_bytes (Suc n) v = of_nat v # le_bytes n (v div 256)"

definition wr_bytes :: "byte list \<Rightarrow> nat \<Rightarrow> byte list \<Rightarrow> byte list option" where
  "wr_bytes buf off bs =
     (if off + length bs \<le> length buf
      then Some (take off buf @ bs @ drop (off + length bs) buf) else None)"

text \<open>The four stores \<open>dst[x * 4 + k] = v\<close> of one pixel; the index is computed in \<open>CKDWORD\<close>.\<close>

definition put4 :: "byte list \<Rightarrow> nat \<Rightarrow> nat \<Rightarrow> byte \<Rightarrow> byte \<Rightarrow> byte \<Rightarrow> byte \<Rightarrow> byte list option" where
  "put4 buf row x v0 v1 v2 v3 = do {
     buf \<leftarrow> wr buf (row + (x * 4 + 0) mod 2 ^ 32) v0;
     buf \<leftarrow> wr buf (row + (x * 4 + 1) mod 2 ^ 32) v1;
     buf \<leftarrow> wr buf (row + (x * 4 + 2) mod 2 ^ 32) v2;
     wr buf (row + (x * 4 + 3) mod 2 ^ 32) v3
   }"

text \<open>
  \<open>VxImageDescEx\<close> and \<open>CKBitmapProperties\<close> are declared by the SDK; these are the
  fields the readers use. A pointer field is \<open>None\<close> when null and the buffer it points
  to otherwise. \<open>m_Data\<close> owns the same buffer as \<open>Image\<close>.
\<close>

record VxImageDescEx =
  Flags :: nat
  Width :: nat
  Height :: nat
  BytesPerLine :: nat
  BitsPerPixel :: nat
  RedMask :: nat
  GreenMask :: nat
  BlueMask :: nat
  AlphaMask :: nat
  BytesPerColorEntry :: nat
  ColorMapEntries :: nat
  ColorMap :: "byte list option"
  Image :: "byte list option"

record CKBitmapProperties =
  m_Size :: nat
  m_Format :: VxImageDescEx
  m_Data :: "byte list option"
  m_BitDepth :: nat
  m_UseRLE :: nat

text \<open>Modelled from the spec: the channel masks \<open>R_MASK\<close>, \<open>G_MASK\<close>, \<open>B_MASK\<close> and
  \<open>A_MASK\<close> of the SDK header \<open>VxColor.h\<close>, which the specification gives as
  R=0x00FF0000, G=0x0000FF00, B=0x000000FF, A=0xFF000000.\<close>

definition R_MASK :: nat where "R_MASK = 0x00FF0000"
definition G_MASK :: nat where "G_MASK = 0x0000FF00"
definition B_MASK :: nat where "B_MASK = 0x000000FF"
definition A_MASK :: nat where "A_MASK = 0xFF000000"

definition FillFormatBGRA32 :: "nat \<Rightarrow> nat \<Rightarrow> nat \<Rightarrow> byte list \<Rightarrow> VxImageDescEx" where
  "FillFormatBGRA32 width height bytesPerLine img =
     \<lparr> Flags = 0, Width = width, Height = height, BytesPerLine = bytesPerLine,
       BitsPerPixel = 32, RedMask = R_MASK, GreenMask = G_MASK, BlueMask = B_MASK,
       AlphaMask = A_MASK, BytesPerColorEntry = 0, ColorMapEntries = 0,
       ColorMap = None, Image = Some img \<rparr>"

text \<open>The file name a \<open>const char *\<close> denotes: the bytes before the first NUL.\<close>

definition c_string :: "byte list \<Rightarrow> byte list" where
  "c_string bs = takeWhile (\<lambda>b. b \<noteq> 0) bs"

text \<open>The content of \<open>n\<close> bytes of storage of which the first bytes were filled by a read.\<close>

definition filled :: "env \<Rightarrow> nat \<Rightarrow> byte list \<Rightarrow> byte list" where
  "filled e n got = take n got @ map (uninit e) [length (take n got)..<n]"

section \<open>BMP: data source\<close>

text \<open>
  \<open>BmpFileSource content pos\<close> is an open file and its position, with the behaviour of
  \<open>fread\<close>, \<open>fseek\<close> and \<open>ftell\<close> on a \<open>long\<close> of 32 bits; \<open>BmpMemorySource m_data m_size
  m_offset\<close> is the caller's buffer with the size the caller gave. \<open>Read\<close> returns the
  flag of the source, the bytes that reached the destination and the source afterwards;
  \<open>None\<close> is a \<open>memcpy\<close> that leaves the caller's buffer.
\<close>

datatype BmpDataSource =
    BmpFileSource "byte list" nat
  | BmpMemorySource "byte list" nat nat

definition file_size :: "byte list \<Rightarrow> nat" where
  "file_size content = (if length content < 2 ^ 31 then length content else 0)"

fun Bmp_Read :: "BmpDataSource \<Rightarrow> nat \<Rightarrow> (bool \<times> byte list \<times> BmpDataSource) option" where
  "Bmp_Read (BmpFileSource content pos) n =
     (let got = take n (drop pos content)
      in Some (length got = n, got, BmpFileSource content (pos + length got)))"
| "Bmp_Read (BmpMemorySource m_data m_size m_offset) n =
     (if (m_offset + n) mod 2 ^ 32 > m_size
      then Some (False, [], BmpMemorySource m_data m_size m_offset)
      else if m_offset + n > length m_data then None
      else Some (True, take n (drop m_offset m_data),
                 BmpMemorySource m_data m_size ((m_offset + n) mod 2 ^ 32)))"

fun Bmp_Seek :: "BmpDataSource \<Rightarrow> nat \<Rightarrow> bool \<times> BmpDataSource" where
  "Bmp_Seek (BmpFileSource content pos) offset =
     (if offset < 2 ^ 31 then (True, BmpFileSource content offset)
      else (False, BmpFileSource content pos))"
| "Bmp_Seek (BmpMemorySource m_data m_size m_offset) offset =
     (if offset > m_size then (False, BmpMemorySource m_data m_size m_offset)
      else (True, BmpMemorySource m_data m_size offset))"

text \<open>\<open>SeekRelative(int offset)\<close>; the argument is given as the \<open>CKDWORD\<close> that is cast to
  \<open>int\<close>, so a value from \<open>2 ^ 31\<close> on is the negative offset \<open>offset - 2 ^ 32\<close>.\<close>

fun Bmp_SeekRelative :: "BmpDataSource \<Rightarrow> nat \<Rightarrow> bool \<times> BmpDataSource" where
  "Bmp_SeekRelative (BmpFileSource content pos) offset =
     (if offset < 2 ^ 31
      then (if pos + offset < 2 ^ 31 then (True, BmpFileSource content (pos + offset))
            else (False, BmpFileSource content pos))
      else (if 2 ^ 32 - offset \<le> pos then (True, BmpFileSource content (pos - (2 ^ 32 - offset)))
            else (False, BmpFileSource content pos)))"
| "Bmp_SeekRelative (BmpMemorySource m_data m_size m_offset) offset =
     (let newOff = (if offset \<ge> 2 ^ 31 \<and> 2 ^ 32 - offset > m_offset then 0
                    else (m_offset + offset) mod 2 ^ 32)
      in if newOff > m_size then (False, BmpMemorySource m_data m_size m_offset)
         else (True, BmpMemorySource m_data m_size newOff))"

fun Bmp_Tell :: "BmpDataSource \<Rightarrow> nat" where
  "Bmp_Tell (BmpFileSource content pos) = pos"
| "Bmp_Tell (BmpMemorySource m_data m_size m_offset) = m_offset"

fun Bmp_Size :: "BmpDataSource \<Rightarrow> nat" where
  "Bmp_Size (BmpFileSource content pos) = file_size content"
| "Bmp_Size (BmpMemorySource m_data m_size m_offset) = m_size"

fun Bmp_ReadAt :: "BmpDataSource \<Rightarrow> nat \<Rightarrow> nat \<Rightarrow> (bool \<times> byte list) option" where
  "Bmp_ReadAt (BmpFileSource content pos) offset n =
     (if offset < 2 ^ 31
      then (let got = take n (drop offset content) in Some (length got = n, got))
      else Some (False, []))"
| "Bmp_ReadAt (BmpMemorySource m_data m_size m_offset) offset n =
     (if (offset + n) mod 2 ^ 32 > m_size then Some (False, [])
      else if offset + n > length m_data then None
      else Some (True, take n (drop offset m_data)))"

section \<open>BMP: pixel rows\<close>

text \<open>The \<open>while ((m & 1) == 0)\<close> loop of \<open>ExtractMaskedComponent\<close>; it is entered with a
  mask that is not zero.\<close>

function lowest_bit :: "nat \<Rightarrow> nat \<Rightarrow> nat \<times> nat" where
  "lowest_bit m shift = (if m \<noteq> 0 \<and> m mod 2 = 0 then lowest_bit (m div 2) (shift + 1) else (m, shift))"
  by pat_completeness auto
termination
  by (relation "measure (\<lambda>(m, shift). m)") auto

declare lowest_bit.simps [simp del]

definition ExtractMaskedComponent :: "nat \<Rightarrow> nat \<Rightarrow> byte" where
  "ExtractMaskedComponent v msk =
     (if msk = 0 then 0
      else (let (m, shift) = lowest_bit msk 0;
                shifted = (drop_bit shift v) AND m
            in of_nat (((shifted * 255) mod 2 ^ 32) div m)))"

definition DecodeRow1bpp ::
  "byte list \<Rightarrow> nat \<Rightarrow> byte list \<Rightarrow> nat \<Rightarrow> nat \<Rightarrow> byte list \<Rightarrow> bool \<Rightarrow> nat \<Rightarrow> byte list option" where
  "DecodeRow1bpp src so buf row width pal is3 entries =
     forM 0 width (\<lambda>x buf. do {
       b \<leftarrow> rd src (so + x div 8);
       SetBGRAFromPalette buf row x (drop_bit (7 - x mod 8) b AND 1) pal is3 entries
     }) buf"

definition DecodeRow4bpp ::
  "byte list \<Rightarrow> nat \<Rightarrow> byte list \<Rightarrow> nat \<Rightarrow> nat \<Rightarrow> byte list \<Rightarrow> bool \<Rightarrow> nat \<Rightarrow> byte list option" where
  "DecodeRow4bpp src so buf row width pal is3 entries =
     forM 0 width (\<lambda>x buf. do {
       b \<leftarrow> rd src (so + x div 2);
       SetBGRAFromPalette buf row x (if x mod 2 \<noteq> 0 then b AND 0x0F else drop_bit 4 b)
         pal is3 entries
     }) buf"

definition DecodeRow8bpp ::
  "byte list \<Rightarrow> nat \<Rightarrow> byte list \<Rightarrow> nat \<Rightarrow> nat \<Rightarrow> byte list \<Rightarrow> bool \<Rightarrow> nat \<Rightarrow> byte list option" where
  "DecodeRow8bpp src so buf row width pal is3 entries =
     forM 0 width (\<lambda>x buf. do {
       b \<leftarrow> rd src (so + x);
       SetBGRAFromPalette buf row x b pal is3 entries
     }) buf"

definition DecodeRow16bpp ::
  "byte list \<Rightarrow> nat \<Rightarrow> byte list \<Rightarrow> nat \<Rightarrow> nat \<Rightarrow> nat \<Rightarrow> nat \<Rightarrow> nat \<Rightarrow> nat \<Rightarrow> bool
   \<Rightarrow> byte list option" where
  "DecodeRow16bpp src so buf row width rMask gMask bMask aMask useMasks =
     forM 0 width (\<lambda>x buf. do {
       p0 \<leftarrow> rd src (so + (x * 2) mod 2 ^ 32);
       p1 \<leftarrow> rd src (so + (x * 2) mod 2 ^ 32 + 1);
       let pixel = le_nat [p0, p1] in
       if useMasks \<and> rMask \<noteq> 0 \<and> gMask \<noteq> 0 \<and> bMask \<noteq> 0
       then put4 buf row x (ExtractMaskedComponent pixel bMask)
              (ExtractMaskedComponent pixel gMask) (ExtractMaskedComponent pixel rMask)
              (if aMask \<noteq> 0 then ExtractMaskedComponent pixel aMask else 255)
       else put4 buf row x (of_nat (((drop_bit 0 pixel) AND 0x1F) * 255 div 31))
              (of_nat (((drop_bit 5 pixel) AND 0x1F) * 255 div 31))
              (of_nat (((drop_bit 10 pixel) AND 0x1F) * 255 div 31)) 255
     }) buf"

definition DecodeRow24bpp :: "byte list \<Rightarrow> nat \<Rightarrow> byte list \<Rightarrow> nat \<Rightarrow> nat \<Rightarrow> byte list option" where
  "DecodeRow24bpp src so buf row width =
     forM 0 width (\<lambda>x buf. do {
       b \<leftarrow> rd src (so + (x * 3 + 0) mod 2 ^ 32);
       g \<leftarrow> rd src (so + (x * 3 + 1) mod 2 ^ 32);
       r \<leftarrow> rd src (so + (x * 3 + 2) mod 2 ^ 32);
       put4 buf row x b g r 255
     }) buf"

definition DecodeRow32bpp ::
  "byte list \<Rightarrow> nat \<Rightarrow> byte list \<Rightarrow> nat \<Rightarrow> nat \<Rightarrow> nat \<Rightarrow> nat \<Rightarrow> nat \<Rightarrow> nat \<Rightarrow> bool
   \<Rightarrow> byte list option" where
  "DecodeRow32bpp src so buf row width rMask gMask bMask aMask useMasks =
     forM 0 width (\<lambda>x buf. do {
       p0 \<leftarrow> rd src (so + (x * 4) mod 2 ^ 32);
       p1 \<leftarrow> rd src (so + (x * 4) mod 2 ^ 32 + 1);
       p2 \<leftarrow> rd src (so + (x * 4) mod 2 ^ 32 + 2);
       p3 \<leftarrow> rd src (so + (x * 4) mod 2 ^ 32 + 3);
       let pixel = le_nat [p0, p1, p2, p3] in
       if useMasks \<and> rMask \<noteq> 0 \<and> gMask \<noteq> 0 \<and> bMask \<noteq> 0
       then put4 buf row x (ExtractMaskedComponent pixel bMask)
              (ExtractMaskedComponent pixel gMask) (ExtractMaskedComponent pixel rMask)
              (if aMask \<noteq> 0 then ExtractMaskedComponent pixel aMask else 255)
       else put4 buf row x p0 p1 p2 255
     }) buf"


section \<open>BMP: header\<close>

definition BI_RGB :: nat where "BI_RGB = 0"
definition BI_RLE8 :: nat where "BI_RLE8 = 1"
definition BI_RLE4 :: nat where "BI_RLE4 = 2"
definition BI_BITFIELDS :: nat where "BI_BITFIELDS = 3"
definition BI_JPEG :: nat where "BI_JPEG = 4"
definition BI_PNG :: nat where "BI_PNG = 5"
definition BI_ALPHABITFIELDS :: nat where "BI_ALPHABITFIELDS = 6"

record BmpHeader =
  bmp_width :: nat
  bmp_height :: nat
  bmp_bitCount :: nat
  bmp_planes :: nat
  bmp_compression :: nat
  bmp_colorsUsed :: nat
  bmp_headerSize :: nat
  bmp_topDown :: bool
  bmp_redMask :: nat
  bmp_greenMask :: nat
  bmp_blueMask :: nat
  bmp_alphaMask :: nat
  bmp_pixelDataOffset :: nat

definition new_BmpHeader :: BmpHeader where
  "new_BmpHeader =
     \<lparr> bmp_width = 0, bmp_height = 0, bmp_bitCount = 0, bmp_planes = 0, bmp_compression = 0,
       bmp_colorsUsed = 0, bmp_headerSize = 0, bmp_topDown = False,
       bmp_redMask = 0, bmp_greenMask = 0, bmp_blueMask = 0, bmp_alphaMask = 0,
       bmp_pixelDataOffset = 0 \<rparr>"

text \<open>The checks under \<open>// Validate\<close> at the end of \<open>ParseBmpHeader\<close>.\<close>

definition ParseBmpHeader_validate ::
  "BmpHeader \<Rightarrow> BmpDataSource \<Rightarrow> failure + (BmpHeader \<times> BmpDataSource)" where
  "ParseBmpHeader_validate hdr src =
     (if bmp_width hdr = 0 \<or> bmp_height hdr = 0 then Inl FileCorrupted
      else if bmp_planes hdr \<noteq> 1 then Inl FileCorrupted
      else if bmp_bitCount hdr \<noteq> 1 \<and> bmp_bitCount hdr \<noteq> 4 \<and> bmp_bitCount hdr \<noteq> 8 \<and>
              bmp_bitCount hdr \<noteq> 16 \<and> bmp_bitCount hdr \<noteq> 24 \<and> bmp_bitCount hdr \<noteq> 32
           then Inl UnsupportedFile
      else if bmp_compression hdr = BI_RLE8 \<and> bmp_bitCount hdr \<noteq> 8 then Inl UnsupportedFile
      else if bmp_compression hdr = BI_RLE4 \<and> bmp_bitCount hdr \<noteq> 4 then Inl UnsupportedFile
      else Inr (hdr, src))"

text \<open>The block \<open>// Read bitfield masks\<close>: four \<open>ReadAt\<close> calls whose flags are not looked at.\<close>

definition ParseBmpHeader_masks :: "BmpHeader \<Rightarrow> BmpDataSource \<Rightarrow> BmpHeader option" where
  "ParseBmpHeader_masks hdr src =
     (if (bmp_compression hdr = BI_BITFIELDS \<or> bmp_compression hdr = BI_ALPHABITFIELDS) \<and>
         bmp_headerSize hdr \<ge> 52
      then do {
        let base = 14 + 40;
        (ok, r) \<leftarrow> Bmp_ReadAt src base 4;
        (ok, g) \<leftarrow> Bmp_ReadAt src (base + 4) 4;
        (ok, b) \<leftarrow> Bmp_ReadAt src (base + 8) 4;
        let hdr = hdr\<lparr>bmp_redMask := le_nat r, bmp_greenMask := le_nat g, bmp_blueMask := le_nat b\<rparr>;
        if bmp_headerSize hdr \<ge> 56
        then do { (ok, a) \<leftarrow> Bmp_ReadAt src (base + 12) 4; Some (hdr\<lparr>bmp_alphaMask := le_nat a\<rparr>) }
        else Some hdr
      }
      else Some hdr)"

text \<open>
  \<open>ParseBmpHeader\<close>. A negative \<open>biHeight\<close> is a field value from \<open>2 ^ 31\<close> on, and
  \<open>-(int)biHeight\<close> converted to \<open>CKDWORD\<close> is \<open>2 ^ 32 - biHeight\<close>.
\<close>

definition ParseBmpHeader :: "BmpDataSource \<Rightarrow> failure + (BmpHeader \<times> BmpDataSource)" where
  "ParseBmpHeader src0 =
     (case Bmp_Read src0 14 of
        None \<Rightarrow> Inl Undefined
      | Some (ok, fileHdr, src) \<Rightarrow>
        if \<not> ok then Inl ReadError
        else if field fileHdr 0 2 \<noteq> 0x4D42 then Inl UnsupportedFile
        else
          let hdr = new_BmpHeader\<lparr>bmp_pixelDataOffset := field fileHdr 10 4\<rparr> in
          (case Bmp_Read src 4 of
             None \<Rightarrow> Inl Undefined
           | Some (ok, hs, src) \<Rightarrow>
             if \<not> ok then Inl ReadError
             else
               let hdr = hdr\<lparr>bmp_headerSize := field hs 0 4\<rparr> in
               if bmp_headerSize hdr = 12 then
                 (case Bmp_Read src 8 of
                    None \<Rightarrow> Inl Undefined
                  | Some (ok, core, src) \<Rightarrow>
                    if \<not> ok then Inl ReadError
                    else ParseBmpHeader_validate
                           (hdr\<lparr>bmp_width := field core 0 2, bmp_height := field core 2 2,
                                bmp_planes := field core 4 2, bmp_bitCount := field core 6 2,
                                bmp_compression := BI_RGB\<rparr>) src)
               else if bmp_headerSize hdr \<ge> 40 then
                 (let toRead = (if bmp_headerSize hdr > 40 then 40 - 4 else bmp_headerSize hdr - 4)
                  in case Bmp_Read src toRead of
                    None \<Rightarrow> Inl Undefined
                  | Some (ok, info, src) \<Rightarrow>
                    if \<not> ok then Inl ReadError
                    else
                      let src = (if bmp_headerSize hdr > 40
                                 then snd (Bmp_SeekRelative src (bmp_headerSize hdr - 40)) else src);
                          biHeight = field info 4 4;
                          hdr = hdr\<lparr>bmp_width := field info 0 4\<rparr>;
                          hdr = (if biHeight \<ge> 2 ^ 31
                                 then hdr\<lparr>bmp_height := 2 ^ 32 - biHeight, bmp_topDown := True\<rparr>
                                 else hdr\<lparr>bmp_height := biHeight\<rparr>);
                          hdr = hdr\<lparr>bmp_planes := field info 8 2, bmp_bitCount := field info 10 2,
                                    bmp_compression := field info 12 4,
                                    bmp_colorsUsed := field info 28 4\<rparr>
                      in
                      if bmp_compression hdr = BI_JPEG \<or> bmp_compression hdr = BI_PNG
                      then Inl UnsupportedFile
                      else if bmp_compression hdr \<noteq> BI_RGB \<and> bmp_compression hdr \<noteq> BI_RLE8 \<and>
                              bmp_compression hdr \<noteq> BI_RLE4 \<and> bmp_compression hdr \<noteq> BI_BITFIELDS \<and>
                              bmp_compression hdr \<noteq> BI_ALPHABITFIELDS
                      then Inl UnsupportedFile
                      else (case ParseBmpHeader_masks hdr src of
                              None \<Rightarrow> Inl Undefined
                            | Some hdr \<Rightarrow> ParseBmpHeader_validate hdr src))
               else Inl UnsupportedFile))"

section \<open>BMP: reading\<close>

text \<open>
  The local variables of \<open>BMP_Read\<close> when it reaches \<open>// Decode\<close>: the header, the
  palette, the pixel payload and the destination filled with \<open>0xFF\<close>.
\<close>

record bmp_job =
  job_hdr :: BmpHeader
  job_paletteEntries :: nat
  job_is3BytePalette :: bool
  job_palette :: "byte list"
  job_srcPixels :: "byte list"
  job_pixelDataSize :: nat
  job_srcStride :: nat
  job_dstStride :: nat
  job_dstPixels :: "byte list"

text \<open>\<open>BMP_Read\<close> from its start to the creation of the data source. \<open>props\<close> is taken
  to be a valid pointer.\<close>

definition BMP_open :: "env \<Rightarrow> byte list option \<Rightarrow> int \<Rightarrow> failure + BmpDataSource" where
  "BMP_open e data sz =
     (case data of
        None \<Rightarrow> Inl Generic
      | Some bytes \<Rightarrow>
          if sz < 0 then Inl FileCorrupted
          else if sz = 0
          then (case fs e (c_string bytes) of
                  None \<Rightarrow> Inl ReadError
                | Some content \<Rightarrow> Inr (BmpFileSource content 0))
          else Inr (BmpMemorySource bytes (nat sz) 0))"

text \<open>
  \<open>BMP_Read\<close> from \<open>// Parse header\<close> to \<open>// Allocate destination\<close>. The flags of
  \<open>Seek\<close> and of the \<open>Read\<close> of the pixel payload are not looked at by the source, so a
  short payload leaves the rest of \<open>srcPixels\<close> as allocated. \<open>XArray::Resize\<close> takes an
  \<open>int\<close>; its behaviour on the negative size that a payload of \<open>2 ^ 31\<close> bytes or more
  becomes is not part of this source and is taken as undefined.
\<close>

definition BMP_prepare :: "env \<Rightarrow> BmpDataSource \<Rightarrow> failure + bmp_job" where
  "BMP_prepare e src0 =
     (case ParseBmpHeader src0 of
        Inl err \<Rightarrow> Inl err
      | Inr (hdr, src) \<Rightarrow>
        let is3BytePalette = (bmp_headerSize hdr = 12);
            bitfields = (bmp_compression hdr = BI_BITFIELDS \<or> bmp_compression hdr = BI_ALPHABITFIELDS);
            maxColors = (2 :: nat) ^ bmp_bitCount hdr;
            paletteEntries =
              (if bmp_bitCount hdr \<le> 8
               then (if bmp_colorsUsed hdr \<noteq> 0 then bmp_colorsUsed hdr else maxColors) else 0)
        in
        if bmp_bitCount hdr \<le> 8 \<and> (paletteEntries = 0 \<or> paletteEntries > maxColors)
        then Inl FileCorrupted
        else
          let paletteSize =
                (if bmp_bitCount hdr \<le> 8 then paletteEntries * (if is3BytePalette then 3 else 4)
                 else if bitfields \<and> bmp_headerSize hdr < 52
                 then (if bmp_compression hdr = BI_ALPHABITFIELDS then 16 else 12)
                 else 0)
          in
          (case (if paletteSize > 0 then Bmp_Read src paletteSize else Some (True, [], src)) of
             None \<Rightarrow> Inl Undefined
           | Some (ok, palette, src) \<Rightarrow>
             if \<not> ok then Inl ReadError
             else
               let hdr =
                     (if paletteSize > 0 \<and> bitfields \<and> bmp_bitCount hdr > 8 \<and> bmp_headerSize hdr < 52
                      then (let hdr = hdr\<lparr>bmp_redMask := field palette 0 4,
                                          bmp_greenMask := field palette 4 4,
                                          bmp_blueMask := field palette 8 4\<rparr>
                            in if paletteSize \<ge> 16 then hdr\<lparr>bmp_alphaMask := field palette 12 4\<rparr>
                               else hdr)
                      else hdr)
               in
               if bmp_pixelDataOffset hdr < Bmp_Tell src then Inl FileCorrupted
               else
                 let src = snd (Bmp_Seek src (bmp_pixelDataOffset hdr));
                     bitsPerRow = bmp_width hdr * bmp_bitCount hdr;
                     srcStride64 = ((bitsPerRow + 31) div 32) * 4
                 in
                 if srcStride64 > 0xFFFFFFFF then Inl FileCorrupted
                 else
                   let srcStride = srcStride64;
                       uncompressed = (bmp_compression hdr = BI_RGB \<or> bitfields);
                       total = srcStride * bmp_height hdr
                   in
                   if uncompressed \<and> total > 0xFFFFFFFF then Inl FileCorrupted
                   else
                     let pixelDataSize =
                           (if uncompressed then total
                            else (Bmp_Size src + 2 ^ 32 - Bmp_Tell src) mod 2 ^ 32)
                     in
                     if pixelDataSize \<ge> 2 ^ 31 then Inl Undefined
                     else
                       (case Bmp_Read src pixelDataSize of
                          None \<Rightarrow> Inl Undefined
                        | Some (ok, got, src) \<Rightarrow>
                          let srcPixels = filled e pixelDataSize got;
                              dstStride = (bmp_width hdr * 4) mod 2 ^ 32;
                              dstTotal = dstStride * bmp_height hdr
                          in
                          if dstTotal > 0xFFFFFFFF then Inl FileCorrupted
                          else Inr \<lparr> job_hdr = hdr, job_paletteEntries = paletteEntries,
                                     job_is3BytePalette = is3BytePalette, job_palette = palette,
                                     job_srcPixels = srcPixels, job_pixelDataSize = pixelDataSize,
                                     job_srcStride = srcStride, job_dstStride = dstStride,
                                     job_dstPixels = replicate dstTotal 0xFF \<rparr>)))"

text \<open>One turn of the row loop of the uncompressed case, with its \<open>switch (hdr.bitCount)\<close>.\<close>

definition BMP_decode_row :: "bmp_job \<Rightarrow> nat \<Rightarrow> byte list \<Rightarrow> byte list option" where
  "BMP_decode_row j y buf =
     (let hdr = job_hdr j;
          useMasks = (bmp_compression hdr = BI_BITFIELDS \<or> bmp_compression hdr = BI_ALPHABITFIELDS);
          srcY = (if bmp_topDown hdr then y else bmp_height hdr - 1 - y);
          srcRow = (srcY * job_srcStride j) mod 2 ^ 32;
          dstRow = (y * job_dstStride j) mod 2 ^ 32
      in if bmp_bitCount hdr = 1
         then DecodeRow1bpp (job_srcPixels j) srcRow buf dstRow (bmp_width hdr) (job_palette j)
                (job_is3BytePalette j) (job_paletteEntries j)
         else if bmp_bitCount hdr = 4
         then DecodeRow4bpp (job_srcPixels j) srcRow buf dstRow (bmp_width hdr) (job_palette j)
                (job_is3BytePalette j) (job_paletteEntries j)
         else if bmp_bitCount hdr = 8
         then DecodeRow8bpp (job_srcPixels j) srcRow buf dstRow (bmp_width hdr) (job_palette j)
                (job_is3BytePalette j) (job_paletteEntries j)
         else if bmp_bitCount hdr = 16
         then DecodeRow16bpp (job_srcPixels j) srcRow buf dstRow (bmp_width hdr) (bmp_redMask hdr)
                (bmp_greenMask hdr) (bmp_blueMask hdr) (bmp_alphaMask hdr) useMasks
         else if bmp_bitCount hdr = 24
         then DecodeRow24bpp (job_srcPixels j) srcRow buf dstRow (bmp_width hdr)
         else if bmp_bitCount hdr = 32
         then DecodeRow32bpp (job_srcPixels j) srcRow buf dstRow (bmp_width hdr) (bmp_redMask hdr)
                (bmp_greenMask hdr) (bmp_blueMask hdr) (bmp_alphaMask hdr) useMasks
         else Some buf)"

text \<open>\<open>BMP_Read\<close> under \<open>// Decode\<close>: the destination after decoding.\<close>

definition BMP_decode :: "env \<Rightarrow> bmp_job \<Rightarrow> byte list option" where
  "BMP_decode e j =
     (let hdr = job_hdr j;
          ctx = new_RLEContext (job_srcPixels j) (job_pixelDataSize j) (job_dstPixels j)
                  (job_dstStride j) (bmp_width hdr) (bmp_height hdr) (bmp_topDown hdr)
                  (job_palette j) (job_is3BytePalette j) (job_paletteEntries j)
      in if bmp_compression hdr = BI_RLE8 then map_option rle_dst (DecodeRLE8 e ctx)
         else if bmp_compression hdr = BI_RLE4 then map_option rle_dst (DecodeRLE4 e ctx)
         else forM 0 (bmp_height hdr) (BMP_decode_row j) (job_dstPixels j))"

definition BMP_Read ::
  "env \<Rightarrow> byte list option \<Rightarrow> int \<Rightarrow> CKBitmapProperties \<Rightarrow> failure + CKBitmapProperties" where
  "BMP_Read e data sz props =
     (case BMP_open e data sz of
        Inl err \<Rightarrow> Inl err
      | Inr src \<Rightarrow>
        (case BMP_prepare e src of
           Inl err \<Rightarrow> Inl err
         | Inr j \<Rightarrow>
           (case BMP_decode e j of
              None \<Rightarrow> Inl Undefined
            | Some dstPixels \<Rightarrow>
                Inr (props\<lparr> m_Format := FillFormatBGRA32 (bmp_width (job_hdr j))
                                           (bmp_height (job_hdr j)) (job_dstStride j) dstPixels,
                           m_Data := Some dstPixels \<rparr>))))"


section \<open>BMP: RLE8 encoding and saving\<close>

definition EmitEncoded :: "byte list \<Rightarrow> byte \<Rightarrow> byte \<Rightarrow> byte list" where
  "EmitEncoded out count v = out @ [count, v]"

definition EmitAbsolute :: "byte list \<Rightarrow> byte list \<Rightarrow> nat \<Rightarrow> byte list" where
  "EmitAbsolute out vals count =
     out @ [0, of_nat count] @ take count vals @ (if count mod 2 \<noteq> 0 then [0] else [])"

definition EmitEOL :: "byte list \<Rightarrow> byte list" where
  "EmitEOL out = out @ [0, 0]"

definition EmitEOB :: "byte list \<Rightarrow> byte list" where
  "EmitEOB out = out @ [0, 1]"

text \<open>The two inner \<open>while\<close> loops of \<open>EncodeRow\<close>; they read \<open>row\<close> below \<open>width\<close> only, and
  \<open>row\<close> holds \<open>width\<close> bytes.\<close>

function EncodeRow_runLen :: "byte list \<Rightarrow> nat \<Rightarrow> nat \<Rightarrow> nat \<Rightarrow> nat" where
  "EncodeRow_runLen row width x runLen =
     (if x + runLen < width \<and> runLen < 255 \<and> row ! (x + runLen) = row ! x
      then EncodeRow_runLen row width x (runLen + 1) else runLen)"
  by pat_completeness auto
termination
  by (relation "measure (\<lambda>(row, width, x, runLen). 255 - runLen)") auto

function EncodeRow_litLen :: "byte list \<Rightarrow> nat \<Rightarrow> nat \<Rightarrow> nat \<Rightarrow> nat" where
  "EncodeRow_litLen row width x litLen =
     (if x + litLen < width \<and> litLen < 255
      then (if x + litLen + 1 < width \<and> row ! (x + litLen) = row ! (x + litLen + 1) then litLen
            else EncodeRow_litLen row width x (litLen + 1))
      else litLen)"
  by pat_completeness auto
termination
  by (relation "measure (\<lambda>(row, width, x, litLen). 255 - litLen)") auto

declare EncodeRow_runLen.simps [simp del] EncodeRow_litLen.simps [simp del]

lemma EncodeRow_runLen_ge: "n \<le> EncodeRow_runLen row width x n"
proof (induction row width x n rule: EncodeRow_runLen.induct)
  case (1 row width x runLen)
  then show ?case by (subst EncodeRow_runLen.simps) auto
qed

lemma EncodeRow_litLen_ge: "n \<le> EncodeRow_litLen row width x n"
proof (induction row width x n rule: EncodeRow_litLen.induct)
  case (1 row width x litLen)
  then show ?case by (subst EncodeRow_litLen.simps) auto
qed

text \<open>The outer loop of \<open>EncodeRow\<close>, from column \<open>x\<close> on.\<close>

function EncodeRow_from :: "byte list \<Rightarrow> nat \<Rightarrow> nat \<Rightarrow> byte list \<Rightarrow> byte list" where
  "EncodeRow_from row width x out =
     (if x < width
      then (let v = row ! x; runLen = EncodeRow_runLen row width x 1
            in if runLen \<ge> 2
               then EncodeRow_from row width (x + runLen) (EmitEncoded out (of_nat runLen) v)
               else (let litLen = EncodeRow_litLen row width x 1
                     in EncodeRow_from row width (x + litLen)
                          (if litLen \<ge> 3 then EmitAbsolute out (drop x row) litLen
                           else fold (\<lambda>i out. EmitEncoded out 1 (row ! (x + i))) [0..<litLen] out)))
      else out)"
  by pat_completeness auto
termination
  apply (relation "measure (\<lambda>(row, width, x, out). width - x)")
    apply simp
  subgoal for row width x out v runLen
    using EncodeRow_runLen_ge[of 1 row width x] by (simp del: One_nat_def)
  subgoal for row width x out v runLen litLen
    using EncodeRow_litLen_ge[of 1 row width x] by (simp del: One_nat_def)
  done

declare EncodeRow_from.simps [simp del]

definition EncodeRow :: "byte list \<Rightarrow> nat \<Rightarrow> byte list \<Rightarrow> byte list" where
  "EncodeRow row width out = EncodeRow_from row width 0 out"

definition ToGray :: "byte \<Rightarrow> byte \<Rightarrow> byte \<Rightarrow> byte" where
  "ToGray b g r = of_nat ((unat r * 299 + unat g * 587 + unat b * 114) div 1000)"

definition rd_bytes :: "byte list \<Rightarrow> nat \<Rightarrow> nat \<Rightarrow> byte list option" where
  "rd_bytes buf off n = (if off + n \<le> length buf then Some (take n (drop off buf)) else None)"

text \<open>The value of a \<open>CKDWORD\<close> converted to \<open>int\<close>.\<close>

definition to_int :: "nat \<Rightarrow> int" where
  "to_int v = (if v < 2 ^ 31 then int v else int v - 2 ^ 32)"

text \<open>What a save call leaves behind: nothing and the return value 0, a buffer handed to
  the caller, or a file written, both with the value returned.\<close>

datatype save_result =
    SaveFailed
  | SavedToMemory int "byte list"
  | SavedToFile int "byte list" "byte list"

text \<open>The end of both save functions, under \<open>// Output\<close>: \<open>*outBuffer\<close> is a file name
  or null.\<close>

definition save_output :: "env \<Rightarrow> byte list option \<Rightarrow> byte list \<Rightarrow> nat \<Rightarrow> save_result" where
  "save_output e outBuffer buffer fileSize =
     (case outBuffer of
        Some path \<Rightarrow>
          if \<not> writable e (c_string path) then SaveFailed
          else SavedToFile (to_int fileSize) (c_string path) (take fileSize buffer)
      | None \<Rightarrow> SavedToMemory (to_int fileSize) buffer)"

text \<open>The gray row of the RLE8 case: \<open>row.Begin()[x] = ToGray(...)\<close> for every column.\<close>

definition BMP_Save_grayRow :: "byte list \<Rightarrow> nat \<Rightarrow> nat \<Rightarrow> byte list \<Rightarrow> byte list option" where
  "BMP_Save_grayRow srcPixels srcRow width row =
     forM 0 width (\<lambda>x row. do {
       b \<leftarrow> rd srcPixels (srcRow + (x * 4) mod 2 ^ 32);
       g \<leftarrow> rd srcPixels (srcRow + (x * 4 + 1) mod 2 ^ 32);
       r \<leftarrow> rd srcPixels (srcRow + (x * 4 + 2) mod 2 ^ 32);
       wr row x (ToGray b g r)
     }) row"

text \<open>The RLE8 stream of \<open>BMP_Save\<close>: the gray row buffer and the stream after every row.\<close>

definition BMP_Save_rle ::
  "env \<Rightarrow> byte list \<Rightarrow> nat \<Rightarrow> nat \<Rightarrow> nat \<Rightarrow> byte list option" where
  "BMP_Save_rle e srcPixels srcStride width height =
     (if width \<ge> 2 ^ 31 then None
      else map_option (\<lambda>(row, rleData). EmitEOB rleData)
        (forM 0 height (\<lambda>y (row, rleData). do {
           row \<leftarrow> BMP_Save_grayRow srcPixels (((height - 1 - y) * srcStride) mod 2 ^ 32) width row;
           Some (row, EmitEOL (EncodeRow row width rleData))
         }) (filled e width [], [])))"

text \<open>One row of the uncompressed pixel data of \<open>BMP_Save\<close>.\<close>

definition BMP_Save_row ::
  "byte list \<Rightarrow> nat \<Rightarrow> nat \<Rightarrow> nat \<Rightarrow> nat \<Rightarrow> byte list \<Rightarrow> byte list option" where
  "BMP_Save_row srcPixels srcRow dstRow width headerBitDepth buffer =
     (if headerBitDepth = 8
      then forM 0 width (\<lambda>x buffer. do {
             b \<leftarrow> rd srcPixels (srcRow + (x * 4) mod 2 ^ 32);
             g \<leftarrow> rd srcPixels (srcRow + (x * 4 + 1) mod 2 ^ 32);
             r \<leftarrow> rd srcPixels (srcRow + (x * 4 + 2) mod 2 ^ 32);
             wr buffer (dstRow + x) (ToGray b g r)
           }) buffer
      else if headerBitDepth = 24
      then forM 0 width (\<lambda>x buffer. do {
             b \<leftarrow> rd srcPixels (srcRow + (x * 4 + 0) mod 2 ^ 32);
             buffer \<leftarrow> wr buffer (dstRow + (x * 3 + 0) mod 2 ^ 32) b;
             g \<leftarrow> rd srcPixels (srcRow + (x * 4 + 1) mod 2 ^ 32);
             buffer \<leftarrow> wr buffer (dstRow + (x * 3 + 1) mod 2 ^ 32) g;
             r \<leftarrow> rd srcPixels (srcRow + (x * 4 + 2) mod 2 ^ 32);
             wr buffer (dstRow + (x * 3 + 2) mod 2 ^ 32) r
           }) buffer
      else do {
             bytes \<leftarrow> rd_bytes srcPixels srcRow ((width * 4) mod 2 ^ 32);
             wr_bytes buffer dstRow bytes
           })"

text \<open>
  \<open>BMP_Save\<close>. \<open>outBuffer\<close> is what \<open>*outBuffer\<close> holds: a file name, or null to get the
  buffer back. The new buffer starts with the content \<open>uninit\<close> gives it; the bytes that
  pad a row are never written.
\<close>

definition BMP_Save ::
  "env \<Rightarrow> byte list option \<Rightarrow> CKBitmapProperties option \<Rightarrow> int \<Rightarrow> save_result option" where
  "BMP_Save e outBuffer props bitDepth0 =
     (case props of
        None \<Rightarrow> Some SaveFailed
      | Some props \<Rightarrow>
        (case Image (m_Format props) of
           None \<Rightarrow> Some SaveFailed
         | Some srcPixels \<Rightarrow>
           let width = Width (m_Format props);
               height = Height (m_Format props);
               srcStride = BytesPerLine (m_Format props)
           in
           if width = 0 \<or> height = 0 then Some SaveFailed
           else
             let bitDepth = (if bitDepth0 \<noteq> 8 \<and> bitDepth0 \<noteq> 9 \<and> bitDepth0 \<noteq> 24 \<and> bitDepth0 \<noteq> 32
                             then 24 else bitDepth0);
                 useRle8 = (bitDepth = 9);
                 headerBitDepth = (if useRle8 then 8 else nat bitDepth);
                 dstStride = ((((width * headerBitDepth + 31) mod 2 ^ 32) div 32) * 4) mod 2 ^ 32;
                 paletteSize = (if headerBitDepth = 8 then 256 * 4 else 0);
                 headerSize = 14 + 40 + paletteSize
             in
             (case (if useRle8 then BMP_Save_rle e srcPixels srcStride width height else Some []) of
                None \<Rightarrow> None
              | Some rleData \<Rightarrow>
                let pixelDataSize = (if useRle8 then length rleData mod 2 ^ 32
                                     else (dstStride * height) mod 2 ^ 32);
                    fileSize = (headerSize + pixelDataSize) mod 2 ^ 32
                in do {
                  buffer \<leftarrow> Some (filled e fileSize []);
                  buffer \<leftarrow> wr_bytes buffer 0 (le_bytes 2 0x4D42);
                  buffer \<leftarrow> wr_bytes buffer 2 (le_bytes 4 fileSize);
                  buffer \<leftarrow> wr_bytes buffer 6 (le_bytes 2 0 @ le_bytes 2 0);
                  buffer \<leftarrow> wr_bytes buffer 10 (le_bytes 4 headerSize);
                  buffer \<leftarrow> wr_bytes buffer 14 (le_bytes 4 40);
                  buffer \<leftarrow> wr_bytes buffer 18 (le_bytes 4 width);
                  buffer \<leftarrow> wr_bytes buffer 22 (le_bytes 4 height);
                  buffer \<leftarrow> wr_bytes buffer 26 (le_bytes 2 1);
                  buffer \<leftarrow> wr_bytes buffer 28 (le_bytes 2 headerBitDepth);
                  buffer \<leftarrow> wr_bytes buffer 30 (le_bytes 4 (if useRle8 then BI_RLE8 else BI_RGB));
                  buffer \<leftarrow> wr_bytes buffer 34 (le_bytes 4 pixelDataSize);
                  buffer \<leftarrow> wr_bytes buffer 38 (le_bytes 4 2835 @ le_bytes 4 2835);
                  buffer \<leftarrow> wr_bytes buffer 46 (le_bytes 4 (if headerBitDepth = 8 then 256 else 0));
                  buffer \<leftarrow> wr_bytes buffer 50 (le_bytes 4 0);
                  buffer \<leftarrow> (if headerBitDepth = 8
                             then forM 0 256 (\<lambda>i buffer.
                                    wr_bytes buffer (14 + 40 + i * 4) [of_nat i, of_nat i, of_nat i, 0])
                                    buffer
                             else Some buffer);
                  buffer \<leftarrow> (if useRle8
                             then do {
                               bytes \<leftarrow> rd_bytes rleData 0 pixelDataSize;
                               wr_bytes buffer headerSize bytes
                             }
                             else forM 0 height (\<lambda>y buffer.
                                    BMP_Save_row srcPixels (((height - 1 - y) * srcStride) mod 2 ^ 32)
                                      (headerSize + (y * dstStride) mod 2 ^ 32) width headerBitDepth
                                      buffer) buffer);
                  Some (save_output e outBuffer buffer fileSize)
                })))"


section \<open>TGA: data source, coordinates and pixels\<close>

datatype TgaDataSource =
    TgaFileSource "byte list" nat
  | TgaMemorySource "byte list" nat nat

fun Tga_Read :: "TgaDataSource \<Rightarrow> nat \<Rightarrow> (bool \<times> byte list \<times> TgaDataSource) option" where
  "Tga_Read (TgaFileSource content pos) n =
     (let got = take n (drop pos content)
      in Some (length got = n, got, TgaFileSource content (pos + length got)))"
| "Tga_Read (TgaMemorySource m_data m_size m_offset) n =
     (if (m_offset + n) mod 2 ^ 32 > m_size
      then Some (False, [], TgaMemorySource m_data m_size m_offset)
      else if m_offset + n > length m_data then None
      else Some (True, take n (drop m_offset m_data),
                 TgaMemorySource m_data m_size ((m_offset + n) mod 2 ^ 32)))"

fun Tga_Skip :: "TgaDataSource \<Rightarrow> nat \<Rightarrow> bool \<times> TgaDataSource" where
  "Tga_Skip (TgaFileSource content pos) n =
     (if n < 2 ^ 31 \<and> pos + n < 2 ^ 31 then (True, TgaFileSource content (pos + n))
      else (False, TgaFileSource content pos))"
| "Tga_Skip (TgaMemorySource m_data m_size m_offset) n =
     (if (m_offset + n) mod 2 ^ 32 > m_size then (False, TgaMemorySource m_data m_size m_offset)
      else (True, TgaMemorySource m_data m_size ((m_offset + n) mod 2 ^ 32)))"

fun Tga_Remaining :: "TgaDataSource \<Rightarrow> nat" where
  "Tga_Remaining (TgaFileSource content pos) =
     (if pos < file_size content then file_size content - pos else 0)"
| "Tga_Remaining (TgaMemorySource m_data m_size m_offset) =
     (if m_offset < m_size then m_size - m_offset else 0)"

text \<open>\<open>ReadRemaining\<close>: the flag and the array \<open>out\<close> afterwards (empty when nothing remains).\<close>

definition Tga_ReadRemaining :: "env \<Rightarrow> TgaDataSource \<Rightarrow> (bool \<times> byte list) option" where
  "Tga_ReadRemaining e src =
     (let rem = Tga_Remaining src
      in if rem = 0 then Some (True, [])
         else if rem \<ge> 2 ^ 31 then None
         else (case src of
                 TgaFileSource content pos \<Rightarrow>
                   map_option (\<lambda>(ok, got, src). (ok, filled e rem got)) (Tga_Read src rem)
               | TgaMemorySource m_data m_size m_offset \<Rightarrow>
                   rd_bytes m_data m_offset rem \<bind> (\<lambda>got. Some (True, got))))"

definition SafeMul32 :: "nat \<Rightarrow> nat \<Rightarrow> nat option" where
  "SafeMul32 a b = (if a * b > 0xFFFFFFFF then None else Some (a * b))"

definition DeinterleaveY :: "nat \<Rightarrow> nat \<Rightarrow> nat \<Rightarrow> nat" where
  "DeinterleaveY fileY height mode =
     (if mode = 0 then fileY
      else if mode = 1
      then (let evenCount = ((height + 1) mod 2 ^ 32) div 2
            in if fileY < evenCount then (fileY * 2) mod 2 ^ 32
               else (((fileY - evenCount) * 2) mod 2 ^ 32 + 1) mod 2 ^ 32)
      else (let c0 = ((height + 3) mod 2 ^ 32) div 4;
                c1 = ((height + 2) mod 2 ^ 32) div 4;
                c2 = ((height + 1) mod 2 ^ 32) div 4
            in if fileY < c0 then (fileY * 4) mod 2 ^ 32
               else (let fileY = fileY - c0
                     in if fileY < c1 then (fileY * 4 + 1) mod 2 ^ 32
                        else (let fileY = fileY - c1
                              in if fileY < c2 then (fileY * 4 + 2) mod 2 ^ 32
                                 else ((fileY + 2 ^ 32 - c2) * 4 + 3) mod 2 ^ 32))))"

definition MapX :: "nat \<Rightarrow> nat \<Rightarrow> bool \<Rightarrow> nat" where
  "MapX x w rtl = (if rtl then (w + 2 ^ 32 - 1 - x) mod 2 ^ 32 else x)"

definition MapY :: "nat \<Rightarrow> nat \<Rightarrow> bool \<Rightarrow> nat \<Rightarrow> nat" where
  "MapY y h td interleave =
     (let logical = DeinterleaveY y h interleave
      in if td then logical else (h + 2 ^ 32 - 1 - logical) mod 2 ^ 32)"

type_synonym pixel = "byte \<times> byte \<times> byte \<times> byte"

definition Decode15or16 :: "nat \<Rightarrow> nat \<Rightarrow> pixel" where
  "Decode15or16 c alphaBits =
     (of_nat (((drop_bit 0 c) AND 0x1F) * 255 div 31),
      of_nat (((drop_bit 5 c) AND 0x1F) * 255 div 31),
      of_nat (((drop_bit 10 c) AND 0x1F) * 255 div 31),
      (if alphaBits > 0 then (if c AND 0x8000 \<noteq> 0 then 255 else 0) else 255))"

record TGAHEADER =
  tga_idLength :: nat
  tga_colorMapType :: nat
  tga_imageType :: nat
  tga_colorMapOrigin :: nat
  tga_colorMapLength :: nat
  tga_colorMapDepth :: nat
  tga_xOrigin :: nat
  tga_yOrigin :: nat
  tga_width :: nat
  tga_height :: nat
  tga_pixelDepth :: nat
  tga_imageDescriptor :: nat

definition read_TGAHEADER :: "byte list \<Rightarrow> TGAHEADER" where
  "read_TGAHEADER h =
     \<lparr> tga_idLength = field h 0 1, tga_colorMapType = field h 1 1, tga_imageType = field h 2 1,
       tga_colorMapOrigin = field h 3 2, tga_colorMapLength = field h 5 2,
       tga_colorMapDepth = field h 7 1, tga_xOrigin = field h 8 2, tga_yOrigin = field h 10 2,
       tga_width = field h 12 2, tga_height = field h 14 2, tga_pixelDepth = field h 16 1,
       tga_imageDescriptor = field h 17 1 \<rparr>"

text \<open>\<open>DecodePaletteEntry\<close>; an empty colour map is the null pointer of \<open>colorMap.Begin()\<close>.\<close>

definition DecodePaletteEntry ::
  "TGAHEADER \<Rightarrow> nat \<Rightarrow> byte list \<Rightarrow> nat \<Rightarrow> nat \<Rightarrow> nat \<Rightarrow> pixel option" where
  "DecodePaletteEntry hdr alphaBits colorMap entries bytesPerEntry index =
     (if colorMap = [] then Some (0, 0, 0, 255)
      else if index < tga_colorMapOrigin hdr \<or> index - tga_colorMapOrigin hdr \<ge> entries
      then Some (0, 0, 0, 255)
      else
        (let e = ((index - tga_colorMapOrigin hdr) * bytesPerEntry) mod 2 ^ 32
         in if tga_colorMapDepth hdr = 15 \<or> tga_colorMapDepth hdr = 16
            then do {
              e0 \<leftarrow> rd colorMap e;
              e1 \<leftarrow> rd colorMap (e + 1);
              Some (Decode15or16 (le_nat [e0, e1])
                      (if tga_colorMapDepth hdr = 16 then alphaBits else 0))
            }
            else if tga_colorMapDepth hdr = 24
            then do {
              e0 \<leftarrow> rd colorMap e; e1 \<leftarrow> rd colorMap (e + 1); e2 \<leftarrow> rd colorMap (e + 2);
              Some (e0, e1, e2, 255)
            }
            else if tga_colorMapDepth hdr = 32
            then do {
              e0 \<leftarrow> rd colorMap e; e1 \<leftarrow> rd colorMap (e + 1); e2 \<leftarrow> rd colorMap (e + 2);
              e3 \<leftarrow> rd colorMap (e + 3);
              Some (e0, e1, e2, e3)
            }
            else Some (0, 0, 0, 255)))"

text \<open>
  \<open>DecodePixel\<close> on the pointer \<open>srcPixels.Begin() + off\<close>. The array that was never
  resized has a null \<open>Begin()\<close>: offset 0 from it is the null pointer the function tests
  for, any other offset from it is no pointer at all.
\<close>

definition DecodePixel ::
  "TGAHEADER \<Rightarrow> nat \<Rightarrow> bool \<Rightarrow> bool \<Rightarrow> nat \<Rightarrow> byte list \<Rightarrow> nat \<Rightarrow> nat \<Rightarrow> byte list \<Rightarrow> nat
   \<Rightarrow> pixel option" where
  "DecodePixel hdr depth hasColorMap isGray alphaBits colorMap cmEntries cmBytes srcPixels off =
     (if srcPixels = [] then (if off = 0 then Some (0, 0, 0, 255) else None)
      else if hasColorMap
      then do {
        idx \<leftarrow> (if depth = 8 then map_option unat (rd srcPixels off)
                 else do { s0 \<leftarrow> rd srcPixels off; s1 \<leftarrow> rd srcPixels (off + 1);
                           Some (le_nat [s0, s1]) });
        DecodePaletteEntry hdr alphaBits colorMap cmEntries cmBytes idx
      }
      else if isGray
      then do {
        s0 \<leftarrow> rd srcPixels off;
        a \<leftarrow> (if depth = 16 then rd srcPixels (off + 1) else Some 255);
        Some (s0, s0, s0, a)
      }
      else if depth = 15 \<or> depth = 16
      then do {
        s0 \<leftarrow> rd srcPixels off; s1 \<leftarrow> rd srcPixels (off + 1);
        Some (Decode15or16 (le_nat [s0, s1]) (if depth = 16 then alphaBits else 0))
      }
      else if depth = 24
      then do {
        s0 \<leftarrow> rd srcPixels off; s1 \<leftarrow> rd srcPixels (off + 1); s2 \<leftarrow> rd srcPixels (off + 2);
        Some (s0, s1, s2, 255)
      }
      else if depth = 32
      then do {
        s0 \<leftarrow> rd srcPixels off; s1 \<leftarrow> rd srcPixels (off + 1); s2 \<leftarrow> rd srcPixels (off + 2);
        s3 \<leftarrow> rd srcPixels (off + 3);
        Some (s0, s1, s2, s3)
      }
      else Some (0, 0, 0, 255))"

definition OutputHasAlpha :: "TGAHEADER \<Rightarrow> nat \<Rightarrow> bool \<Rightarrow> bool \<Rightarrow> nat \<Rightarrow> bool" where
  "OutputHasAlpha hdr depth hasColorMap isGray alphaBits =
     (if hasColorMap
      then tga_colorMapDepth hdr = 32 \<or> (tga_colorMapDepth hdr = 16 \<and> alphaBits > 0)
      else if isGray then depth = 16
      else depth = 32 \<or> (depth = 16 \<and> alphaBits > 0))"

section \<open>TGA: header\<close>

definition TGA_TYPE_COLORMAP :: nat where "TGA_TYPE_COLORMAP = 1"
definition TGA_TYPE_TRUECOLOR :: nat where "TGA_TYPE_TRUECOLOR = 2"
definition TGA_TYPE_GRAYSCALE :: nat where "TGA_TYPE_GRAYSCALE = 3"
definition TGA_TYPE_RLE_COLORMAP :: nat where "TGA_TYPE_RLE_COLORMAP = 9"
definition TGA_TYPE_RLE_TRUECOLOR :: nat where "TGA_TYPE_RLE_TRUECOLOR = 10"
definition TGA_TYPE_RLE_GRAYSCALE :: nat where "TGA_TYPE_RLE_GRAYSCALE = 11"

record TgaContext =
  tc_header :: TGAHEADER
  tc_width :: nat
  tc_height :: nat
  tc_pixelDepth :: nat
  tc_srcBytesPerPixel :: nat
  tc_alphaBits :: nat
  tc_interleaveMode :: nat
  tc_isRLE :: bool
  tc_hasColorMap :: bool
  tc_isGrayscale :: bool
  tc_isRightToLeft :: bool
  tc_isTopDown :: bool
  tc_colorMap :: "byte list"
  tc_colorMapEntries :: nat
  tc_colorMapBytesPerEntry :: nat

definition new_TgaContext :: TgaContext where
  "new_TgaContext =
     \<lparr> tc_header = read_TGAHEADER [], tc_width = 0, tc_height = 0, tc_pixelDepth = 0,
       tc_srcBytesPerPixel = 0, tc_alphaBits = 0, tc_interleaveMode = 0, tc_isRLE = False,
       tc_hasColorMap = False, tc_isGrayscale = False, tc_isRightToLeft = False,
       tc_isTopDown = False, tc_colorMap = [], tc_colorMapEntries = 0,
       tc_colorMapBytesPerEntry = 0 \<rparr>"

text \<open>The \<open>switch (ctx.header.imageType)\<close> of \<open>ParseTgaHeader\<close>.\<close>

definition ParseTgaHeader_type :: "TgaContext \<Rightarrow> TgaContext option" where
  "ParseTgaHeader_type ctx =
     (let t = tga_imageType (tc_header ctx)
      in if t = TGA_TYPE_COLORMAP then Some (ctx\<lparr>tc_hasColorMap := True\<rparr>)
         else if t = TGA_TYPE_TRUECOLOR then Some ctx
         else if t = TGA_TYPE_GRAYSCALE then Some (ctx\<lparr>tc_isGrayscale := True\<rparr>)
         else if t = TGA_TYPE_RLE_COLORMAP then Some (ctx\<lparr>tc_hasColorMap := True, tc_isRLE := True\<rparr>)
         else if t = TGA_TYPE_RLE_TRUECOLOR then Some (ctx\<lparr>tc_isRLE := True\<rparr>)
         else if t = TGA_TYPE_RLE_GRAYSCALE then Some (ctx\<lparr>tc_isGrayscale := True, tc_isRLE := True\<rparr>)
         else None)"

text \<open>The end of \<open>ParseTgaHeader\<close>, from \<open>// Validate color-mapped images\<close> on.\<close>

definition ParseTgaHeader_validate ::
  "TgaContext \<Rightarrow> TgaDataSource \<Rightarrow> failure + (TgaContext \<times> TgaDataSource)" where
  "ParseTgaHeader_validate ctx src =
     (let hdr = tc_header ctx;
          done = Inr (ctx\<lparr>tc_srcBytesPerPixel := (tc_pixelDepth ctx + 7) div 8\<rparr>, src)
      in if tc_hasColorMap ctx
         then (if tga_colorMapType hdr \<noteq> 1 \<or> tc_colorMap ctx = [] \<or>
                  tc_colorMapEntries ctx = 0 \<or> tc_colorMapBytesPerEntry ctx = 0
               then Inl FileCorrupted
               else if tc_pixelDepth ctx \<noteq> 8 \<and> tc_pixelDepth ctx \<noteq> 16 then Inl UnsupportedFile
               else if tga_colorMapDepth hdr \<noteq> 15 \<and> tga_colorMapDepth hdr \<noteq> 16 \<and>
                       tga_colorMapDepth hdr \<noteq> 24 \<and> tga_colorMapDepth hdr \<noteq> 32
               then Inl UnsupportedFile
               else done)
         else if tc_isGrayscale ctx
         then (if tc_pixelDepth ctx \<noteq> 8 \<and> tc_pixelDepth ctx \<noteq> 16 then Inl UnsupportedFile else done)
         else (if tc_pixelDepth ctx \<noteq> 15 \<and> tc_pixelDepth ctx \<noteq> 16 \<and>
                  tc_pixelDepth ctx \<noteq> 24 \<and> tc_pixelDepth ctx \<noteq> 32
               then Inl UnsupportedFile else done))"

definition ParseTgaHeader :: "TgaDataSource \<Rightarrow> failure + (TgaContext \<times> TgaDataSource)" where
  "ParseTgaHeader src0 =
     (case Tga_Read src0 18 of
        None \<Rightarrow> Inl Undefined
      | Some (ok, h, src) \<Rightarrow>
        if \<not> ok then Inl ReadError
        else
          (case ParseTgaHeader_type (new_TgaContext\<lparr>tc_header := read_TGAHEADER h\<rparr>) of
             None \<Rightarrow> Inl UnsupportedFile
           | Some ctx \<Rightarrow>
             let hdr = tc_header ctx;
                 ctx = ctx\<lparr> tc_width := tga_width hdr, tc_height := tga_height hdr,
                            tc_pixelDepth := tga_pixelDepth hdr,
                            tc_alphaBits := tga_imageDescriptor hdr AND 0x0F,
                            tc_interleaveMode := (drop_bit 6 (tga_imageDescriptor hdr)) AND 0x03,
                            tc_isRightToLeft := (tga_imageDescriptor hdr AND 0x10 \<noteq> 0),
                            tc_isTopDown := (tga_imageDescriptor hdr AND 0x20 \<noteq> 0) \<rparr>
             in
             if tc_width ctx = 0 \<or> tc_height ctx = 0 then Inl FileCorrupted
             else if tc_interleaveMode ctx = 3 then Inl UnsupportedFile
             else
               (case (if tga_idLength hdr > 0 then Tga_Skip src (tga_idLength hdr) else (True, src)) of
                  (ok, src) \<Rightarrow>
                  if \<not> ok then Inl ReadError
                  else if tga_colorMapType hdr = 1 \<and> tga_colorMapLength hdr > 0
                  then
                    (let ctx = ctx\<lparr> tc_colorMapEntries := tga_colorMapLength hdr,
                                    tc_colorMapBytesPerEntry := (tga_colorMapDepth hdr + 7) div 8 \<rparr>
                     in if tc_colorMapBytesPerEntry ctx = 0 then Inl FileCorrupted
                        else
                          (case SafeMul32 (tc_colorMapEntries ctx) (tc_colorMapBytesPerEntry ctx) of
                             None \<Rightarrow> Inl FileCorrupted
                           | Some cmSize \<Rightarrow>
                             (case Tga_Read src cmSize of
                                None \<Rightarrow> Inl Undefined
                              | Some (ok, got, src) \<Rightarrow>
                                if \<not> ok then Inl ReadError
                                else ParseTgaHeader_validate (ctx\<lparr>tc_colorMap := got\<rparr>) src)))
                  else ParseTgaHeader_validate ctx src)))"


section \<open>TGA: reading\<close>

text \<open>The four stores of one decoded pixel at its mapped place in the destination.\<close>

definition TGA_store :: "TgaContext \<Rightarrow> nat \<Rightarrow> byte list \<Rightarrow> nat \<Rightarrow> nat \<Rightarrow> pixel \<Rightarrow> byte list option" where
  "TGA_store ctx dstStride buf fx fy px =
     (let dx = MapX fx (tc_width ctx) (tc_isRightToLeft ctx);
          dy = MapY fy (tc_height ctx) (tc_isTopDown ctx) (tc_interleaveMode ctx);
          off = (dy * dstStride) mod 2 ^ 32 + (dx * 4) mod 2 ^ 32
      in case px of (p0, p1, p2, p3) \<Rightarrow> do {
           buf \<leftarrow> wr buf (off + 0) p0;
           buf \<leftarrow> wr buf (off + 1) p1;
           buf \<leftarrow> wr buf (off + 2) p2;
           wr buf (off + 3) p3
         })"

definition TGA_decodeAt :: "TgaContext \<Rightarrow> byte list \<Rightarrow> nat \<Rightarrow> pixel option" where
  "TGA_decodeAt ctx srcPixels off =
     DecodePixel (tc_header ctx) (tc_pixelDepth ctx) (tc_hasColorMap ctx) (tc_isGrayscale ctx)
       (tc_alphaBits ctx) (tc_colorMap ctx) (tc_colorMapEntries ctx)
       (tc_colorMapBytesPerEntry ctx) srcPixels off"

text \<open>The \<open>for\<close> loop of a run packet, counted down: \<open>(pixelCount, dst)\<close> after it.\<close>

fun TGA_runPacket ::
  "TgaContext \<Rightarrow> nat \<Rightarrow> nat \<Rightarrow> pixel \<Rightarrow> nat \<Rightarrow> nat \<times> byte list \<Rightarrow> (nat \<times> byte list) option" where
  "TGA_runPacket ctx dstStride totalPixels px 0 (pixelCount, buf) = Some (pixelCount, buf)"
| "TGA_runPacket ctx dstStride totalPixels px (Suc n) (pixelCount, buf) =
     (if pixelCount < totalPixels
      then (case TGA_store ctx dstStride buf (pixelCount mod tc_width ctx)
                   (pixelCount div tc_width ctx) px of
              None \<Rightarrow> None
            | Some buf \<Rightarrow> TGA_runPacket ctx dstStride totalPixels px n (pixelCount + 1, buf))
      else Some (pixelCount, buf))"

text \<open>The \<open>for\<close> loop of a raw packet, with its \<open>break\<close>: \<open>(srcPos, pixelCount, dst)\<close> after it.\<close>

fun TGA_rawPacket ::
  "TgaContext \<Rightarrow> byte list \<Rightarrow> nat \<Rightarrow> nat \<Rightarrow> nat \<Rightarrow> nat \<times> nat \<times> byte list
   \<Rightarrow> (nat \<times> nat \<times> byte list) option" where
  "TGA_rawPacket ctx srcPixels dstStride totalPixels 0 (srcPos, pixelCount, buf) =
     Some (srcPos, pixelCount, buf)"
| "TGA_rawPacket ctx srcPixels dstStride totalPixels (Suc n) (srcPos, pixelCount, buf) =
     (if pixelCount < totalPixels
      then (if srcPos + tc_srcBytesPerPixel ctx > length srcPixels
            then Some (srcPos, pixelCount, buf)
            else (case TGA_decodeAt ctx srcPixels srcPos of
                    None \<Rightarrow> None
                  | Some px \<Rightarrow>
                    (case TGA_store ctx dstStride buf (pixelCount mod tc_width ctx)
                            (pixelCount div tc_width ctx) px of
                       None \<Rightarrow> None
                     | Some buf \<Rightarrow>
                         TGA_rawPacket ctx srcPixels dstStride totalPixels n
                           (srcPos + tc_srcBytesPerPixel ctx, pixelCount + 1, buf))))
      else Some (srcPos, pixelCount, buf))"

lemma TGA_rawPacket_pos:
  "TGA_rawPacket ctx srcPixels dstStride totalPixels n (srcPos, pc, buf) = Some (srcPos', pc', buf')
   \<Longrightarrow> srcPos \<le> srcPos'"
proof (induction n arbitrary: srcPos pc buf)
  case 0
  then show ?case by simp
next
  case (Suc n)
  then show ?case
    by (fastforce split: if_splits option.splits)
qed

text \<open>
  The \<open>while\<close> loop of the RLE case of \<open>TGA_Read\<close>; \<open>pixelDataSize\<close> is the length of
  \<open>srcPixels\<close>. The second component of the result is \<open>pixelCount\<close> when the loop ends.
\<close>

function TGA_decodeRLE ::
  "TgaContext \<Rightarrow> byte list \<Rightarrow> nat \<Rightarrow> nat \<Rightarrow> nat \<times> nat \<times> byte list
   \<Rightarrow> (nat \<times> nat \<times> byte list) option" where
  "TGA_decodeRLE ctx srcPixels dstStride totalPixels (srcPos, pixelCount, buf) =
     (if pixelCount < totalPixels \<and> srcPos < length srcPixels
      then (case rd srcPixels srcPos of
              None \<Rightarrow> None
            | Some packet \<Rightarrow>
              if packet AND 0x80 \<noteq> 0
              then (if srcPos + 1 + tc_srcBytesPerPixel ctx > length srcPixels
                    then Some (srcPos + 1, pixelCount, buf)
                    else (case TGA_decodeAt ctx srcPixels (srcPos + 1) of
                            None \<Rightarrow> None
                          | Some px \<Rightarrow>
                            (case TGA_runPacket ctx dstStride totalPixels px (unat (packet AND 0x7F) + 1)
                                    (pixelCount, buf) of
                               None \<Rightarrow> None
                             | Some (pixelCount', buf') \<Rightarrow>
                                 TGA_decodeRLE ctx srcPixels dstStride totalPixels
                                   (srcPos + 1 + tc_srcBytesPerPixel ctx, pixelCount', buf'))))
              else (case TGA_rawPacket ctx srcPixels dstStride totalPixels (unat (packet AND 0x7F) + 1)
                           (srcPos + 1, pixelCount, buf) of
                      None \<Rightarrow> None
                    | Some st \<Rightarrow> TGA_decodeRLE ctx srcPixels dstStride totalPixels st))
      else Some (srcPos, pixelCount, buf))"
  by pat_completeness auto
termination
proof (relation "measure (\<lambda>(ctx, srcPixels, dstStride, totalPixels, srcPos, pc, buf). length srcPixels - srcPos)",
       goal_cases)
  case 1
  show ?case by simp
next
  case 2
  then show ?case by auto
next
  case (3 ctx srcPixels dstStride totalPixels srcPos pixelCount buf packet st)
  obtain sp pc b where st: "st = (sp, pc, b)" by (cases st) auto
  from 3(4) st have "srcPos + 1 \<le> sp" using TGA_rawPacket_pos by blast
  with 3(1) st show ?case by auto
qed

declare TGA_decodeRLE.simps [simp del]

text \<open>The two nested \<open>for\<close> loops of the case without RLE.\<close>

definition TGA_decodeRaw :: "TgaContext \<Rightarrow> byte list \<Rightarrow> nat \<Rightarrow> nat \<Rightarrow> byte list \<Rightarrow> byte list option" where
  "TGA_decodeRaw ctx srcPixels srcStride dstStride buf =
     forM 0 (tc_height ctx) (\<lambda>fy buf.
       forM 0 (tc_width ctx) (\<lambda>fx buf. do {
         px \<leftarrow> TGA_decodeAt ctx srcPixels
                 ((fy * srcStride) mod 2 ^ 32 + (fx * tc_srcBytesPerPixel ctx) mod 2 ^ 32);
         TGA_store ctx dstStride buf fx fy px
       }) buf) buf"

definition TGA_open :: "env \<Rightarrow> byte list option \<Rightarrow> int \<Rightarrow> failure + TgaDataSource" where
  "TGA_open e data sz =
     (case data of
        None \<Rightarrow> Inl Generic
      | Some bytes \<Rightarrow>
          if sz < 0 then Inl FileCorrupted
          else if sz = 0
          then (case fs e (c_string bytes) of
                  None \<Rightarrow> Inl ReadError
                | Some content \<Rightarrow> Inr (TgaFileSource content 0))
          else Inr (TgaMemorySource bytes (nat sz) 0))"

text \<open>\<open>TGA_Read\<close>; \<open>sizeof(TgaBitmapProperties)\<close> is 80.\<close>

definition TGA_Read ::
  "env \<Rightarrow> byte list option \<Rightarrow> int \<Rightarrow> CKBitmapProperties \<Rightarrow> failure + CKBitmapProperties" where
  "TGA_Read e data sz props =
     (case TGA_open e data sz of
        Inl err \<Rightarrow> Inl err
      | Inr src \<Rightarrow>
        (case ParseTgaHeader src of
           Inl err \<Rightarrow> Inl err
         | Inr (ctx, src) \<Rightarrow>
           (case Tga_ReadRemaining e src of
              None \<Rightarrow> Inl Undefined
            | Some (ok, srcPixels) \<Rightarrow>
              if \<not> ok then Inl ReadError
              else
                let dstStride = (tc_width ctx * 4) mod 2 ^ 32 in
                (case SafeMul32 dstStride (tc_height ctx) of
                   None \<Rightarrow> Inl FileCorrupted
                 | Some dstSize \<Rightarrow>
                   let dstPixels = replicate dstSize 0xFF;
                       decoded =
                         (if tc_isRLE ctx
                          then (let totalPixels = (tc_width ctx * tc_height ctx) mod 2 ^ 32
                                in case TGA_decodeRLE ctx srcPixels dstStride totalPixels
                                          (0, 0, dstPixels) of
                                     None \<Rightarrow> Inl Undefined
                                   | Some (srcPos, pixelCount, buf) \<Rightarrow>
                                       if pixelCount \<noteq> totalPixels then Inl FileCorrupted
                                       else Inr buf)
                          else (case SafeMul32 (tc_width ctx) (tc_srcBytesPerPixel ctx) of
                                  None \<Rightarrow> Inl FileCorrupted
                                | Some srcStride \<Rightarrow>
                                  (case TGA_decodeRaw ctx srcPixels srcStride dstStride dstPixels of
                                     None \<Rightarrow> Inl Undefined
                                   | Some buf \<Rightarrow> Inr buf)))
                   in
                   (case decoded of
                      Inl err \<Rightarrow> Inl err
                    | Inr buf \<Rightarrow>
                      let props = props\<lparr> m_Format := FillFormatBGRA32 (tc_width ctx) (tc_height ctx)
                                                          dstStride buf,
                                         m_Data := Some buf \<rparr>
                      in Inr (if m_Size props = 80
                              then props\<lparr> m_BitDepth :=
                                             (if OutputHasAlpha (tc_header ctx) (tc_pixelDepth ctx)
                                                   (tc_hasColorMap ctx) (tc_isGrayscale ctx)
                                                   (tc_alphaBits ctx)
                                              then 32 else 24) \<rparr>
                              else props))))))"


section \<open>TGA: saving\<close>

text \<open>The offset in the source image of the pixel with running index \<open>k\<close>, rows taken
  bottom-up.\<close>

definition TGA_Save_pixel :: "nat \<Rightarrow> nat \<Rightarrow> nat \<Rightarrow> nat \<Rightarrow> nat" where
  "TGA_Save_pixel width height srcStride k =
     (((height + 2 ^ 32 - 1 - k div width) mod 2 ^ 32) * srcStride) mod 2 ^ 32
     + ((k mod width) * 4) mod 2 ^ 32"

text \<open>\<open>for (i = 0; i < dstBpp && same; i++) if (next[i] != start[i]) same = FALSE\<close>,
  counted down.\<close>

fun TGA_Save_same :: "byte list \<Rightarrow> nat \<Rightarrow> nat \<Rightarrow> nat \<Rightarrow> bool option" where
  "TGA_Save_same srcPixels nextPixel startPixel 0 = Some True"
| "TGA_Save_same srcPixels nextPixel startPixel (Suc n) =
     (case rd srcPixels nextPixel of
        None \<Rightarrow> None
      | Some a \<Rightarrow>
        (case rd srcPixels startPixel of
           None \<Rightarrow> None
         | Some b \<Rightarrow>
             if a \<noteq> b then Some False
             else TGA_Save_same srcPixels (nextPixel + 1) (startPixel + 1) n))"

text \<open>
  The loops \<open>// Find RLE run\<close> and \<open>// Find raw run\<close> with its inner look-ahead. The
  running indices stay below \<open>totalPixels\<close> and are kept as unbounded numbers.
\<close>

function TGA_Save_rleCount ::
  "byte list \<Rightarrow> nat \<Rightarrow> nat \<Rightarrow> nat \<Rightarrow> nat \<Rightarrow> nat \<Rightarrow> nat \<Rightarrow> nat \<Rightarrow> nat option" where
  "TGA_Save_rleCount srcPixels width height srcStride dstBpp totalPixels runStart rleCount =
     (if rleCount < 128 \<and> runStart + rleCount < totalPixels
      then (case TGA_Save_same srcPixels
                   (TGA_Save_pixel width height srcStride (runStart + rleCount))
                   (TGA_Save_pixel width height srcStride runStart) dstBpp of
              None \<Rightarrow> None
            | Some same \<Rightarrow>
                if \<not> same then Some rleCount
                else TGA_Save_rleCount srcPixels width height srcStride dstBpp totalPixels runStart
                       (rleCount + 1))
      else Some rleCount)"
  by pat_completeness auto
termination
  by (relation "measure (\<lambda>(srcPixels, width, height, srcStride, dstBpp, totalPixels, runStart, rleCount).
                           128 - rleCount)") auto

function TGA_Save_sameCount ::
  "byte list \<Rightarrow> nat \<Rightarrow> nat \<Rightarrow> nat \<Rightarrow> nat \<Rightarrow> nat \<Rightarrow> nat \<Rightarrow> nat \<Rightarrow> nat option" where
  "TGA_Save_sameCount srcPixels width height srcStride dstBpp totalPixels cs sameCount =
     (if sameCount < 3 \<and> cs + sameCount < totalPixels
      then (case TGA_Save_same srcPixels
                   (TGA_Save_pixel width height srcStride (cs + sameCount))
                   (TGA_Save_pixel width height srcStride cs) dstBpp of
              None \<Rightarrow> None
            | Some same \<Rightarrow>
                if \<not> same then Some sameCount
                else TGA_Save_sameCount srcPixels width height srcStride dstBpp totalPixels cs
                       (sameCount + 1))
      else Some sameCount)"
  by pat_completeness auto
termination
  by (relation "measure (\<lambda>(srcPixels, width, height, srcStride, dstBpp, totalPixels, cs, sameCount).
                           3 - sameCount)") auto

function TGA_Save_rawCount ::
  "byte list \<Rightarrow> nat \<Rightarrow> nat \<Rightarrow> nat \<Rightarrow> nat \<Rightarrow> nat \<Rightarrow> nat \<Rightarrow> nat \<Rightarrow> nat option" where
  "TGA_Save_rawCount srcPixels width height srcStride dstBpp totalPixels runStart rawCount =
     (if rawCount < 128 \<and> runStart + rawCount < totalPixels
      then (case TGA_Save_sameCount srcPixels width height srcStride dstBpp totalPixels
                   (runStart + rawCount) 1 of
              None \<Rightarrow> None
            | Some sameCount \<Rightarrow>
                if sameCount \<ge> 3 then Some rawCount
                else TGA_Save_rawCount srcPixels width height srcStride dstBpp totalPixels runStart
                       (rawCount + 1))
      else Some rawCount)"
  by pat_completeness auto
termination
  by (relation "measure (\<lambda>(srcPixels, width, height, srcStride, dstBpp, totalPixels, runStart, rawCount).
                           128 - rawCount)") auto

declare TGA_Save_rleCount.simps [simp del] TGA_Save_sameCount.simps [simp del]
  TGA_Save_rawCount.simps [simp del]

lemma TGA_Save_rleCount_ge:
  "TGA_Save_rleCount srcPixels width height srcStride dstBpp totalPixels runStart n = Some m \<Longrightarrow> n \<le> m"
proof (induction srcPixels width height srcStride dstBpp totalPixels runStart n
       rule: TGA_Save_rleCount.induct)
  case (1 srcPixels width height srcStride dstBpp totalPixels runStart rleCount)
  show ?case
  proof (cases "rleCount < 128 \<and> runStart + rleCount < totalPixels")
    case True
    with "1.prems" obtain same where
      s: "TGA_Save_same srcPixels (TGA_Save_pixel width height srcStride (runStart + rleCount))
            (TGA_Save_pixel width height srcStride runStart) dstBpp = Some same"
      by (subst (asm) TGA_Save_rleCount.simps) (auto split: option.splits)
    show ?thesis
    proof (cases same)
      case True
      with "1.prems" s \<open>rleCount < 128 \<and> runStart + rleCount < totalPixels\<close>
      have "TGA_Save_rleCount srcPixels width height srcStride dstBpp totalPixels runStart
              (rleCount + 1) = Some m"
        by (subst (asm) TGA_Save_rleCount.simps) simp
      from "1.IH"[OF \<open>rleCount < 128 \<and> runStart + rleCount < totalPixels\<close> s _ this] True
      show ?thesis by simp
    next
      case False
      with "1.prems" s \<open>rleCount < 128 \<and> runStart + rleCount < totalPixels\<close>
      show ?thesis by (subst (asm) TGA_Save_rleCount.simps) simp
    qed
  next
    case False
    with "1.prems" show ?thesis by (subst (asm) TGA_Save_rleCount.simps) auto
  qed
qed

lemma TGA_Save_rawCount_ge:
  "TGA_Save_rawCount srcPixels width height srcStride dstBpp totalPixels runStart n = Some m \<Longrightarrow> n \<le> m"
proof (induction srcPixels width height srcStride dstBpp totalPixels runStart n
       rule: TGA_Save_rawCount.induct)
  case (1 srcPixels width height srcStride dstBpp totalPixels runStart rawCount)
  show ?case
  proof (cases "rawCount < 128 \<and> runStart + rawCount < totalPixels")
    case True
    with "1.prems" obtain sameCount where
      s: "TGA_Save_sameCount srcPixels width height srcStride dstBpp totalPixels
            (runStart + rawCount) 1 = Some sameCount"
      by (subst (asm) TGA_Save_rawCount.simps) (auto split: option.splits)
    show ?thesis
    proof (cases "sameCount \<ge> 3")
      case False
      with "1.prems" s \<open>rawCount < 128 \<and> runStart + rawCount < totalPixels\<close>
      have "TGA_Save_rawCount srcPixels width height srcStride dstBpp totalPixels runStart
              (rawCount + 1) = Some m"
        by (subst (asm) TGA_Save_rawCount.simps) simp
      from "1.IH"[OF \<open>rawCount < 128 \<and> runStart + rawCount < totalPixels\<close> s False this]
      show ?thesis by simp
    next
      case True
      with "1.prems" s \<open>rawCount < 128 \<and> runStart + rawCount < totalPixels\<close>
      show ?thesis by (subst (asm) TGA_Save_rawCount.simps) simp
    qed
  next
    case False
    with "1.prems" show ?thesis by (subst (asm) TGA_Save_rawCount.simps) auto
  qed
qed

text \<open>The bytes \<open>buffer[writePos++] = p[j]\<close> of \<open>n\<close> pixels from running index \<open>k\<close> on.\<close>

definition TGA_Save_emit ::
  "byte list \<Rightarrow> nat \<Rightarrow> nat \<Rightarrow> nat \<Rightarrow> nat \<Rightarrow> nat \<Rightarrow> nat \<Rightarrow> nat \<times> byte list
   \<Rightarrow> (nat \<times> byte list) option" where
  "TGA_Save_emit srcPixels width height srcStride dstBpp k n st =
     forM 0 n (\<lambda>i (writePos, buffer). do {
       bytes \<leftarrow> rd_bytes srcPixels (TGA_Save_pixel width height srcStride (k + i)) dstBpp;
       buffer \<leftarrow> wr_bytes buffer writePos bytes;
       Some (writePos + dstBpp, buffer)
     }) st"

text \<open>The \<open>while (pixelIndex < totalPixels)\<close> loop of the RLE case of \<open>TGA_Save\<close>.\<close>

function TGA_Save_rle ::
  "byte list \<Rightarrow> nat \<Rightarrow> nat \<Rightarrow> nat \<Rightarrow> nat \<Rightarrow> nat \<Rightarrow> nat \<times> nat \<times> byte list
   \<Rightarrow> (nat \<times> byte list) option" where
  "TGA_Save_rle srcPixels width height srcStride dstBpp totalPixels (pixelIndex, writePos, buffer) =
     (if pixelIndex < totalPixels
      then (case TGA_Save_rleCount srcPixels width height srcStride dstBpp totalPixels pixelIndex 1 of
              None \<Rightarrow> None
            | Some rleCount \<Rightarrow>
              (case (if rleCount < 3
                     then TGA_Save_rawCount srcPixels width height srcStride dstBpp totalPixels
                            pixelIndex 1
                     else Some 1) of
                 None \<Rightarrow> None
               | Some rawCount \<Rightarrow>
                 if rleCount \<ge> 3
                 then (case wr buffer writePos (0x80 OR of_nat (rleCount - 1)) of
                         None \<Rightarrow> None
                       | Some buffer \<Rightarrow>
                         (case TGA_Save_emit srcPixels width height srcStride dstBpp pixelIndex 1
                                 (writePos + 1, buffer) of
                            None \<Rightarrow> None
                          | Some (writePos, buffer) \<Rightarrow>
                              TGA_Save_rle srcPixels width height srcStride dstBpp totalPixels
                                (pixelIndex + rleCount, writePos, buffer)))
                 else (case wr buffer writePos (of_nat (rawCount - 1)) of
                         None \<Rightarrow> None
                       | Some buffer \<Rightarrow>
                         (case TGA_Save_emit srcPixels width height srcStride dstBpp pixelIndex
                                 rawCount (writePos + 1, buffer) of
                            None \<Rightarrow> None
                          | Some (writePos, buffer) \<Rightarrow>
                              TGA_Save_rle srcPixels width height srcStride dstBpp totalPixels
                                (pixelIndex + rawCount, writePos, buffer)))))
      else Some (writePos, buffer))"
  by pat_completeness auto
termination
proof (relation "measure (\<lambda>(srcPixels, width, height, srcStride, dstBpp, totalPixels, pixelIndex, writePos, buffer).
                            totalPixels - pixelIndex)", goal_cases)
  case 1
  show ?case by simp
next
  case (2 srcPixels width height srcStride dstBpp totalPixels pixelIndex writePos buffer rleCount)
  then show ?case by auto
next
  case (3 srcPixels width height srcStride dstBpp totalPixels pixelIndex writePos buffer rleCount
          rawCount)
  from 3 have "1 \<le> rawCount"
    using TGA_Save_rawCount_ge[of srcPixels width height srcStride dstBpp totalPixels pixelIndex 1 rawCount]
    by (auto split: if_splits)
  with 3(1) show ?case by auto
qed

declare TGA_Save_rle.simps [simp del]

text \<open>The loops of the case without RLE.\<close>

definition TGA_Save_raw ::
  "byte list \<Rightarrow> nat \<Rightarrow> nat \<Rightarrow> nat \<Rightarrow> nat \<Rightarrow> nat \<times> byte list \<Rightarrow> (nat \<times> byte list) option" where
  "TGA_Save_raw srcPixels width height srcStride dstBpp st =
     forM 0 height (\<lambda>y st.
       forM 0 width (\<lambda>x st.
         forM 0 dstBpp (\<lambda>i (writePos, buffer). do {
           v \<leftarrow> rd srcPixels ((((height - 1 - y) * srcStride) mod 2 ^ 32) + (x * 4 + i) mod 2 ^ 32);
           buffer \<leftarrow> wr buffer writePos v;
           Some (writePos + 1, buffer)
         }) st) st) st"

definition TGA_Save ::
  "env \<Rightarrow> byte list option \<Rightarrow> CKBitmapProperties option \<Rightarrow> int \<Rightarrow> int \<Rightarrow> save_result option" where
  "TGA_Save e outBuffer props bitDepth0 useRLE =
     (case props of
        None \<Rightarrow> Some SaveFailed
      | Some props \<Rightarrow>
        (case Image (m_Format props) of
           None \<Rightarrow> Some SaveFailed
         | Some srcPixels \<Rightarrow>
           let width = Width (m_Format props);
               height = Height (m_Format props);
               srcStride = BytesPerLine (m_Format props)
           in
           if width = 0 \<or> height = 0 then Some SaveFailed
           else
             let bitDepth = (if bitDepth0 \<noteq> 24 \<and> bitDepth0 \<noteq> 32 then 24 else bitDepth0);
                 dstBpp = nat bitDepth div 8;
                 header = [0, 0] @
                          le_bytes 1 (if useRLE \<noteq> 0 then TGA_TYPE_RLE_TRUECOLOR else TGA_TYPE_TRUECOLOR) @
                          [0, 0, 0, 0, 0, 0, 0, 0, 0] @
                          le_bytes 2 width @ le_bytes 2 height @ le_bytes 1 (nat bitDepth) @
                          le_bytes 1 (if bitDepth = 32 then 8 else 0);
                 totalPixels = (width * height) mod 2 ^ 32;
                 maxPixelDataSize = (totalPixels * dstBpp) mod 2 ^ 32;
                 maxPixelDataSize = (if useRLE \<noteq> 0
                                     then (maxPixelDataSize + totalPixels div 128 + 1) mod 2 ^ 32
                                     else maxPixelDataSize);
                 maxFileSize = (18 + maxPixelDataSize) mod 2 ^ 32
             in do {
               buffer \<leftarrow> wr_bytes (filled e maxFileSize []) 0 header;
               (writePos, buffer) \<leftarrow>
                  (if useRLE \<noteq> 0
                   then TGA_Save_rle srcPixels width height srcStride dstBpp totalPixels (0, 18, buffer)
                   else TGA_Save_raw srcPixels width height srcStride dstBpp (18, buffer));
               let fileSize = writePos in
               Some (save_output e outBuffer
                       (if fileSize < maxFileSize then take fileSize buffer else buffer) fileSize)
             }))"


section \<open>PCX: data source, header and scan lines\<close>

datatype PcxDataSource =
    PcxFileSource "byte list" nat
  | PcxMemorySource "byte list" int nat

text \<open>\<open>ReadHeader\<close>: the flag, the 128 bytes of the header and the source afterwards.\<close>

fun Pcx_ReadHeader :: "PcxDataSource \<Rightarrow> (bool \<times> byte list \<times> PcxDataSource) option" where
  "Pcx_ReadHeader (PcxFileSource content pos) =
     (let got = take 128 (drop pos content)
      in Some (length got = 128, got, PcxFileSource content (pos + length got)))"
| "Pcx_ReadHeader (PcxMemorySource m_data m_size m_offset) =
     (if m_size < 128 then Some (False, [], PcxMemorySource m_data m_size m_offset)
      else if length m_data < 128 then None
      else Some (True, take 128 m_data, PcxMemorySource m_data m_size 128))"

text \<open>\<open>ReadRemaining\<close>: the flag and the array \<open>out\<close> afterwards.\<close>

fun Pcx_ReadRemaining :: "env \<Rightarrow> PcxDataSource \<Rightarrow> (bool \<times> byte list) option" where
  "Pcx_ReadRemaining e (PcxFileSource content pos) =
     (if length content \<ge> 2 ^ 31 \<or> length content < pos then Some (False, [])
      else (let remaining = length content - pos
            in if remaining = 0 then Some (True, [])
               else Some (True, take remaining (drop pos content))))"
| "Pcx_ReadRemaining e (PcxMemorySource m_data m_size m_offset) =
     (if m_offset \<ge> nat m_size then Some (True, [])
      else (let remaining = nat m_size - m_offset
            in map_option (\<lambda>got. (True, got)) (rd_bytes m_data m_offset remaining)))"

definition MinDword :: "nat \<Rightarrow> nat \<Rightarrow> nat" where
  "MinDword a b = (if a < b then a else b)"

definition IsAllZero :: "byte list \<Rightarrow> bool" where
  "IsAllZero bytes = list_all (\<lambda>b. b = 0) bytes"

definition EgaPalette :: "byte list" where
  "EgaPalette =
     [0x00, 0x00, 0x00,  0x00, 0x00, 0xAA,  0x00, 0xAA, 0x00,  0x00, 0xAA, 0xAA,
      0xAA, 0x00, 0x00,  0xAA, 0x00, 0xAA,  0xAA, 0x55, 0x00,  0xAA, 0xAA, 0xAA,
      0x55, 0x55, 0x55,  0x55, 0x55, 0xFF,  0x55, 0xFF, 0x55,  0x55, 0xFF, 0xFF,
      0xFF, 0x55, 0x55,  0xFF, 0x55, 0xFF,  0xFF, 0xFF, 0x55,  0xFF, 0xFF, 0xFF]"

text \<open>The fields of \<open>PCXHEADER\<close> the reader looks at; \<open>pcx_colorMap\<close> holds 48 bytes.\<close>

record PCXHEADER =
  pcx_manufacturer :: nat
  pcx_version :: nat
  pcx_encoding :: nat
  pcx_bitsPerPixel :: nat
  pcx_xMin :: nat
  pcx_yMin :: nat
  pcx_xMax :: nat
  pcx_yMax :: nat
  pcx_colorMap :: "byte list"
  pcx_nPlanes :: nat
  pcx_bytesPerLine :: nat
  pcx_paletteInfo :: nat

definition read_PCXHEADER :: "byte list \<Rightarrow> PCXHEADER" where
  "read_PCXHEADER h =
     \<lparr> pcx_manufacturer = field h 0 1, pcx_version = field h 1 1, pcx_encoding = field h 2 1,
       pcx_bitsPerPixel = field h 3 1, pcx_xMin = field h 4 2, pcx_yMin = field h 6 2,
       pcx_xMax = field h 8 2, pcx_yMax = field h 10 2,
       pcx_colorMap = take 48 (drop 16 h @ replicate 48 0),
       pcx_nPlanes = field h 65 1, pcx_bytesPerLine = field h 66 2,
       pcx_paletteInfo = field h 68 2 \<rparr>"

text \<open>\<open>GetPal16\<close>: the colour \<open>(r, g, b)\<close>; both tables hold 48 bytes and \<open>idx\<close> is at most 15.\<close>

definition GetPal16 :: "PCXHEADER \<Rightarrow> bool \<Rightarrow> nat \<Rightarrow> byte \<times> byte \<times> byte" where
  "GetPal16 hdr useDefault idx0 =
     (let idx = idx0 AND 15;
          table = (if useDefault then EgaPalette else pcx_colorMap hdr)
      in (table ! (idx * 3 + 0), table ! (idx * 3 + 1), table ! (idx * 3 + 2)))"

record PcxContext =
  pc_header :: PCXHEADER
  pc_width :: nat
  pc_height :: nat
  pc_bytesPerScanLine :: nat
  pc_isPlanar1bpp :: bool
  pc_isPacked2bpp :: bool
  pc_isPacked4bpp :: bool
  pc_isIndexed8bpp :: bool
  pc_isTrueColor24 :: bool
  pc_isTrueColor32 :: bool
  pc_forceDefaultEga :: bool
  pc_fileData :: "byte list"
  pc_srcPos :: nat

definition new_PcxContext :: PcxContext where
  "new_PcxContext =
     \<lparr> pc_header = read_PCXHEADER [], pc_width = 0, pc_height = 0, pc_bytesPerScanLine = 0,
       pc_isPlanar1bpp = False, pc_isPacked2bpp = False, pc_isPacked4bpp = False,
       pc_isIndexed8bpp = False, pc_isTrueColor24 = False, pc_isTrueColor32 = False,
       pc_forceDefaultEga = False, pc_fileData = [], pc_srcPos = 0 \<rparr>"

text \<open>The RLE loop of \<open>DecodeScanLine\<close> on \<open>(linePos, srcPos, out)\<close>. The loop conditions
  keep every index inside \<open>fileData\<close> and inside the scan line.\<close>

function DecodeScanLine_rle :: "byte list \<Rightarrow> nat \<Rightarrow> nat \<times> nat \<times> byte list \<Rightarrow> nat \<times> byte list" where
  "DecodeScanLine_rle fileData bytesPerScanLine (linePos, srcPos, out) =
     (if linePos < bytesPerScanLine \<and> srcPos < length fileData
      then (let byte = fileData ! srcPos; srcPos = srcPos + 1
            in if byte AND 0xC0 = 0xC0
               then (let count = unat (byte AND 0x3F);
                         count = (if count = 0 then 1 else count)
                     in if srcPos \<ge> length fileData then (srcPos, out)
                        else (let v = fileData ! srcPos; srcPos = srcPos + 1;
                                  toWrite = MinDword count (bytesPerScanLine - linePos)
                              in DecodeScanLine_rle fileData bytesPerScanLine
                                   (linePos + toWrite, srcPos,
                                    take linePos out @ replicate toWrite v @
                                    drop (linePos + toWrite) out)))
               else DecodeScanLine_rle fileData bytesPerScanLine
                      (linePos + 1, srcPos, out[linePos := byte]))
      else (srcPos, out))"
  by pat_completeness auto
termination
  by (relation "measure (\<lambda>(fileData, bytesPerScanLine, linePos, srcPos, out). length fileData - srcPos)")
     auto

declare DecodeScanLine_rle.simps [simp del]

text \<open>\<open>DecodeScanLine\<close>: the new \<open>srcPos\<close> and the scan line of \<open>bytesPerScanLine\<close> bytes.\<close>

definition DecodeScanLine :: "PcxContext \<Rightarrow> nat \<times> byte list" where
  "DecodeScanLine ctx =
     (let out = replicate (pc_bytesPerScanLine ctx) 0;
          fileData = pc_fileData ctx;
          srcPos = pc_srcPos ctx
      in if fileData = [] then (srcPos, out)
         else if pcx_encoding (pc_header ctx) = 0
         then (let remaining = (if srcPos < length fileData then length fileData - srcPos else 0);
                   toCopy = MinDword remaining (pc_bytesPerScanLine ctx)
               in (srcPos + toCopy,
                   take toCopy (drop srcPos fileData) @ drop toCopy out))
         else DecodeScanLine_rle fileData (pc_bytesPerScanLine ctx) (0, srcPos, out))"

text \<open>\<open>ParsePcxHeader\<close>. \<open>xMax - xMin + 1\<close> is computed in \<open>int\<close> and stored in a
  \<open>CKDWORD\<close>.\<close>

definition ParsePcxHeader :: "PcxDataSource \<Rightarrow> failure + (PcxContext \<times> PcxDataSource)" where
  "ParsePcxHeader src0 =
     (case Pcx_ReadHeader src0 of
        None \<Rightarrow> Inl Undefined
      | Some (ok, h, src) \<Rightarrow>
        if \<not> ok then Inl ReadError
        else
          let hdr = read_PCXHEADER h in
          if pcx_manufacturer hdr \<noteq> 0x0A then Inl UnsupportedFile
          else if pcx_encoding hdr \<noteq> 0 \<and> pcx_encoding hdr \<noteq> 1 then Inl UnsupportedFile
          else
            let width = (pcx_xMax hdr + 2 ^ 32 - pcx_xMin hdr + 1) mod 2 ^ 32;
                height = (pcx_yMax hdr + 2 ^ 32 - pcx_yMin hdr + 1) mod 2 ^ 32
            in
            if width = 0 \<or> height = 0 then Inl FileCorrupted
            else if width > 32768 \<or> height > 32768 then Inl FileCorrupted
            else if pcx_bitsPerPixel hdr = 0 \<or> pcx_nPlanes hdr = 0 \<or> pcx_bytesPerLine hdr = 0
            then Inl FileCorrupted
            else
              let bpp = pcx_bitsPerPixel hdr;
                  planes = pcx_nPlanes hdr;
                  bps64 = pcx_bytesPerLine hdr * planes
              in
              if bps64 > 0x7FFFFFFF then Inl FileCorrupted
              else
                let ctx = new_PcxContext
                      \<lparr> pc_header := hdr, pc_width := width, pc_height := height,
                        pc_bytesPerScanLine := bps64,
                        pc_isPlanar1bpp := (bpp = 1 \<and> planes \<ge> 1 \<and> planes \<le> 4),
                        pc_isPacked2bpp := (bpp = 2 \<and> planes = 1),
                        pc_isPacked4bpp := (bpp = 4 \<and> planes = 1),
                        pc_isIndexed8bpp := (bpp = 8 \<and> planes = 1),
                        pc_isTrueColor24 := (bpp = 8 \<and> planes = 3),
                        pc_isTrueColor32 := (bpp = 8 \<and> planes = 4) \<rparr>
                in
                if \<not> (pc_isPlanar1bpp ctx \<or> pc_isPacked2bpp ctx \<or> pc_isPacked4bpp ctx \<or>
                        pc_isIndexed8bpp ctx \<or> pc_isTrueColor24 ctx \<or> pc_isTrueColor32 ctx)
                then Inl UnsupportedFile
                else Inr (ctx\<lparr> pc_forceDefaultEga :=
                                  (pcx_version hdr = 0 \<or> pcx_version hdr = 3 \<or>
                                   IsAllZero (pcx_colorMap hdr)) \<rparr>, src))"

section \<open>PCX: rows and palette\<close>

definition DecodeRowPlanar1bpp :: "PcxContext \<Rightarrow> nat \<Rightarrow> byte list \<Rightarrow> byte list \<Rightarrow> nat \<Rightarrow> byte list option" where
  "DecodeRowPlanar1bpp ctx width scanLine buf dstRow =
     (let nPlanes = pcx_nPlanes (pc_header ctx);
          bpl = pcx_bytesPerLine (pc_header ctx);
          maxX = MinDword width ((bpl * 8) mod 2 ^ 32)
      in forM 0 maxX (\<lambda>x buf. do {
           idx \<leftarrow> forM 0 nPlanes (\<lambda>p idx. do {
                    b \<leftarrow> rd scanLine ((p * bpl) mod 2 ^ 32 + x div 8);
                    Some (idx OR push_bit p (unat (drop_bit (7 - x mod 8) b AND 1)))
                  }) 0;
           (r, g, b) \<leftarrow> Some (if pcx_paletteInfo (pc_header ctx) = 2 \<and> nPlanes = 1
                               then (let v = (if idx AND 1 \<noteq> 0 then 255 else 0) in (v, v, v))
                               else GetPal16 (pc_header ctx) (pc_forceDefaultEga ctx) idx);
           put4 buf dstRow x b g r 255
         }) buf)"

definition DecodeRowPacked2bpp :: "PcxContext \<Rightarrow> nat \<Rightarrow> byte list \<Rightarrow> byte list \<Rightarrow> nat \<Rightarrow> byte list option" where
  "DecodeRowPacked2bpp ctx width scanLine buf dstRow =
     (let maxX = MinDword width ((pcx_bytesPerLine (pc_header ctx) * 4) mod 2 ^ 32)
      in forM 0 maxX (\<lambda>x buf. do {
           byteVal \<leftarrow> rd scanLine (x div 4);
           (r, g, b) \<leftarrow> Some (GetPal16 (pc_header ctx) (pc_forceDefaultEga ctx)
                                (unat (drop_bit (6 - 2 * (x mod 4)) byteVal AND 3)));
           put4 buf dstRow x b g r 255
         }) buf)"

definition DecodeRowPacked4bpp :: "PcxContext \<Rightarrow> nat \<Rightarrow> byte list \<Rightarrow> byte list \<Rightarrow> nat \<Rightarrow> byte list option" where
  "DecodeRowPacked4bpp ctx width scanLine buf dstRow =
     (let maxX = MinDword width ((pcx_bytesPerLine (pc_header ctx) * 2) mod 2 ^ 32)
      in forM 0 maxX (\<lambda>x buf. do {
           byteVal \<leftarrow> rd scanLine (x div 2);
           (r, g, b) \<leftarrow> Some (GetPal16 (pc_header ctx) (pc_forceDefaultEga ctx)
                                (unat (if x mod 2 \<noteq> 0 then byteVal AND 0x0F else drop_bit 4 byteVal)));
           put4 buf dstRow x b g r 255
         }) buf)"

definition DecodeRowTrueColor24 :: "PcxContext \<Rightarrow> nat \<Rightarrow> byte list \<Rightarrow> byte list \<Rightarrow> nat \<Rightarrow> byte list option" where
  "DecodeRowTrueColor24 ctx width scanLine buf dstRow =
     (let bpl = pcx_bytesPerLine (pc_header ctx);
          maxX = MinDword width bpl
      in forM 0 maxX (\<lambda>x buf. do {
           r \<leftarrow> rd scanLine x;
           g \<leftarrow> rd scanLine (bpl + x);
           b \<leftarrow> rd scanLine (bpl * 2 + x);
           put4 buf dstRow x b g r 255
         }) buf)"

definition DecodeRowTrueColor32 :: "PcxContext \<Rightarrow> nat \<Rightarrow> byte list \<Rightarrow> byte list \<Rightarrow> nat \<Rightarrow> byte list option" where
  "DecodeRowTrueColor32 ctx width scanLine buf dstRow =
     (let bpl = pcx_bytesPerLine (pc_header ctx);
          maxX = MinDword width bpl
      in forM 0 maxX (\<lambda>x buf. do {
           r \<leftarrow> rd scanLine x;
           g \<leftarrow> rd scanLine (bpl + x);
           b \<leftarrow> rd scanLine (bpl * 2 + x);
           a \<leftarrow> rd scanLine (bpl * 3 + x);
           put4 buf dstRow x b g r a
         }) buf)"

text \<open>\<open>FindVgaPalette\<close>: the offset in \<open>data\<close> of the 768 palette bytes, or the null pointer.\<close>

definition FindVgaPalette :: "byte list \<Rightarrow> nat \<Rightarrow> nat option" where
  "FindVgaPalette data imageEndPos =
     (if data = [] \<or> length data < 769 then None
      else if imageEndPos + 769 \<le> length data \<and> data ! imageEndPos = 0x0C
      then Some (imageEndPos + 1)
      else if data ! (length data - 769) = 0x0C then Some (length data - 768)
      else None)"

definition ApplyIndexedPalette ::
  "nat \<Rightarrow> nat \<Rightarrow> nat \<Rightarrow> byte list \<Rightarrow> byte list \<Rightarrow> byte list \<Rightarrow> nat option \<Rightarrow> bool \<Rightarrow> byte list option" where
  "ApplyIndexedPalette width height stride indexPixels dstPixels data vgaPal grayscale =
     forM 0 height (\<lambda>y buf.
       forM 0 width (\<lambda>x buf. do {
         idx \<leftarrow> rd indexPixels ((y * width) mod 2 ^ 32 + x);
         (case vgaPal of
            Some pal \<Rightarrow>
              if \<not> grayscale
              then do {
                b \<leftarrow> rd data (pal + unat idx * 3 + 2);
                g \<leftarrow> rd data (pal + unat idx * 3 + 1);
                r \<leftarrow> rd data (pal + unat idx * 3 + 0);
                put4 buf ((y * stride) mod 2 ^ 32) x b g r 255
              }
              else put4 buf ((y * stride) mod 2 ^ 32) x idx idx idx 255
          | None \<Rightarrow> put4 buf ((y * stride) mod 2 ^ 32) x idx idx idx 255)
       }) buf) dstPixels"


section \<open>PCX: reading\<close>

definition PCX_open :: "env \<Rightarrow> byte list option \<Rightarrow> int \<Rightarrow> failure + PcxDataSource" where
  "PCX_open e data sz =
     (case data of
        None \<Rightarrow> Inl Generic
      | Some bytes \<Rightarrow>
          if sz < 0 then Inl FileCorrupted
          else if sz = 0
          then (case fs e (c_string bytes) of
                  None \<Rightarrow> Inl ReadError
                | Some content \<Rightarrow> Inr (PcxFileSource content 0))
          else Inr (PcxMemorySource bytes sz 0))"

text \<open>One turn of the loop \<open>// Decode scanlines\<close> on \<open>(srcPos, dstPixels, indexPixels)\<close>.\<close>

definition PCX_scanLine ::
  "PcxContext \<Rightarrow> nat \<Rightarrow> nat \<Rightarrow> nat \<times> byte list \<times> byte list \<Rightarrow> (nat \<times> byte list \<times> byte list) option" where
  "PCX_scanLine ctx dstStride y st =
     (case st of (srcPos, dstPixels, indexPixels) \<Rightarrow>
      (case DecodeScanLine (ctx\<lparr>pc_srcPos := srcPos\<rparr>) of (srcPos, scanLine) \<Rightarrow>
       let dstRow = (y * dstStride) mod 2 ^ 32 in
       if pc_isIndexed8bpp ctx
       then map_option (\<lambda>indexPixels. (srcPos, dstPixels, indexPixels))
              (forM 0 (MinDword (pc_width ctx) (pcx_bytesPerLine (pc_header ctx)))
                 (\<lambda>x indexPixels. do {
                    v \<leftarrow> rd scanLine x;
                    wr indexPixels ((y * pc_width ctx) mod 2 ^ 32 + x) v
                  }) indexPixels)
       else map_option (\<lambda>dstPixels. (srcPos, dstPixels, indexPixels))
              (if pc_isTrueColor24 ctx
               then DecodeRowTrueColor24 ctx (pc_width ctx) scanLine dstPixels dstRow
               else if pc_isTrueColor32 ctx
               then DecodeRowTrueColor32 ctx (pc_width ctx) scanLine dstPixels dstRow
               else if pc_isPlanar1bpp ctx
               then DecodeRowPlanar1bpp ctx (pc_width ctx) scanLine dstPixels dstRow
               else if pc_isPacked2bpp ctx
               then DecodeRowPacked2bpp ctx (pc_width ctx) scanLine dstPixels dstRow
               else if pc_isPacked4bpp ctx
               then DecodeRowPacked4bpp ctx (pc_width ctx) scanLine dstPixels dstRow
               else Some dstPixels)))"

text \<open>
  \<open>PCX_Read\<close> from \<open>// Allocate destination\<close> on, for the context that
  \<open>ParsePcxHeader\<close> and \<open>ReadRemaining\<close> left: the decoded destination.
\<close>

definition PCX_decode :: "PcxContext \<Rightarrow> failure + (nat \<times> byte list)" where
  "PCX_decode ctx =
     (let dstStride = (pc_width ctx * 4) mod 2 ^ 32;
          dstSize64 = dstStride * pc_height ctx
      in if dstSize64 > 0x7FFFFFFF then Inl FileCorrupted
         else
           let dstPixels = concat (replicate (dstSize64 div 4) [0, 0, 0, 255]);
               idxSize = pc_width ctx * pc_height ctx
           in
           if pc_isIndexed8bpp ctx \<and> idxSize > 0x7FFFFFFF then Inl FileCorrupted
           else
             let indexPixels = (if pc_isIndexed8bpp ctx then replicate idxSize 0 else []) in
             (case forM 0 (pc_height ctx) (PCX_scanLine ctx dstStride) (0, dstPixels, indexPixels) of
                None \<Rightarrow> Inl Undefined
              | Some (srcPos, dstPixels, indexPixels) \<Rightarrow>
                if pc_isIndexed8bpp ctx
                then (case ApplyIndexedPalette (pc_width ctx) (pc_height ctx) dstStride indexPixels
                             dstPixels (pc_fileData ctx)
                             (FindVgaPalette (pc_fileData ctx) srcPos)
                             (pcx_paletteInfo (pc_header ctx) = 2) of
                        None \<Rightarrow> Inl Undefined
                      | Some dstPixels \<Rightarrow> Inr (dstStride, dstPixels))
                else Inr (dstStride, dstPixels)))"

definition PCX_Read ::
  "env \<Rightarrow> byte list option \<Rightarrow> int \<Rightarrow> CKBitmapProperties \<Rightarrow> failure + CKBitmapProperties" where
  "PCX_Read e data sz props =
     (case PCX_open e data sz of
        Inl err \<Rightarrow> Inl err
      | Inr src \<Rightarrow>
        (case ParsePcxHeader src of
           Inl err \<Rightarrow> Inl err
         | Inr (ctx, src) \<Rightarrow>
           (case Pcx_ReadRemaining e src of
              None \<Rightarrow> Inl Undefined
            | Some (ok, fileData) \<Rightarrow>
              if \<not> ok then Inl ReadError
              else
                (case PCX_decode (ctx\<lparr>pc_fileData := fileData\<rparr>) of
                   Inl err \<Rightarrow> Inl err
                 | Inr (dstStride, dstPixels) \<Rightarrow>
                     Inr (props\<lparr> m_Format := FillFormatBGRA32 (pc_width ctx) (pc_height ctx)
                                                dstStride dstPixels,
                                m_Data := Some dstPixels \<rparr>)))))"


section \<open>Concrete inputs\<close>

text \<open>An environment without files, whose fresh storage holds zeros and whose compiler
  evaluates arguments from left to right; properties as a reader object initialises them;
  and an image of two pixels.\<close>

definition env0 :: env where
  "env0 = \<lparr> fs = (\<lambda>name. None), writable = (\<lambda>name. False), uninit = (\<lambda>i. 0),
            args_right_to_left = False \<rparr>"

text \<open>The same environment for a compiler that evaluates arguments from right to left.\<close>

definition env0_right_to_left :: env where
  "env0_right_to_left = env0\<lparr> args_right_to_left := True \<rparr>"

definition props0 :: CKBitmapProperties where
  "props0 = \<lparr> m_Size = 80, m_Format = FillFormatBGRA32 0 0 0 [], m_Data = None,
              m_BitDepth = 24, m_UseRLE = 0 \<rparr>"

definition image_2x1 :: CKBitmapProperties where
  "image_2x1 = props0\<lparr> m_Format := FillFormatBGRA32 2 1 8 [1, 2, 3, 255, 4, 5, 6, 255] \<rparr>"

text \<open>A PCX header of 128 bytes with \<open>xMin = 1\<close> and \<open>xMax = 0\<close>, 8 bits per pixel
  and one plane, for a given encoding byte.\<close>

definition pcx_header_zero_width :: "nat \<Rightarrow> byte list" where
  "pcx_header_zero_width enc =
     [0x0A, 5, of_nat enc, 8, 1, 0, 0, 0, 0, 0, 0, 0, 0, 0, 0, 0] @ replicate 48 0 @
     [0, 1, 2, 0, 1, 0, 0, 0, 0, 0] @ replicate 54 0"

text \<open>The RLE context \<open>BMP_Read\<close> builds for an image of 2 by 2 pixels with a palette of
  one entry, for a given orientation and stream.\<close>

definition rle_ctx_2x2 :: "bool \<Rightarrow> byte list \<Rightarrow> RLEContext" where
  "rle_ctx_2x2 td stream =
     new_RLEContext stream (length stream) (replicate 16 0xFF) 8 2 2 td [10, 20, 30, 0] False 1"

section \<open>Notions of the specification\<close>

text \<open>The extent \<open>max - min + 1\<close> of a PCX image along one axis, as the number the
  specification means.\<close>

definition pcx_extent :: "nat \<Rightarrow> nat \<Rightarrow> int" where
  "pcx_extent lo hi = int hi - int lo + 1"

text \<open>What \<open>ParseTgaHeader\<close> guarantees of the context it returns.\<close>

definition tga_ctx_ok :: "TgaContext \<Rightarrow> bool" where
  "tga_ctx_ok ctx \<longleftrightarrow>
     0 < tc_width ctx \<and> tc_width ctx < 65536 \<and> 0 < tc_height ctx \<and> tc_height ctx < 65536 \<and>
     tc_interleaveMode ctx \<le> 2 \<and>
     tc_srcBytesPerPixel ctx = (tc_pixelDepth ctx + 7) div 8 \<and>
     (if tc_hasColorMap ctx
      then (tc_pixelDepth ctx = 8 \<or> tc_pixelDepth ctx = 16) \<and>
           (tga_colorMapDepth (tc_header ctx) = 15 \<or> tga_colorMapDepth (tc_header ctx) = 16 \<or>
            tga_colorMapDepth (tc_header ctx) = 24 \<or> tga_colorMapDepth (tc_header ctx) = 32) \<and>
           tc_colorMapBytesPerEntry ctx = (tga_colorMapDepth (tc_header ctx) + 7) div 8 \<and>
           length (tc_colorMap ctx) = tc_colorMapEntries ctx * tc_colorMapBytesPerEntry ctx \<and>
           length (tc_colorMap ctx) < 2 ^ 32
      else if tc_isGrayscale ctx then tc_pixelDepth ctx = 8 \<or> tc_pixelDepth ctx = 16
      else tc_pixelDepth ctx = 15 \<or> tc_pixelDepth ctx = 16 \<or> tc_pixelDepth ctx = 24 \<or>
           tc_pixelDepth ctx = 32)"

text \<open>
  The number of pixels the packets of a TGA RLE stream account for, for pixels of
  \<open>bpp\<close> bytes: a packet byte with the high bit set repeats the one pixel that follows
  \<open>(low 7 bits) + 1\<close> times, any other packet byte is followed by that many literal
  pixels. A run packet whose pixel is cut off by the end of the stream ends the count; a
  raw packet counts the literal pixels that are there.
\<close>

function tga_rle_pixels :: "nat \<Rightarrow> byte list \<Rightarrow> nat" where
  "tga_rle_pixels bpp [] = 0"
| "tga_rle_pixels bpp (p # rest) =
     (let count = unat (p AND 0x7F) + 1
      in if p AND 0x80 \<noteq> 0
         then (if length rest < bpp then 0 else count + tga_rle_pixels bpp (drop bpp rest))
         else (let n = min count (length rest div bpp)
               in n + tga_rle_pixels bpp (drop (n * bpp) rest)))"
  by pat_completeness auto
termination
  by (relation "measure (\<lambda>(bpp, bs). length bs)") auto


text \<open>Two TGA files of type 10 (RLE true colour, 24 bits): an image of 1 by 1 pixel whose
  one run packet repeats its pixel twice, and an image of 2 by 1 pixels whose one run packet
  holds a single pixel.\<close>

definition tga_rle_1x1_run2 :: "byte list" where
  "tga_rle_1x1_run2 = [0, 0, 10, 0, 0, 0, 0, 0, 0, 0, 0, 0, 1, 0, 1, 0, 24, 0, 0x81, 1, 2, 3]"

definition tga_rle_2x1_run1 :: "byte list" where
  "tga_rle_2x1_run1 = [0, 0, 10, 0, 0, 0, 0, 0, 0, 0, 0, 0, 2, 0, 1, 0, 24, 0, 0x80, 1, 2, 3]"

text \<open>The context \<open>ParseTgaHeader\<close> builds from the header of the second.\<close>

definition tga_rle_2x1_ctx :: TgaContext where
  "tga_rle_2x1_ctx =
     \<lparr> tc_header = read_TGAHEADER (take 18 tga_rle_2x1_run1), tc_width = 2, tc_height = 1,
       tc_pixelDepth = 24, tc_srcBytesPerPixel = 3, tc_alphaBits = 0, tc_interleaveMode = 0,
       tc_isRLE = True, tc_hasColorMap = False, tc_isGrayscale = False,
       tc_isRightToLeft = False, tc_isTopDown = False, tc_colorMap = [],
       tc_colorMapEntries = 0, tc_colorMapBytesPerEntry = 0 \<rparr>"


text \<open>The four bytes of the pixel stored at an offset of a buffer, in the order they are
  stored.\<close>

definition bgra_at :: "byte list \<Rightarrow> nat \<Rightarrow> pixel" where
  "bgra_at buf off = (buf ! off, buf ! (off + 1), buf ! (off + 2), buf ! (off + 3))"


text \<open>A PCX header of 128 bytes for an RLE image of 2 by 1 pixels, 8 bits per pixel and
  one plane, with a given \<open>paletteInfo\<close>; the context \<open>ParsePcxHeader\<close> builds from it;
  and a VGA palette trailer all of whose entries are \<open>(0x55, 0x55, 0x55)\<close>.\<close>

definition pcx_header_2x1 :: "nat \<Rightarrow> byte list" where
  "pcx_header_2x1 paletteInfo =
     [0x0A, 5, 1, 8, 0, 0, 0, 0, 1, 0, 0, 0, 0, 0, 0, 0] @ replicate 48 0 @
     [0, 1, 2, 0, of_nat paletteInfo, 0, 0, 0, 0, 0] @ replicate 54 0"

definition pcx_ctx_2x1 :: "nat \<Rightarrow> PcxContext" where
  "pcx_ctx_2x1 paletteInfo =
     new_PcxContext\<lparr> pc_header := read_PCXHEADER (pcx_header_2x1 paletteInfo),
                      pc_width := 2, pc_height := 1, pc_bytesPerScanLine := 2,
                      pc_isIndexed8bpp := True, pc_forceDefaultEga := True \<rparr>"

definition pcx_trailer_55 :: "byte list" where
  "pcx_trailer_55 = 0x0C # replicate 768 0x55"


section \<open>Auxiliary facts\<close>

lemma le_nat_bound: "le_nat bs < 256 ^ length bs"
proof (induction bs)
  case Nil
  show ?case by simp
next
  case (Cons b bs)
  have "unat b < 256" using unsigned_less[of b, where ?'a = nat] by simp
  with Cons show ?case by simp
qed

lemma field_bound: "field h off n < 256 ^ n"
proof -
  have "le_nat (take n (drop off h)) < 256 ^ length (take n (drop off h))"
    by (rule le_nat_bound)
  also have "\<dots> \<le> 256 ^ n" by (intro power_increasing) auto
  finally show ?thesis by (simp add: field_def)
qed


lemma mod32_less: "n < 4294967296 \<Longrightarrow> n mod 4294967296 = (n :: nat)"
  by simp

lemma div4_sum: "(h + 3) div 4 + (h + 2) div 4 + (h + 1) div 4 + h div 4 = (h::nat)"
proof -
  obtain q r where h: "h = 4 * q + r" and r: "r < 4"
    by (metis mod_less_divisor mult_div_mod_eq zero_less_numeral)
  from r consider "r = 0" | "r = 1" | "r = 2" | "r = 3" by linarith
  then show ?thesis by cases (simp_all add: h)
qed

lemma DeinterleaveY_less:
  assumes "fy < h" "h < 65536" "mode \<le> 2"
  shows "DeinterleaveY fy h mode < h"
proof -
  consider "mode = 0" | "mode = 1" | "mode = 2" using assms(3) by linarith
  then show ?thesis
  proof cases
    case 1
    then show ?thesis using assms by (simp add: DeinterleaveY_def)
  next
    case 2
    have a: "(h + 1) mod 4294967296 = h + 1" using assms by simp
    show ?thesis
    proof (cases "fy < (h + 1) div 2")
      case True
      then have "fy * 2 < h" by linarith
      moreover have "(fy * 2) mod 4294967296 = fy * 2" using assms by simp
      ultimately show ?thesis using 2 True a by (simp add: DeinterleaveY_def Let_def)
    next
      case False
      then have b: "(fy - (h + 1) div 2) * 2 + 1 < h" using assms by linarith
      then have "((fy - (h + 1) div 2) * 2) mod 4294967296 = (fy - (h + 1) div 2) * 2"
        using assms by simp
      moreover have "((fy - (h + 1) div 2) * 2 + 1) mod 4294967296 = (fy - (h + 1) div 2) * 2 + 1"
        using assms b by simp
      ultimately show ?thesis using 2 False a b by (simp add: DeinterleaveY_def Let_def)
    qed
  next
    case 3
    define c0 where "c0 = (h + 3) div 4"
    define c1 where "c1 = (h + 2) div 4"
    define c2 where "c2 = (h + 1) div 4"
    have a: "(h + 3) mod 4294967296 = h + 3" "(h + 2) mod 4294967296 = h + 2"
      "(h + 1) mod 4294967296 = h + 1" using assms by simp_all
    have D: "DeinterleaveY fy h mode =
       (if fy < c0 then (fy * 4) mod 2 ^ 32
        else if fy - c0 < c1 then ((fy - c0) * 4 + 1) mod 2 ^ 32
        else if fy - c0 - c1 < c2 then ((fy - c0 - c1) * 4 + 2) mod 2 ^ 32
        else ((fy - c0 - c1 + 2 ^ 32 - c2) * 4 + 3) mod 2 ^ 32)"
      using 3 a by (simp add: DeinterleaveY_def Let_def c0_def c1_def c2_def)
    show ?thesis
    proof (cases "fy < c0")
      case True
      then have "fy * 4 < h" unfolding c0_def by linarith
      then show ?thesis using True assms by (simp add: D)
    next
      case n0: False
      show ?thesis
      proof (cases "fy - c0 < c1")
        case True
        then have "(fy - c0) * 4 + 1 < h" unfolding c1_def by linarith
        then show ?thesis using True n0 assms by (simp add: D)
      next
        case n1: False
        show ?thesis
        proof (cases "fy - c0 - c1 < c2")
          case True
          then have "(fy - c0 - c1) * 4 + 2 < h" unfolding c2_def by linarith
          then show ?thesis using True n0 n1 assms by (simp add: D)
        next
          case n2: False
          define r where "r = fy - c0 - c1 - c2"
          have s4: "(h + 3) div 4 + (h + 2) div 4 + (h + 1) div 4 + h div 4 = h" by (rule div4_sum)
          have "c0 + c1 + c2 + r = fy" using n0 n1 n2 unfolding r_def by linarith
          then have "r < h div 4" using s4 assms(1) unfolding c0_def c1_def c2_def by linarith
          then have r: "r * 4 + 3 < h" by linarith
          define N where "N = (2 :: nat) ^ 32"
          have e: "fy - c0 - c1 + N - c2 = r + N" using n2 unfolding r_def by linarith
          have "((fy - c0 - c1 + N - c2) * 4 + 3) mod N = ((r * 4 + 3) + 4 * N) mod N"
            unfolding e by (simp add: algebra_simps)
          also have "\<dots> = (r * 4 + 3) mod N" by (rule mod_mult_self1)
          also have "\<dots> = r * 4 + 3" using r assms unfolding N_def by simp
          finally have "((fy - c0 - c1 + 2 ^ 32 - c2) * 4 + 3) mod 2 ^ 32 = r * 4 + 3"
            unfolding N_def .
          then show ?thesis using n0 n1 n2 r unfolding D by (simp del: One_nat_def)
        qed
      qed
    qed
  qed
qed

section \<open>TGA: facts about the RLE loop\<close>

lemma and3_mod: "(x::nat) AND 3 = x mod 4"
  using take_bit_eq_mask[of 2 x] by (simp add: take_bit_eq_mod mask_eq_exp_minus_1)

lemma Tga_Read_length: "Tga_Read src n = Some (True, got, src') \<Longrightarrow> length got = n"
  by (cases src) (auto simp: Let_def split: if_splits)

lemma ParseTgaHeader_validate_ok:
  assumes "ParseTgaHeader_validate ctx src = Inr (ctx', src')"
    and "0 < tc_width ctx" "tc_width ctx < 65536" "0 < tc_height ctx" "tc_height ctx < 65536"
    and "tc_interleaveMode ctx \<le> 2"
    and "tc_hasColorMap ctx \<Longrightarrow> tc_colorMap ctx \<noteq> [] \<Longrightarrow>
           tc_colorMapBytesPerEntry ctx = (tga_colorMapDepth (tc_header ctx) + 7) div 8 \<and>
           length (tc_colorMap ctx) = tc_colorMapEntries ctx * tc_colorMapBytesPerEntry ctx \<and>
           length (tc_colorMap ctx) < 2 ^ 32"
  shows "tga_ctx_ok ctx'"
proof -
  from assms(1) have c: "ctx' = ctx\<lparr>tc_srcBytesPerPixel := (tc_pixelDepth ctx + 7) div 8\<rparr>"
    by (simp add: ParseTgaHeader_validate_def Let_def split: if_splits)
  show ?thesis
  proof (cases "tc_hasColorMap ctx")
    case True
    with assms(1) have ne: "tc_colorMap ctx \<noteq> []"
      and d: "tc_pixelDepth ctx = 8 \<or> tc_pixelDepth ctx = 16"
      and cd: "tga_colorMapDepth (tc_header ctx) = 15 \<or> tga_colorMapDepth (tc_header ctx) = 16 \<or>
            tga_colorMapDepth (tc_header ctx) = 24 \<or> tga_colorMapDepth (tc_header ctx) = 32"
      by (auto simp add: ParseTgaHeader_validate_def Let_def split: if_splits)
    from assms(7)[OF True ne] d cd True assms(2-6) show ?thesis
      unfolding c tga_ctx_ok_def by auto
  next
    case False
    show ?thesis
    proof (cases "tc_isGrayscale ctx")
      case True
      with False assms(1) have "tc_pixelDepth ctx = 8 \<or> tc_pixelDepth ctx = 16"
        by (auto simp add: ParseTgaHeader_validate_def Let_def split: if_splits)
      with True False assms(2-6) show ?thesis unfolding c tga_ctx_ok_def by simp
    next
      case g: False
      with False assms(1) have "tc_pixelDepth ctx = 15 \<or> tc_pixelDepth ctx = 16 \<or>
          tc_pixelDepth ctx = 24 \<or> tc_pixelDepth ctx = 32"
        by (auto simp add: ParseTgaHeader_validate_def Let_def split: if_splits)
      with g False assms(2-6) show ?thesis unfolding c tga_ctx_ok_def by simp
    qed
  qed
qed

lemma ParseTgaHeader_type_fields:
  "ParseTgaHeader_type c = Some ctx \<Longrightarrow>
   tc_header ctx = tc_header c \<and> tc_colorMap ctx = tc_colorMap c \<and>
   (tc_isRLE ctx \<longleftrightarrow> tc_isRLE c \<or> tga_imageType (tc_header c) \<in> {9, 10, 11})"
  by (auto simp add: ParseTgaHeader_type_def Let_def TGA_TYPE_COLORMAP_def TGA_TYPE_TRUECOLOR_def
      TGA_TYPE_GRAYSCALE_def TGA_TYPE_RLE_COLORMAP_def TGA_TYPE_RLE_TRUECOLOR_def
      TGA_TYPE_RLE_GRAYSCALE_def split: if_splits)

lemma ParseTgaHeader_ok:
  assumes "ParseTgaHeader src0 = Inr (ctx', src')"
  shows "tga_ctx_ok ctx'"
proof -
  from assms obtain h src1 where r: "Tga_Read src0 18 = Some (True, h, src1)"
    by (auto simp add: ParseTgaHeader_def split: option.splits if_splits)
  from assms r obtain ctx1 where
    t: "ParseTgaHeader_type (new_TgaContext\<lparr>tc_header := read_TGAHEADER h\<rparr>) = Some ctx1"
    by (auto simp add: ParseTgaHeader_def split: option.splits if_splits)
  from ParseTgaHeader_type_fields[OF t]
  have hd: "tc_header ctx1 = read_TGAHEADER h" and cm: "tc_colorMap ctx1 = []"
    by (simp_all add: new_TgaContext_def)
  define hdr where "hdr = read_TGAHEADER h"
  define ctx2 where "ctx2 = ctx1\<lparr> tc_width := tga_width hdr, tc_height := tga_height hdr,
                            tc_pixelDepth := tga_pixelDepth hdr,
                            tc_alphaBits := tga_imageDescriptor hdr AND 0x0F,
                            tc_interleaveMode := (drop_bit 6 (tga_imageDescriptor hdr)) AND 0x03,
                            tc_isRightToLeft := (tga_imageDescriptor hdr AND 0x10 \<noteq> 0),
                            tc_isTopDown := (tga_imageDescriptor hdr AND 0x20 \<noteq> 0) \<rparr>"
  note P = assms[unfolded ParseTgaHeader_def r t option.case prod.case Let_def hd,
      folded hdr_def, folded ctx2_def]
  have w: "tc_width ctx2 < 65536" "tc_height ctx2 < 65536"
    using field_bound[of h 12 2] field_bound[of h 14 2]
    by (simp_all add: ctx2_def hdr_def read_TGAHEADER_def)
  have i3: "tc_interleaveMode ctx2 \<le> 3"
    by (simp add: ctx2_def and3_mod)
  have h2: "tc_header ctx2 = hdr" "tc_colorMap ctx2 = []"
    by (simp_all add: ctx2_def hd cm hdr_def)
  from P have nz: "0 < tc_width ctx2" "0 < tc_height ctx2" and i: "tc_interleaveMode ctx2 \<noteq> 3"
    by (auto split: if_splits)
  from i i3 have i2: "tc_interleaveMode ctx2 \<le> 2" by simp
  obtain ok2 src2 where sk: "(if tga_idLength hdr > 0 then Tga_Skip src1 (tga_idLength hdr) else (True, src1)) = (ok2, src2)"
    by (cases "(if tga_idLength hdr > 0 then Tga_Skip src1 (tga_idLength hdr) else (True, src1))") auto
  note Q = P[unfolded sk prod.case]
  show ?thesis
  proof (cases "tga_colorMapType hdr = 1 \<and> tga_colorMapLength hdr > 0")
    case False
    with Q nz i have v: "ParseTgaHeader_validate ctx2 src2 = Inr (ctx', src')"
      by (simp split: if_splits)
    show ?thesis
      by (rule ParseTgaHeader_validate_ok[OF v nz(1) w(1) nz(2) w(2) i2]) (simp add: h2)
  next
    case True
    define ctx3 where "ctx3 = ctx2\<lparr> tc_colorMapEntries := tga_colorMapLength hdr,
                                    tc_colorMapBytesPerEntry := (tga_colorMapDepth hdr + 7) div 8 \<rparr>"
    from Q True nz i obtain cmSize got src3 where
      sm: "SafeMul32 (tc_colorMapEntries ctx3) (tc_colorMapBytesPerEntry ctx3) = Some cmSize"
      and rd: "Tga_Read src2 cmSize = Some (True, got, src3)"
      and v: "ParseTgaHeader_validate (ctx3\<lparr>tc_colorMap := got\<rparr>) src3 = Inr (ctx', src')"
      unfolding ctx3_def[symmetric]
      by (auto split: if_splits option.splits)
    from sm have cs: "cmSize = tc_colorMapEntries ctx3 * tc_colorMapBytesPerEntry ctx3" "cmSize < 2 ^ 32"
      by (auto simp add: SafeMul32_def split: if_splits)
    have lg: "length got = cmSize" using Tga_Read_length[OF rd] .
    show ?thesis
      apply (rule ParseTgaHeader_validate_ok[OF v])
      using nz w i2 lg cs by (simp_all add: ctx3_def h2)
  qed
qed

lemma MapX_less: "fx < w \<Longrightarrow> w < 65536 \<Longrightarrow> MapX fx w rtl < w"
proof -
  assume a: "fx < w" "w < 65536"
  define N where "N = (2 :: nat) ^ 32"
  have "w + N - 1 - fx = (w - 1 - fx) + N" using a by linarith
  then have "(w + N - 1 - fx) mod N = (w - 1 - fx) mod N" by simp
  also have "\<dots> = w - 1 - fx" using a unfolding N_def by simp
  finally show ?thesis using a unfolding MapX_def N_def by (simp del: One_nat_def)
qed

lemma MapY_less:
  assumes "fy < h" "h < 65536" "mode \<le> 2"
  shows "MapY fy h td mode < h"
proof -
  define l where "l = DeinterleaveY fy h mode"
  have l: "l < h" unfolding l_def using assms by (rule DeinterleaveY_less)
  define N where "N = (2 :: nat) ^ 32"
  have "h + N - 1 - l = (h - 1 - l) + N" using l by linarith
  then have "(h + N - 1 - l) mod N = (h - 1 - l) mod N" by simp
  also have "\<dots> = h - 1 - l" using l assms unfolding N_def by simp
  finally have "(h + 2 ^ 32 - 1 - l) mod 2 ^ 32 < h" using l unfolding N_def by linarith
  then show ?thesis using l unfolding MapY_def Let_def l_def [symmetric] by (simp del: One_nat_def)
qed

lemma wr_Some: "i < length buf \<Longrightarrow> wr buf i v = Some (buf[i := v])"
  by (simp add: wr_def)

lemma rd_Some: "i < length buf \<Longrightarrow> rd buf i = Some (buf ! i)"
  by (simp add: rd_def)

lemma TGA_store_Some:
  assumes ok: "tga_ctx_ok ctx" and fx: "fx < tc_width ctx" and fy: "fy < tc_height ctx"
    and ds: "dstStride = tc_width ctx * 4"
    and len: "length buf = tc_width ctx * 4 * tc_height ctx" "length buf < 2 ^ 32"
  shows "\<exists>buf'. TGA_store ctx dstStride buf fx fy px = Some buf' \<and> length buf' = length buf"
proof -
  define w where "w = tc_width ctx"
  define h where "h = tc_height ctx"
  define dx where "dx = MapX fx w (tc_isRightToLeft ctx)"
  define dy where "dy = MapY fy h (tc_isTopDown ctx) (tc_interleaveMode ctx)"
  have wh: "0 < w" "w < 65536" "0 < h" "h < 65536" "tc_interleaveMode ctx \<le> 2"
    using ok by (simp_all add: tga_ctx_ok_def w_def h_def)
  have dx: "dx < w" unfolding dx_def using fx wh by (intro MapX_less) (simp_all add: w_def)
  have dy: "dy < h" unfolding dy_def using fy wh by (intro MapY_less) (simp_all add: h_def)
  have "dy * (w * 4) + dx * 4 + 4 \<le> (h - 1) * (w * 4) + (w - 1) * 4 + 4"
    using dx dy by (intro add_mono mult_le_mono) simp_all
  also have "\<dots> = h * (w * 4)" using wh by (cases h; cases w) (simp_all add: algebra_simps)
  finally have bound: "dy * (w * 4) + dx * 4 + 4 \<le> length buf" using len by (simp add: w_def h_def algebra_simps)
  have lt: "dy * (w * 4) < 2 ^ 32" "dx * 4 < 2 ^ 32" using bound len(2) by linarith+
  have m: "(dy * (w * 4)) mod 2 ^ 32 = dy * (w * 4)" "(dx * 4) mod 2 ^ 32 = dx * 4"
    by (rule mod_less, rule lt(1), rule mod_less, rule lt(2))
  obtain p0 p1 p2 p3 where px: "px = (p0, p1, p2, p3)" by (cases px) auto
  define off where "off = dy * (w * 4) + dx * 4"
  have off: "off + 4 \<le> length buf" using bound by (simp add: off_def)
  have "TGA_store ctx dstStride buf fx fy px =
          Some (buf[off := p0, off + 1 := p1, off + 2 := p2, off + 3 := p3])"
    unfolding TGA_store_def Let_def ds w_def [symmetric] h_def [symmetric]
      dx_def [symmetric] dy_def [symmetric] m off_def [symmetric] px
    using off by (simp add: wr_Some)
  then show ?thesis by simp
qed


lemma DecodePaletteEntry_Some:
  assumes ok: "tga_ctx_ok ctx" and cm: "tc_hasColorMap ctx"
  shows "DecodePaletteEntry (tc_header ctx) (tc_alphaBits ctx) (tc_colorMap ctx)
               (tc_colorMapEntries ctx) (tc_colorMapBytesPerEntry ctx) index \<noteq> None"
proof (cases "tc_colorMap ctx = [] \<or> index < tga_colorMapOrigin (tc_header ctx) \<or>
              index - tga_colorMapOrigin (tc_header ctx) \<ge> tc_colorMapEntries ctx")
  case True
  then show ?thesis by (auto simp: DecodePaletteEntry_def)
next
  case False
  define i where "i = index - tga_colorMapOrigin (tc_header ctx)"
  define bpe where "bpe = tc_colorMapBytesPerEntry ctx"
  define cm where "cm = tc_colorMap ctx"
  define d where "d = tga_colorMapDepth (tc_header ctx)"
  have i: "i < tc_colorMapEntries ctx" using False by (simp add: i_def)
  have len: "length cm = tc_colorMapEntries ctx * bpe" "length cm < 2 ^ 32"
    and d: "d = 15 \<or> d = 16 \<or> d = 24 \<or> d = 32" and bpe: "bpe = (d + 7) div 8"
    using ok cm unfolding tga_ctx_ok_def cm_def bpe_def d_def by auto
  have "i * bpe + bpe = (i + 1) * bpe" by (simp add: algebra_simps)
  also have "\<dots> \<le> tc_colorMapEntries ctx * bpe" using i by (intro mult_le_mono) simp_all
  finally have inr: "i * bpe + bpe \<le> length cm" using len by simp
  then have "i * bpe < 2 ^ 32" using len(2) by linarith
  then have m: "(i * bpe) mod 2 ^ 32 = i * bpe" by (rule mod_less)
  have D: "DecodePaletteEntry (tc_header ctx) (tc_alphaBits ctx) cm
               (tc_colorMapEntries ctx) bpe index =
       (let e = i * bpe
         in if d = 15 \<or> d = 16
            then do {
              e0 \<leftarrow> rd cm e;
              e1 \<leftarrow> rd cm (e + 1);
              Some (Decode15or16 (le_nat [e0, e1]) (if d = 16 then tc_alphaBits ctx else 0))
            }
            else if d = 24
            then do {
              e0 \<leftarrow> rd cm e; e1 \<leftarrow> rd cm (e + 1); e2 \<leftarrow> rd cm (e + 2);
              Some (e0, e1, e2, 255)
            }
            else if d = 32
            then do {
              e0 \<leftarrow> rd cm e; e1 \<leftarrow> rd cm (e + 1); e2 \<leftarrow> rd cm (e + 2);
              e3 \<leftarrow> rd cm (e + 3);
              Some (e0, e1, e2, e3)
            }
            else Some (0, 0, 0, 255))"
    using False unfolding DecodePaletteEntry_def i_def [symmetric] m d_def cm_def by simp
  from d show ?thesis
    unfolding cm_def [symmetric] bpe_def [symmetric] D Let_def
    using inr bpe by (elim disjE) (simp_all add: rd_Some)
qed

lemma TGA_decodeAt_Some:
  assumes ok: "tga_ctx_ok ctx" and inr: "off + tc_srcBytesPerPixel ctx \<le> length srcPixels"
  shows "TGA_decodeAt ctx srcPixels off \<noteq> None"
proof (cases "srcPixels = []")
  case True
  have "0 < tc_srcBytesPerPixel ctx" using ok by (auto simp: tga_ctx_ok_def split: if_splits)
  with True inr show ?thesis by simp
next
  case ne: False
  define d where "d = tc_pixelDepth ctx"
  have bpp: "tc_srcBytesPerPixel ctx = (d + 7) div 8" using ok by (simp add: tga_ctx_ok_def d_def)
  show ?thesis
  proof (cases "tc_hasColorMap ctx")
    case True
    then have d: "d = 8 \<or> d = 16" using ok by (simp add: tga_ctx_ok_def d_def)
    from d show ?thesis
      using ne True inr bpp DecodePaletteEntry_Some[OF ok True]
      unfolding TGA_decodeAt_def DecodePixel_def d_def [symmetric]
      by (elim disjE) (simp_all add: rd_Some)
  next
    case ncm: False
    show ?thesis
    proof (cases "tc_isGrayscale ctx")
      case True
      then have d: "d = 8 \<or> d = 16" using ok ncm by (simp add: tga_ctx_ok_def d_def)
      from d show ?thesis
        using ne True ncm inr bpp
        unfolding TGA_decodeAt_def DecodePixel_def d_def [symmetric]
        by (elim disjE) (simp_all add: rd_Some)
    next
      case False
      then have d: "d = 15 \<or> d = 16 \<or> d = 24 \<or> d = 32"
        using ok ncm by (simp add: tga_ctx_ok_def d_def)
      from d show ?thesis
        using ne False ncm inr bpp
        unfolding TGA_decodeAt_def DecodePixel_def d_def [symmetric]
        by (elim disjE) (simp_all add: rd_Some)
    qed
  qed
qed


lemma TGA_runPacket_count:
  assumes ok: "tga_ctx_ok ctx" and ds: "dstStride = tc_width ctx * 4"
    and tot: "totalPixels = tc_width ctx * tc_height ctx"
    and len: "length buf = tc_width ctx * 4 * tc_height ctx" "length buf < 2 ^ 32"
    and pc: "pc \<le> totalPixels"
  shows "\<exists>buf'. TGA_runPacket ctx dstStride totalPixels px n (pc, buf)
                  = Some (min totalPixels (pc + n), buf') \<and> length buf' = length buf"
  using len pc
proof (induction n arbitrary: pc buf)
  case 0
  then show ?case by simp
next
  case (Suc n)
  show ?case
  proof (cases "pc < totalPixels")
    case True
    have w: "0 < tc_width ctx" using ok by (simp add: tga_ctx_ok_def)
    have fx: "pc mod tc_width ctx < tc_width ctx" using w by simp
    have fy: "pc div tc_width ctx < tc_height ctx"
      using True unfolding tot by (simp add: less_mult_imp_div_less mult.commute)
    obtain buf1 where s: "TGA_store ctx dstStride buf (pc mod tc_width ctx) (pc div tc_width ctx) px = Some buf1"
      and l1: "length buf1 = length buf"
      using TGA_store_Some[OF ok fx fy ds Suc.prems(1,2)] by blast
    have "pc + 1 \<le> totalPixels" using True by simp
    from Suc.IH[OF _ _ this, of buf1] l1 Suc.prems
    obtain buf' where "TGA_runPacket ctx dstStride totalPixels px n (pc + 1, buf1)
                  = Some (min totalPixels (pc + 1 + n), buf')" "length buf' = length buf1"
      by auto
    then show ?thesis using True s l1 by simp
  next
    case False
    then have "min totalPixels (pc + Suc n) = pc" using Suc.prems by simp
    then show ?thesis using False by simp
  qed
qed

lemma TGA_rawPacket_count:
  assumes ok: "tga_ctx_ok ctx" and ds: "dstStride = tc_width ctx * 4"
    and tot: "totalPixels = tc_width ctx * tc_height ctx"
    and bpp: "bpp = tc_srcBytesPerPixel ctx"
    and len: "length buf = tc_width ctx * 4 * tc_height ctx" "length buf < 2 ^ 32"
    and sp: "sp \<le> length srcPixels"
  shows "\<exists>buf'. TGA_rawPacket ctx srcPixels dstStride totalPixels n (sp, pc, buf)
                  = Some (sp + min n (min ((length srcPixels - sp) div bpp) (totalPixels - pc)) * bpp,
                          pc + min n (min ((length srcPixels - sp) div bpp) (totalPixels - pc)), buf')
               \<and> length buf' = length buf"
  using len sp
proof (induction n arbitrary: sp pc buf)
  case 0
  then show ?case by simp
next
  case (Suc n)
  have bpos: "0 < bpp" using ok unfolding bpp tga_ctx_ok_def by (auto split: if_splits)
  show ?case
  proof (cases "pc < totalPixels")
    case True
    show ?thesis
    proof (cases "sp + bpp > length srcPixels")
      case short: True
      then have "(length srcPixels - sp) div bpp = 0" using bpos by simp
      then show ?thesis using True short by (simp add: bpp)
    next
      case False
      then have inr: "sp + tc_srcBytesPerPixel ctx \<le> length srcPixels" by (simp add: bpp)
      obtain px where d: "TGA_decodeAt ctx srcPixels sp = Some px"
        using TGA_decodeAt_Some[OF ok inr] by auto
      have w: "0 < tc_width ctx" using ok by (simp add: tga_ctx_ok_def)
      have fx: "pc mod tc_width ctx < tc_width ctx" using w by simp
      have fy: "pc div tc_width ctx < tc_height ctx"
        using True unfolding tot by (simp add: less_mult_imp_div_less mult.commute)
      obtain buf1 where s: "TGA_store ctx dstStride buf (pc mod tc_width ctx) (pc div tc_width ctx) px = Some buf1"
        and l1: "length buf1 = length buf"
        using TGA_store_Some[OF ok fx fy ds Suc.prems(1,2)] by blast
      define k' where "k' = min n (min ((length srcPixels - (sp + bpp)) div bpp) (totalPixels - (pc + 1)))"
      have "sp + bpp \<le> length srcPixels" using False by simp
      from Suc.IH[OF _ _ this, of buf1 "pc + 1"] l1 Suc.prems
      obtain buf' where r: "TGA_rawPacket ctx srcPixels dstStride totalPixels n (sp + bpp, pc + 1, buf1)
                  = Some (sp + bpp + k' * bpp, pc + 1 + k', buf')" and l2: "length buf' = length buf1"
        unfolding k'_def by auto
      have "(length srcPixels - sp) div bpp = (length srcPixels - (sp + bpp)) div bpp + 1"
        using False bpos by (simp add: le_div_geq)
      moreover have "totalPixels - pc = (totalPixels - (pc + 1)) + 1" using True by simp
      ultimately have k: "min (Suc n) (min ((length srcPixels - sp) div bpp) (totalPixels - pc)) = k' + 1"
        unfolding k'_def by simp
      show ?thesis
        unfolding k using True False d s r l1 l2 by (simp add: bpp algebra_simps)
    qed
  next
    case False
    then have "totalPixels - pc = 0" by simp
    then show ?thesis using False by simp
  qed
qed


lemma min_min_add: "min (t::nat) (min t a + b) = min t (a + b)"
  by simp

lemma TGA_decodeRLE_count:
  assumes ok: "tga_ctx_ok ctx" and ds: "dstStride = tc_width ctx * 4"
    and tot: "totalPixels = tc_width ctx * tc_height ctx"
    and bpp: "bpp = tc_srcBytesPerPixel ctx"
  shows "length buf = tc_width ctx * 4 * tc_height ctx \<Longrightarrow> length buf < 2 ^ 32 \<Longrightarrow>
         pc \<le> totalPixels \<Longrightarrow> sp \<le> length srcPixels \<Longrightarrow>
         \<exists>sp' buf'. TGA_decodeRLE ctx srcPixels dstStride totalPixels (sp, pc, buf)
                  = Some (sp', min totalPixels (pc + tga_rle_pixels bpp (drop sp srcPixels)), buf')
               \<and> length buf' = length buf"
proof (induction "length srcPixels - sp" arbitrary: sp pc buf rule: less_induct)
  case less
  note S = TGA_decodeRLE.simps[of ctx srcPixels dstStride totalPixels sp pc buf]
  have bpos: "0 < bpp" using ok unfolding bpp tga_ctx_ok_def by (auto split: if_splits)
  show ?case
  proof (cases "pc < totalPixels \<and> sp < length srcPixels")
    case False
    have "min totalPixels (pc + tga_rle_pixels bpp (drop sp srcPixels)) = pc"
    proof (cases "pc < totalPixels")
      case True
      with False have "drop sp srcPixels = []" by simp
      then show ?thesis using less.prems by simp
    next
      case False
      then show ?thesis using less.prems by simp
    qed
    moreover have "TGA_decodeRLE ctx srcPixels dstStride totalPixels (sp, pc, buf) = Some (sp, pc, buf)"
      by (subst S) (simp only: False if_False)
    ultimately show ?thesis by simp
  next
    case True
    define packet where "packet = srcPixels ! sp"
    define count where "count = unat (packet AND 0x7F) + 1"
    define rest where "rest = drop (sp + 1) srcPixels"
    have rdp: "rd srcPixels sp = Some packet" using True by (simp add: rd_Some packet_def)
    have dr: "drop sp srcPixels = packet # rest"
      using True by (simp add: Cons_nth_drop_Suc packet_def rest_def)
    have lrest: "length rest = length srcPixels - (sp + 1)" by (simp add: rest_def)
    show ?thesis
    proof (cases "packet AND 0x80 \<noteq> 0")
      case run: True
      show ?thesis
      proof (cases "sp + 1 + bpp > length srcPixels")
        case cut: True
        then have "length rest < bpp" using lrest True by linarith
        then have "tga_rle_pixels bpp (drop sp srcPixels) = 0"
          unfolding dr using run by (simp add: Let_def)
        then show ?thesis using S True rdp run cut less.prems by (simp add: bpp)
      next
        case False
        then have inr: "(sp + 1) + tc_srcBytesPerPixel ctx \<le> length srcPixels" by (simp add: bpp)
        obtain px where d: "TGA_decodeAt ctx srcPixels (sp + 1) = Some px"
          using TGA_decodeAt_Some[OF ok inr] by auto
        obtain buf1 where r: "TGA_runPacket ctx dstStride totalPixels px count (pc, buf)
                               = Some (min totalPixels (pc + count), buf1)"
          and l1: "length buf1 = length buf"
          using TGA_runPacket_count[OF ok ds tot less.prems(1,2,3)] by blast
        have m: "length srcPixels - (sp + 1 + bpp) < length srcPixels - sp" using True by linarith
        have le: "sp + 1 + bpp \<le> length srcPixels" using False by linarith
        have "\<exists>sp' buf'. TGA_decodeRLE ctx srcPixels dstStride totalPixels
                 (sp + 1 + bpp, min totalPixels (pc + count), buf1)
               = Some (sp', min totalPixels (min totalPixels (pc + count)
                        + tga_rle_pixels bpp (drop (sp + 1 + bpp) srcPixels)), buf')
               \<and> length buf' = length buf1"
          using less.hyps[OF m _ _ _ le, of buf1 "min totalPixels (pc + count)"] l1 less.prems(1,2)
          by simp
        then obtain sp' buf' where rec: "TGA_decodeRLE ctx srcPixels dstStride totalPixels
                 (sp + 1 + bpp, min totalPixels (pc + count), buf1)
               = Some (sp', min totalPixels (pc + count
                        + tga_rle_pixels bpp (drop (sp + 1 + bpp) srcPixels)), buf')"
          and l2: "length buf' = length buf1"
          unfolding min_min_add by blast
        have "\<not> length rest < bpp" using lrest False by linarith
        then have tg: "tga_rle_pixels bpp (drop sp srcPixels)
                 = count + tga_rle_pixels bpp (drop (sp + 1 + bpp) srcPixels)"
          unfolding dr using run by (simp add: Let_def count_def rest_def add.commute)
        have "TGA_decodeRLE ctx srcPixels dstStride totalPixels (sp, pc, buf)
              = TGA_decodeRLE ctx srcPixels dstStride totalPixels
                 (sp + 1 + bpp, min totalPixels (pc + count), buf1)"
          using True rdp run False d r unfolding count_def
          by (subst S) (simp del: TGA_runPacket.simps add: bpp)
        then show ?thesis using rec l2 l1 tg by (simp add: add.assoc)
      qed
    next
      case raw: False
      define k where "k = min count (min ((length srcPixels - (sp + 1)) div bpp) (totalPixels - pc))"
      have sp1: "sp + 1 \<le> length srcPixels" using True by linarith
      obtain buf1 where r: "TGA_rawPacket ctx srcPixels dstStride totalPixels count (sp + 1, pc, buf)
                               = Some (sp + 1 + k * bpp, pc + k, buf1)"
          and l1: "length buf1 = length buf"
        using TGA_rawPacket_count[OF ok ds tot bpp less.prems(1,2) sp1, of count pc]
        unfolding k_def by blast
      have "k \<le> (length srcPixels - (sp + 1)) div bpp" unfolding k_def by simp
      then have "k * bpp \<le> length srcPixels - (sp + 1)"
        using bpos by (simp add: less_eq_div_iff_mult_less_eq)
      then have le: "sp + 1 + k * bpp \<le> length srcPixels" using sp1 by linarith
      have m: "length srcPixels - (sp + 1 + k * bpp) < length srcPixels - sp" using True by linarith
      have pk: "pc + k \<le> totalPixels" using less.prems(3) unfolding k_def by simp
      have "\<exists>sp' buf'. TGA_decodeRLE ctx srcPixels dstStride totalPixels
                 (sp + 1 + k * bpp, pc + k, buf1)
               = Some (sp', min totalPixels (pc + k
                        + tga_rle_pixels bpp (drop (sp + 1 + k * bpp) srcPixels)), buf')
               \<and> length buf' = length buf1"
        using less.hyps[OF m _ _ pk le, of buf1] l1 less.prems(1,2)
        by simp
      then obtain sp' buf' where rec: "TGA_decodeRLE ctx srcPixels dstStride totalPixels
                 (sp + 1 + k * bpp, pc + k, buf1)
               = Some (sp', min totalPixels (pc + k
                        + tga_rle_pixels bpp (drop (sp + 1 + k * bpp) srcPixels)), buf')"
          and l2: "length buf' = length buf1"
        by blast
      define n where "n = min count (length rest div bpp)"
      have tg: "tga_rle_pixels bpp (drop sp srcPixels)
                 = n + tga_rle_pixels bpp (drop (sp + 1 + n * bpp) srcPixels)"
        unfolding dr using raw by (simp add: Let_def count_def rest_def n_def add.commute)
      have eq: "min totalPixels (pc + k + tga_rle_pixels bpp (drop (sp + 1 + k * bpp) srcPixels))
              = min totalPixels (pc + tga_rle_pixels bpp (drop sp srcPixels))"
      proof (cases "n \<le> totalPixels - pc")
        case True
        then have "k = n" unfolding k_def n_def lrest by simp
        then show ?thesis using tg by (simp add: add.assoc)
      next
        case False
        then have "k = totalPixels - pc" unfolding k_def n_def lrest by simp
        then have "pc + k = totalPixels" using less.prems(3) by simp
        moreover have "totalPixels \<le> pc + n" using False by simp
        ultimately show ?thesis using tg by simp
      qed
      have "TGA_decodeRLE ctx srcPixels dstStride totalPixels (sp, pc, buf)
              = TGA_decodeRLE ctx srcPixels dstStride totalPixels
                 (sp + 1 + k * bpp, pc + k, buf1)"
        using True rdp raw r unfolding count_def
        by (subst S) (simp del: TGA_rawPacket.simps add: bpp)
      then show ?thesis using rec l2 l1 eq by simp
    qed
  qed
qed

section \<open>Loops that store pixels\<close>

lemma forM_total:
  assumes "i \<le> n" and "I i s"
    and "\<And>j t. i \<le> j \<Longrightarrow> j < n \<Longrightarrow> I j t \<Longrightarrow> \<exists>t'. body j t = Some t' \<and> I (Suc j) t'"
  shows "\<exists>s'. forM i n body s = Some s' \<and> I n s'"
  using assms
proof (induction "n - i" arbitrary: i s)
  case 0
  then have "i = n" by simp
  with 0 show ?case by (subst forM.simps) simp
next
  case (Suc d)
  then have lt: "i < n" by simp
  from Suc.prems(3)[OF le_refl lt Suc.prems(2)]
  obtain t where t: "body i s = Some t" and it: "I (Suc i) t" by blast
  have "d = n - Suc i" using Suc.hyps(2) by simp
  from Suc.hyps(1)[OF this _ it] lt Suc.prems(3)
  obtain s' where "forM (Suc i) n body t = Some s'" "I n s'"
    by (metis Suc_leD Suc_leI)
  then show ?case using lt t by (subst forM.simps) simp
qed

lemma put4_Some:
  assumes "row + x * 4 + 3 < length buf" "x * 4 + 3 < 2 ^ 32"
  shows "put4 buf row x v0 v1 v2 v3
         = Some (buf[row + x * 4 := v0, row + x * 4 + 1 := v1, row + x * 4 + 2 := v2,
                     row + x * 4 + 3 := v3])"
proof -
  define N where "N = (2::nat) ^ 32"
  have m: "(x * 4 + 0) mod N = x * 4" "(x * 4 + 1) mod N = x * 4 + 1"
    "(x * 4 + 2) mod N = x * 4 + 2" "(x * 4 + 3) mod N = x * 4 + 3"
    using assms(2) unfolding N_def by simp_all
  show ?thesis
    unfolding put4_def N_def[symmetric] m using assms(1)
    by (simp add: wr_def add.assoc)
qed

lemma bgra_at_put4:
  assumes "off + 3 < length buf"
  shows "bgra_at (buf[off := v0, off + 1 := v1, off + 2 := v2, off + 3 := v3]) off = (v0, v1, v2, v3)"
  using assms by (simp add: bgra_at_def)

lemma bgra_at_cong:
  assumes "\<And>k. k < 4 \<Longrightarrow> a ! (off + k) = b ! (off + k)"
  shows "bgra_at a off = bgra_at b off"
  using assms[of 0] assms[of 1] assms[of 2] assms[of 3] by (simp add: bgra_at_def)

text \<open>A loop over the pixels of one row, each turn of which stores one pixel.\<close>

lemma forM_put4_row:
  assumes body: "\<And>x buf. x < w \<Longrightarrow> length buf = L \<Longrightarrow>
                   body x buf = put4 buf row x (c0 x) (c1 x) (c2 x) (c3 x)"
    and fit: "row + w * 4 \<le> L" "w * 4 < 2 ^ 32" and len: "length buf0 = L"
  shows "\<exists>out. forM 0 w body buf0 = Some out \<and> length out = L \<and>
           (\<forall>x<w. bgra_at out (row + x * 4) = (c0 x, c1 x, c2 x, c3 x)) \<and>
           (\<forall>i. i < row \<or> row + w * 4 \<le> i \<longrightarrow> out ! i = buf0 ! i)"
proof -
  define I where "I = (\<lambda>n buf. length buf = L \<and>
           (\<forall>x<n. bgra_at buf (row + x * 4) = (c0 x, c1 x, c2 x, c3 x)) \<and>
           (\<forall>i. i < row \<or> row + n * 4 \<le> i \<longrightarrow> buf ! i = buf0 ! i))"
  have "\<exists>s'. forM 0 w body buf0 = Some s' \<and> I w s'"
  proof (rule forM_total)
    show "0 \<le> w" by simp
    show "I 0 buf0" by (simp add: I_def len)
  next
    fix j t assume j: "0 \<le> j" "j < w" and inv: "I j t"
    have lt: "length t = L" using inv by (simp add: I_def)
    have r1: "row + j * 4 + 3 < length t" using j fit lt by simp
    have r2: "j * 4 + 3 < 2 ^ 32" using j fit by simp
    define t' where "t' = t[row + j * 4 := c0 j, row + j * 4 + 1 := c1 j, row + j * 4 + 2 := c2 j,
                     row + j * 4 + 3 := c3 j]"
    have b: "body j t = Some t'"
      unfolding body[OF j(2) lt] t'_def by (rule put4_Some[OF r1 r2])
    have oth: "t' ! i = t ! i" if "i < row + j * 4 \<or> row + j * 4 + 4 \<le> i" for i
      using that unfolding t'_def by auto
    have "I (Suc j) t'"
      unfolding I_def
    proof (intro conjI allI impI)
      show "length t' = L" using lt by (simp add: t'_def)
    next
      fix x assume x: "x < Suc j"
      show "bgra_at t' (row + x * 4) = (c0 x, c1 x, c2 x, c3 x)"
      proof (cases "x = j")
        case True
        show ?thesis unfolding True t'_def by (rule bgra_at_put4[OF r1])
      next
        case False
        with x have xj: "x < j" by simp
        have "bgra_at t' (row + x * 4) = bgra_at t (row + x * 4)"
          by (rule bgra_at_cong, rule oth) (use xj in simp)
        then show ?thesis using inv xj by (simp add: I_def)
      qed
    next
      fix i assume i: "i < row \<or> row + Suc j * 4 \<le> i"
      then have "t' ! i = t ! i" by (intro oth) auto
      moreover have "t ! i = buf0 ! i" using inv i by (auto simp add: I_def)
      ultimately show "t' ! i = buf0 ! i" by simp
    qed
    with b show "\<exists>t'. body j t = Some t' \<and> I (Suc j) t'" by blast
  qed
  then show ?thesis by (simp add: I_def)
qed

text \<open>A loop over the rows of an image, each turn of which stores one row.\<close>

lemma forM_rows:
  assumes row: "\<And>y buf. y < h \<Longrightarrow> length buf = L \<Longrightarrow>
                 \<exists>out. rowbody y buf = Some out \<and> length out = L \<and>
                   (\<forall>x<w. bgra_at out (y * stride + x * 4) = c x y) \<and>
                   (\<forall>i. i < y * stride \<or> y * stride + w * 4 \<le> i \<longrightarrow> out ! i = buf ! i)"
    and fit: "w * 4 \<le> stride" and len: "length buf0 = L"
  shows "\<exists>out. forM 0 h rowbody buf0 = Some out \<and> length out = L \<and>
           (\<forall>y<h. \<forall>x<w. bgra_at out (y * stride + x * 4) = c x y)"
proof -
  define J where "J = (\<lambda>n buf. length buf = L \<and>
           (\<forall>y<n. \<forall>x<w. bgra_at buf (y * stride + x * 4) = c x y))"
  have "\<exists>s'. forM 0 h rowbody buf0 = Some s' \<and> J h s'"
  proof (rule forM_total)
    show "0 \<le> h" by simp
    show "J 0 buf0" by (simp add: J_def len)
  next
    fix j t assume j: "0 \<le> j" "j < h" and inv: "J j t"
    have lt: "length t = L" using inv by (simp add: J_def)
    from row[OF j(2) lt] obtain out where o: "rowbody j t = Some out" "length out = L"
      "\<forall>x<w. bgra_at out (j * stride + x * 4) = c x j"
      "\<forall>i. i < j * stride \<or> j * stride + w * 4 \<le> i \<longrightarrow> out ! i = t ! i"
      by blast
    have "J (Suc j) out"
      unfolding J_def
    proof (intro conjI allI impI)
      show "length out = L" by (rule o(2))
    next
      fix y x assume y: "y < Suc j" and x: "x < w"
      show "bgra_at out (y * stride + x * 4) = c x y"
      proof (cases "y = j")
        case True
        then show ?thesis using o(3) x by simp
      next
        case False
        with y have yj: "y < j" by simp
        then have "Suc y \<le> j" by simp
        then have "Suc y * stride \<le> j * stride" by (rule mult_le_mono1)
        then have le: "y * stride + stride \<le> j * stride" by simp
        have "bgra_at out (y * stride + x * 4) = bgra_at t (y * stride + x * 4)"
        proof (rule bgra_at_cong)
          fix k :: nat assume "k < 4"
          then have "y * stride + x * 4 + k < j * stride" using le fit x by linarith
          then show "out ! (y * stride + x * 4 + k) = t ! (y * stride + x * 4 + k)"
            using o(4) by simp
        qed
        then show ?thesis using inv yj x by (simp add: J_def)
      qed
    qed
    with o(1) show "\<exists>t'. rowbody j t = Some t' \<and> J (Suc j) t'" by blast
  qed
  then show ?thesis by (simp add: J_def)
qed


section \<open>PCX: facts about the indexed decode\<close>

lemma FindVgaPalette_range:
  "FindVgaPalette data e = Some pal \<Longrightarrow> pal + 768 \<le> length data"
  by (auto simp add: FindVgaPalette_def split: if_splits)

lemma unat_byte_le: "unat (b :: byte) \<le> 255"
  using unsigned_less[of b, where ?'a = nat] by simp

lemma ApplyIndexedPalette_pixels:
  assumes stride: "stride = width * 4"
    and ld: "length dst = width * 4 * height" "length dst < 2 ^ 32"
    and li: "length indexPixels = width * height"
    and pal: "\<And>pal. vgaPal = Some pal \<Longrightarrow> pal + 768 \<le> length data"
  shows "\<exists>out. ApplyIndexedPalette width height stride indexPixels dst data vgaPal grayscale = Some out \<and>
           length out = length dst \<and>
           (\<forall>y<height. \<forall>x<width. bgra_at out (y * stride + x * 4) =
              (let i = indexPixels ! (y * width + x)
               in case vgaPal of
                    Some pal \<Rightarrow>
                      if \<not> grayscale
                      then (data ! (pal + unat i * 3 + 2), data ! (pal + unat i * 3 + 1),
                            data ! (pal + unat i * 3 + 0), 255)
                      else (i, i, i, 255)
                  | None \<Rightarrow> (i, i, i, 255)))"
proof -
  define N where "N = (2::nat) ^ 32"
  define L where "L = length dst"
  define col where "col = (\<lambda>x y. let i = indexPixels ! (y * width + x)
               in case vgaPal of
                    Some pal \<Rightarrow>
                      if \<not> grayscale
                      then (data ! (pal + unat i * 3 + 2), data ! (pal + unat i * 3 + 1),
                            data ! (pal + unat i * 3 + 0), 255 :: byte)
                      else (i, i, i, 255)
                  | None \<Rightarrow> (i, i, i, 255))"
  have LN: "L < N" using ld(2) by (simp add: L_def N_def)
  have Lw: "L = width * 4 * height" using ld(1) by (simp add: L_def)
  have "\<exists>out. forM 0 height (\<lambda>y buf.
       forM 0 width (\<lambda>x buf. do {
         idx \<leftarrow> rd indexPixels ((y * width) mod N + x);
         (case vgaPal of
            Some pal \<Rightarrow>
              if \<not> grayscale
              then do {
                b \<leftarrow> rd data (pal + unat idx * 3 + 2);
                g \<leftarrow> rd data (pal + unat idx * 3 + 1);
                r \<leftarrow> rd data (pal + unat idx * 3 + 0);
                put4 buf ((y * stride) mod N) x b g r 255
              }
              else put4 buf ((y * stride) mod N) x idx idx idx 255
          | None \<Rightarrow> put4 buf ((y * stride) mod N) x idx idx idx 255)
       }) buf) dst = Some out \<and> length out = L \<and>
           (\<forall>y<height. \<forall>x<width. bgra_at out (y * stride + x * 4) = col x y)"
  proof (rule forM_rows)
    show "width * 4 \<le> stride" by (simp add: stride)
    show "length dst = L" by (simp add: L_def)
  next
    fix y and buf :: "byte list" assume y: "y < height" and lb: "length buf = L"
    have "Suc y \<le> height" using y by simp
    then have "width * 4 * Suc y \<le> width * 4 * height" by (rule mult_le_mono2)
    then have rowfit: "y * stride + width * 4 \<le> L" unfolding Lw stride by (simp add: algebra_simps)
    then have "y * stride < N" "y * width < N" using LN unfolding stride by linarith+
    then have m: "(y * stride) mod N = y * stride" "(y * width) mod N = y * width" by simp_all
    have w4: "width * 4 < 2 ^ 32" using rowfit LN unfolding N_def by linarith
    have "\<exists>out. forM 0 width (\<lambda>x buf. do {
         idx \<leftarrow> rd indexPixels (y * width + x);
         (case vgaPal of
            Some pal \<Rightarrow>
              if \<not> grayscale
              then do {
                b \<leftarrow> rd data (pal + unat idx * 3 + 2);
                g \<leftarrow> rd data (pal + unat idx * 3 + 1);
                r \<leftarrow> rd data (pal + unat idx * 3 + 0);
                put4 buf (y * stride) x b g r 255
              }
              else put4 buf (y * stride) x idx idx idx 255
          | None \<Rightarrow> put4 buf (y * stride) x idx idx idx 255)
       }) buf = Some out \<and> length out = L \<and>
           (\<forall>x<width. bgra_at out (y * stride + x * 4)
               = (fst (col x y), fst (snd (col x y)), fst (snd (snd (col x y))), snd (snd (snd (col x y))))) \<and>
           (\<forall>i. i < y * stride \<or> y * stride + width * 4 \<le> i \<longrightarrow> out ! i = buf ! i)"
    proof (rule forM_put4_row[OF _ rowfit w4 lb])
      fix x and b :: "byte list" assume x: "x < width" and "length b = L"
      have "y * width + x < Suc y * width" using x by simp
      also have "\<dots> \<le> height * width" using \<open>Suc y \<le> height\<close> by (rule mult_le_mono1)
      finally have "y * width + x < length indexPixels" by (simp add: li mult.commute)
      then have ri: "rd indexPixels (y * width + x) = Some (indexPixels ! (y * width + x))"
        by (simp add: rd_def)
      define i where "i = indexPixels ! (y * width + x)"
      show "(do {
         idx \<leftarrow> rd indexPixels (y * width + x);
         (case vgaPal of
            Some pal \<Rightarrow>
              if \<not> grayscale
              then do {
                b' \<leftarrow> rd data (pal + unat idx * 3 + 2);
                g \<leftarrow> rd data (pal + unat idx * 3 + 1);
                r \<leftarrow> rd data (pal + unat idx * 3 + 0);
                put4 b (y * stride) x b' g r 255
              }
              else put4 b (y * stride) x idx idx idx 255
          | None \<Rightarrow> put4 b (y * stride) x idx idx idx 255)
       }) = put4 b (y * stride) x (fst (col x y)) (fst (snd (col x y)))
               (fst (snd (snd (col x y)))) (snd (snd (snd (col x y))))"
      proof (cases vgaPal)
        case None
        then show ?thesis by (simp add: ri col_def Let_def)
      next
        case (Some p)
        have "unat i \<le> 255" by (rule unat_byte_le)
        then have "p + unat i * 3 + 2 < length data" using pal[OF Some] by linarith
        then have "rd data (p + unat i * 3 + 2) = Some (data ! (p + unat i * 3 + 2))"
          "rd data (p + unat i * 3 + 1) = Some (data ! (p + unat i * 3 + 1))"
          "rd data (p + unat i * 3 + 0) = Some (data ! (p + unat i * 3 + 0))"
          by (simp_all add: rd_def)
        then show ?thesis using Some by (simp add: ri col_def i_def[symmetric] Let_def)
      qed
    qed
    then show "\<exists>out. forM 0 width (\<lambda>x buf. do {
         idx \<leftarrow> rd indexPixels ((y * width) mod N + x);
         (case vgaPal of
            Some pal \<Rightarrow>
              if \<not> grayscale
              then do {
                b \<leftarrow> rd data (pal + unat idx * 3 + 2);
                g \<leftarrow> rd data (pal + unat idx * 3 + 1);
                r \<leftarrow> rd data (pal + unat idx * 3 + 0);
                put4 buf ((y * stride) mod N) x b g r 255
              }
              else put4 buf ((y * stride) mod N) x idx idx idx 255
          | None \<Rightarrow> put4 buf ((y * stride) mod N) x idx idx idx 255)
       }) buf = Some out \<and> length out = L \<and>
           (\<forall>x<width. bgra_at out (y * stride + x * 4) = col x y) \<and>
           (\<forall>i. i < y * stride \<or> y * stride + width * 4 \<le> i \<longrightarrow> out ! i = buf ! i)"
      unfolding m by simp
  qed
  then show ?thesis
    unfolding ApplyIndexedPalette_def N_def L_def col_def by simp
qed

lemma DecodeScanLine_rle_length:
  "length out = n \<Longrightarrow> length (snd (DecodeScanLine_rle fileData n (linePos, srcPos, out))) = n"
proof (induction fileData n "(linePos, srcPos, out)" arbitrary: linePos srcPos out
       rule: DecodeScanLine_rle.induct)
  case (1 fileData bytesPerScanLine linePos srcPos out)
  note S = DecodeScanLine_rle.simps[of fileData bytesPerScanLine linePos srcPos out]
  show ?case
  proof (cases "linePos < bytesPerScanLine \<and> srcPos < length fileData")
    case False
    have "DecodeScanLine_rle fileData bytesPerScanLine (linePos, srcPos, out) = (srcPos, out)"
      by (subst S) (simp only: False if_False)
    then show ?thesis using "1.prems" by simp
  next
    case True
    define byte where "byte = fileData ! srcPos"
    show ?thesis
    proof (cases "byte AND 0xC0 = 0xC0")
      case run: True
      define count0 where "count0 = unat (byte AND 0x3F)"
      define count where "count = (if count0 = 0 then 1 else count0)"
      show ?thesis
      proof (cases "srcPos + 1 \<ge> length fileData")
        case e: True
        have "DecodeScanLine_rle fileData bytesPerScanLine (linePos, srcPos, out) = (srcPos + 1, out)"
          using True run e by (subst S) (simp add: Let_def byte_def)
        then show ?thesis using "1.prems" by simp
      next
        case False
        define v where "v = fileData ! (srcPos + 1)"
        define toWrite where "toWrite = MinDword count (bytesPerScanLine - linePos)"
        define out' where "out' = take linePos out @ replicate toWrite v @ drop (linePos + toWrite) out"
        have "toWrite \<le> bytesPerScanLine - linePos" by (simp add: toWrite_def MinDword_def)
        moreover have "linePos < bytesPerScanLine" using True by simp
        ultimately have "linePos + (toWrite + (bytesPerScanLine - (linePos + toWrite))) = bytesPerScanLine"
          by linarith
        then have l: "length out' = bytesPerScanLine"
          using True "1.prems" by (simp add: out'_def)
        have e: "DecodeScanLine_rle fileData bytesPerScanLine (linePos, srcPos, out)
            = DecodeScanLine_rle fileData bytesPerScanLine (linePos + toWrite, srcPos + 1 + 1, out')"
          using True run False
          by (subst S) (simp add: Let_def byte_def count_def count0_def toWrite_def out'_def v_def)
        have "length (snd (DecodeScanLine_rle fileData bytesPerScanLine (linePos + toWrite, srcPos + 1 + 1, out')))
              = bytesPerScanLine"
          using "1.hyps"(1)[OF True byte_def refl run count0_def count_def False v_def refl
              toWrite_def l[unfolded out'_def]]
          unfolding out'_def .
        then show ?thesis unfolding e .
      qed
    next
      case lit: False
      have e: "DecodeScanLine_rle fileData bytesPerScanLine (linePos, srcPos, out)
            = DecodeScanLine_rle fileData bytesPerScanLine (linePos + 1, srcPos + 1, out[linePos := byte])"
        using True lit by (subst S) (simp add: Let_def byte_def)
      have "length (snd (DecodeScanLine_rle fileData bytesPerScanLine (linePos + 1, srcPos + 1, out[linePos := byte])))
              = bytesPerScanLine"
        by (rule "1.hyps"(2)[OF True byte_def refl lit]) (simp_all add: "1.prems")
      then show ?thesis unfolding e .
    qed
  qed
qed


lemma DecodeScanLine_length: "length (snd (DecodeScanLine ctx)) = pc_bytesPerScanLine ctx"
proof (cases "pc_fileData ctx = []")
  case True
  then show ?thesis by (simp add: DecodeScanLine_def)
next
  case ne: False
  show ?thesis
  proof (cases "pcx_encoding (pc_header ctx) = 0")
    case True
    define remaining where "remaining = (if pc_srcPos ctx < length (pc_fileData ctx)
                                then length (pc_fileData ctx) - pc_srcPos ctx else 0)"
    define toCopy where "toCopy = MinDword remaining (pc_bytesPerScanLine ctx)"
    have a: "toCopy \<le> pc_bytesPerScanLine ctx" "toCopy \<le> length (pc_fileData ctx) - pc_srcPos ctx"
      by (simp_all add: toCopy_def MinDword_def remaining_def)
    have "snd (DecodeScanLine ctx) = take toCopy (drop (pc_srcPos ctx) (pc_fileData ctx))
             @ drop toCopy (replicate (pc_bytesPerScanLine ctx) 0)"
      using ne True by (simp add: DecodeScanLine_def Let_def toCopy_def remaining_def)
    then show ?thesis using a by simp
  next
    case False
    then show ?thesis
      using ne DecodeScanLine_rle_length[of "replicate (pc_bytesPerScanLine ctx) 0" "pc_bytesPerScanLine ctx"
          "pc_fileData ctx" 0 "pc_srcPos ctx"]
      by (simp add: DecodeScanLine_def Let_def)
  qed
qed

lemma ParsePcxHeader_facts:
  assumes "ParsePcxHeader src = Inr (ctx, src')"
  shows "0 < pc_width ctx \<and> pc_width ctx \<le> 32768 \<and> 0 < pc_height ctx \<and> pc_height ctx \<le> 32768 \<and>
         pc_bytesPerScanLine ctx = pcx_bytesPerLine (pc_header ctx) * pcx_nPlanes (pc_header ctx) \<and>
         (pc_isIndexed8bpp ctx \<longrightarrow> pcx_nPlanes (pc_header ctx) = 1)"
proof -
  obtain ok h s1 where r0: "Pcx_ReadHeader src = Some (ok, h, s1)"
    using assms by (cases "Pcx_ReadHeader src") (auto simp add: ParsePcxHeader_def)
  define hdr where "hdr = read_PCXHEADER h"
  define w where "w = (pcx_xMax hdr + 2 ^ 32 - pcx_xMin hdr + 1) mod 2 ^ 32"
  define ht where "ht = (pcx_yMax hdr + 2 ^ 32 - pcx_yMin hdr + 1) mod 2 ^ 32"
  note P = assms[unfolded ParsePcxHeader_def r0 option.case prod.case Let_def,
      folded hdr_def, folded w_def ht_def]
  from P have c: "ctx = new_PcxContext
                      \<lparr> pc_header := hdr, pc_width := w, pc_height := ht,
                        pc_bytesPerScanLine := pcx_bytesPerLine hdr * pcx_nPlanes hdr,
                        pc_isPlanar1bpp := (pcx_bitsPerPixel hdr = 1 \<and> pcx_nPlanes hdr \<ge> 1 \<and> pcx_nPlanes hdr \<le> 4),
                        pc_isPacked2bpp := (pcx_bitsPerPixel hdr = 2 \<and> pcx_nPlanes hdr = 1),
                        pc_isPacked4bpp := (pcx_bitsPerPixel hdr = 4 \<and> pcx_nPlanes hdr = 1),
                        pc_isIndexed8bpp := (pcx_bitsPerPixel hdr = 8 \<and> pcx_nPlanes hdr = 1),
                        pc_isTrueColor24 := (pcx_bitsPerPixel hdr = 8 \<and> pcx_nPlanes hdr = 3),
                        pc_isTrueColor32 := (pcx_bitsPerPixel hdr = 8 \<and> pcx_nPlanes hdr = 4),
                        pc_forceDefaultEga :=
                                  (pcx_version hdr = 0 \<or> pcx_version hdr = 3 \<or>
                                   IsAllZero (pcx_colorMap hdr)) \<rparr>"
    and d: "\<not> (w = 0 \<or> ht = 0)" "\<not> (w > 32768 \<or> ht > 32768)"
    by (simp_all split: if_splits)
  show ?thesis using d unfolding c by simp
qed

section \<open>Saving: facts about the writers at depth 24\<close>









































section \<open>TGA: the pixel count of an RLE stream\<close>

text \<open>
  Claim C2. For an RLE TGA (image types 9, 10, 11) whose header \<open>ParseTgaHeader\<close> accepts,
  whose pixel data is read, and whose output of \<open>4 * width * height\<close> bytes fits in 32 bits:
  \<open>TGA_Read\<close> returns \<open>FileCorrupted\<close> when the packets of the stream account for fewer
  than \<open>width * height\<close> pixels, and succeeds when they account for \<open>width * height\<close>
  pixels or for more; the loops stop at \<open>width * height\<close>, so what a stream holds beyond
  that is never looked at.
\<close>

theorem tga_rle_pixel_count:
  assumes opened: "TGA_open e data sz = Inr src0"
    and parsed: "ParseTgaHeader src0 = Inr (ctx, src1)"
    and rle: "tc_isRLE ctx"
    and remaining: "Tga_ReadRemaining e src1 = Some (True, srcPixels)"
    and fits: "tc_width ctx * 4 * tc_height ctx \<le> 0xFFFFFFFF"
  shows "(tga_rle_pixels (tc_srcBytesPerPixel ctx) srcPixels < tc_width ctx * tc_height ctx
            \<longrightarrow> TGA_Read e data sz props = Inl FileCorrupted) \<and>
         (tc_width ctx * tc_height ctx \<le> tga_rle_pixels (tc_srcBytesPerPixel ctx) srcPixels
            \<longrightarrow> (\<exists>p. TGA_Read e data sz props = Inr p \<and>
                      Width (m_Format p) = tc_width ctx \<and>
                      Height (m_Format p) = tc_height ctx))"
proof -
  define w where "w = tc_width ctx"
  define h where "h = tc_height ctx"
  define N where "N = (2::nat) ^ 32"
  define n where "n = tga_rle_pixels (tc_srcBytesPerPixel ctx) srcPixels"
  have ok: "tga_ctx_ok ctx" using ParseTgaHeader_ok[OF parsed] .
  then have wh: "0 < w" "w < 65536" "0 < h" "h < 65536"
    by (simp_all add: tga_ctx_ok_def w_def h_def)
  define X where "X = w * 4 * h"
  have "X \<le> 4294967295" using fits unfolding X_def w_def h_def by simp
  then have "X < N" unfolding N_def by simp
  then have f: "w * 4 * h < N" unfolding X_def .
  have "w * 4 \<le> w * 4 * h" using wh by simp
  then have "w * 4 < N" using f by linarith
  then have s1: "(w * 4) mod N = w * 4" by (rule mod_less)
  have "w * h \<le> w * 4 * h" by simp
  then have "w * h < N" using f by linarith
  then have s2: "(w * h) mod N = w * h" by (rule mod_less)
  have sm: "SafeMul32 (w * 4) h = Some (w * 4 * h)"
    using fits by (simp add: SafeMul32_def w_def h_def)
  obtain sp' buf' where d: "TGA_decodeRLE ctx srcPixels (w * 4) (w * h) (0, 0, replicate (w * 4 * h) 0xFF)
                  = Some (sp', min (w * h) (0 + tga_rle_pixels (tc_srcBytesPerPixel ctx) (drop 0 srcPixels)), buf')"
    using TGA_decodeRLE_count[of ctx "w * 4" "w * h" "tc_srcBytesPerPixel ctx"
        "replicate (w * 4 * h) 0xFF" 0 0 srcPixels] ok f
    by (auto simp add: w_def h_def N_def)
  then have d': "TGA_decodeRLE ctx srcPixels (w * 4) (w * h) (0, 0, replicate (w * 4 * h) 0xFF)
                  = Some (sp', min (w * h) n, buf')"
    by (simp add: n_def)
  note R = TGA_Read_def[of e data sz props, unfolded opened parsed remaining sum.case prod.case
      option.case Let_def, folded w_def h_def N_def, unfolded s1 s2 sm option.case]
  show ?thesis
  proof (intro conjI impI)
    assume "tga_rle_pixels (tc_srcBytesPerPixel ctx) srcPixels < tc_width ctx * tc_height ctx"
    then have "min (w * h) n \<noteq> w * h" by (simp add: n_def w_def h_def)
    then show "TGA_Read e data sz props = Inl FileCorrupted"
      unfolding R using rle d' by simp
  next
    assume "tc_width ctx * tc_height ctx \<le> tga_rle_pixels (tc_srcBytesPerPixel ctx) srcPixels"
    then have "min (w * h) n = w * h" by (simp add: n_def w_def h_def)
    then show "\<exists>p. TGA_Read e data sz props = Inr p \<and>
                      Width (m_Format p) = tc_width ctx \<and>
                      Height (m_Format p) = tc_height ctx"
      unfolding R using rle d' by (simp add: FillFormatBGRA32_def w_def h_def)
  qed
qed

text \<open>
  The claim as stated fails for a stream that accounts for more pixels than the image has:
  the packet of the first file repeats its pixel twice, the image has one pixel, and
  \<open>TGA_Read\<close> succeeds.
\<close>

theorem tga_rle_pixel_count_counterexample:
  "tga_rle_pixels 3 (drop 18 tga_rle_1x1_run2) = 2 \<and>
   TGA_Read env0 (Some tga_rle_1x1_run2) 22 props0
     = Inr (props0\<lparr> m_Format := FillFormatBGRA32 1 1 4 [1, 2, 3, 255],
                     m_Data := Some [1, 2, 3, 255] \<rparr>)"
  by code_simp

theorem tga_rle_pixel_count_witness:
  "TGA_open env0 (Some tga_rle_2x1_run1) 22 = Inr (TgaMemorySource tga_rle_2x1_run1 22 0) \<and>
   ParseTgaHeader (TgaMemorySource tga_rle_2x1_run1 22 0)
     = Inr (tga_rle_2x1_ctx, TgaMemorySource tga_rle_2x1_run1 22 18) \<and>
   tc_isRLE tga_rle_2x1_ctx \<and>
   Tga_ReadRemaining env0 (TgaMemorySource tga_rle_2x1_run1 22 18) = Some (True, [0x80, 1, 2, 3]) \<and>
   tc_width tga_rle_2x1_ctx * 4 * tc_height tga_rle_2x1_ctx \<le> 0xFFFFFFFF \<and>
   tga_rle_pixels (tc_srcBytesPerPixel tga_rle_2x1_ctx) [0x80, 1, 2, 3]
     < tc_width tga_rle_2x1_ctx * tc_height tga_rle_2x1_ctx \<and>
   TGA_Read env0 (Some tga_rle_2x1_run1) 22 props0 = Inl FileCorrupted"
proof -
  have o: "TGA_open env0 (Some tga_rle_2x1_run1) 22 = Inr (TgaMemorySource tga_rle_2x1_run1 22 0)"
    by code_simp
  have p: "ParseTgaHeader (TgaMemorySource tga_rle_2x1_run1 22 0)
     = Inr (tga_rle_2x1_ctx, TgaMemorySource tga_rle_2x1_run1 22 18)"
    by code_simp
  have r: "tc_isRLE tga_rle_2x1_ctx" by code_simp
  have m: "Tga_ReadRemaining env0 (TgaMemorySource tga_rle_2x1_run1 22 18) = Some (True, [0x80, 1, 2, 3])"
    by code_simp
  have f: "tc_width tga_rle_2x1_ctx * 4 * tc_height tga_rle_2x1_ctx \<le> 0xFFFFFFFF"
    by code_simp
  have c: "tga_rle_pixels (tc_srcBytesPerPixel tga_rle_2x1_ctx) [0x80, 1, 2, 3]
     < tc_width tga_rle_2x1_ctx * tc_height tga_rle_2x1_ctx"
    by code_simp
  show ?thesis
    using tga_rle_pixel_count [OF o p r m f, of props0] o p r m f c by simp
qed


section \<open>PCX: the palette of an 8-bit indexed image\<close>

lemma length_concat_replicate4: "length (concat (replicate n [a, b, c, d])) = n * 4"
  by (induction n) simp_all

lemma PCX_scanLine_indexed:
  assumes idx: "pc_isIndexed8bpp ctx"
    and bps: "pc_bytesPerScanLine ctx = pcx_bytesPerLine (pc_header ctx)"
    and y: "y < pc_height ctx"
    and li: "length indexPixels = pc_width ctx * pc_height ctx"
    and small: "pc_width ctx * pc_height ctx < 2 ^ 32"
  shows "\<exists>sp' idx'. PCX_scanLine ctx dstStride y (sp, dst, indexPixels) = Some (sp', dst, idx') \<and>
           length idx' = length indexPixels"
proof -
  define N where "N = (2::nat) ^ 32"
  obtain sp1 scanLine where ds: "DecodeScanLine (ctx\<lparr>pc_srcPos := sp\<rparr>) = (sp1, scanLine)"
    by (cases "DecodeScanLine (ctx\<lparr>pc_srcPos := sp\<rparr>)") auto
  have ls: "length scanLine = pcx_bytesPerLine (pc_header ctx)"
    using DecodeScanLine_length[of "ctx\<lparr>pc_srcPos := sp\<rparr>"] ds bps by simp
  have "Suc y \<le> pc_height ctx" using y by simp
  then have "Suc y * pc_width ctx \<le> pc_height ctx * pc_width ctx" by (rule mult_le_mono1)
  then have row: "y * pc_width ctx + pc_width ctx \<le> pc_width ctx * pc_height ctx"
    by (simp add: mult.commute)
  then have "y * pc_width ctx < N" using small unfolding N_def by linarith
  then have m: "(y * pc_width ctx) mod N = y * pc_width ctx" by simp
  have "\<exists>s'. forM 0 (MinDword (pc_width ctx) (pcx_bytesPerLine (pc_header ctx)))
                 (\<lambda>x indexPixels. do {
                    v \<leftarrow> rd scanLine x;
                    wr indexPixels ((y * pc_width ctx) mod N + x) v
                  }) indexPixels = Some s' \<and> length s' = length indexPixels"
  proof (rule forM_total[where I = "\<lambda>j t. length t = length indexPixels"])
    fix j and t :: "byte list"
    assume j: "j < MinDword (pc_width ctx) (pcx_bytesPerLine (pc_header ctx))"
      and lt: "length t = length indexPixels"
    from j have j1: "j < pc_width ctx" and j2: "j < pcx_bytesPerLine (pc_header ctx)"
      by (simp_all add: MinDword_def split: if_splits)
    have "y * pc_width ctx + j < length t" using j1 row lt li by linarith
    then show "\<exists>t'. do { v \<leftarrow> rd scanLine j; wr t ((y * pc_width ctx) mod N + j) v } = Some t' \<and>
                 length t' = length indexPixels"
      unfolding m using j2 ls lt by (simp add: rd_def wr_def)
  qed simp_all
  then obtain idx' where "forM 0 (MinDword (pc_width ctx) (pcx_bytesPerLine (pc_header ctx)))
                 (\<lambda>x indexPixels. do {
                    v \<leftarrow> rd scanLine x;
                    wr indexPixels ((y * pc_width ctx) mod N + x) v
                  }) indexPixels = Some idx'" "length idx' = length indexPixels"
    by blast
  then show ?thesis
    unfolding PCX_scanLine_def N_def[symmetric] using idx ds by simp
qed

lemma PCX_scan_indexed:
  assumes idx: "pc_isIndexed8bpp ctx"
    and bps: "pc_bytesPerScanLine ctx = pcx_bytesPerLine (pc_header ctx)"
    and li: "length indexPixels = pc_width ctx * pc_height ctx"
    and small: "pc_width ctx * pc_height ctx < 2 ^ 32"
  shows "\<exists>srcPos idx'. forM 0 (pc_height ctx) (PCX_scanLine ctx dstStride) (0, dst, indexPixels)
                         = Some (srcPos, dst, idx') \<and> length idx' = length indexPixels"
proof -
  have "\<exists>s'. forM 0 (pc_height ctx) (PCX_scanLine ctx dstStride) (0, dst, indexPixels) = Some s' \<and>
          (\<exists>sp i. s' = (sp, dst, i) \<and> length i = length indexPixels)"
  proof (rule forM_total[where I = "\<lambda>j s. \<exists>sp i. s = (sp, dst, i) \<and> length i = length indexPixels"])
    fix j and t :: "nat \<times> byte list \<times> byte list"
    assume j: "j < pc_height ctx" and "\<exists>sp i. t = (sp, dst, i) \<and> length i = length indexPixels"
    then obtain sp i where t: "t = (sp, dst, i)" and l: "length i = length indexPixels" by blast
    from PCX_scanLine_indexed[OF idx bps j _ small, of i dstStride sp dst] l li
    show "\<exists>t'. PCX_scanLine ctx dstStride j t = Some t' \<and>
               (\<exists>sp i. t' = (sp, dst, i) \<and> length i = length indexPixels)"
      unfolding t by auto
  qed simp_all
  then show ?thesis by blast
qed

text \<open>
  Claim C3, as amended. For an 8-bit indexed PCX that \<open>ParsePcxHeader\<close> accepts and whose
  output of \<open>4 * width * height\<close> bytes fits in 31 bits, the scan-line loop leaves the
  position \<open>srcPos\<close> where the image data ended and the indices \<open>indexPixels\<close>, and
  \<open>PCX_Read\<close> succeeds. The pixel at \<open>(x, y)\<close> with index \<open>i\<close> gets the entry \<open>i\<close> of
  the VGA palette when \<open>FindVgaPalette\<close> finds the trailer and \<open>paletteInfo\<close> is not 2;
  in every other case, that is when \<open>paletteInfo\<close> is 2 or no trailer is found, it gets
  \<open>i\<close> itself as blue, green and red. Alpha is 255.
\<close>

theorem pcx_indexed_palette:
  assumes opened: "PCX_open e data sz = Inr src0"
    and parsed: "ParsePcxHeader src0 = Inr (ctx, src1)"
    and remaining: "Pcx_ReadRemaining e src1 = Some (True, fileData)"
    and indexed: "pc_isIndexed8bpp ctx"
    and fits: "pc_width ctx * 4 * pc_height ctx \<le> 0x7FFFFFFF"
  shows "\<exists>srcPos indexPixels out.
           forM 0 (pc_height ctx) (PCX_scanLine (ctx\<lparr>pc_fileData := fileData\<rparr>) (pc_width ctx * 4))
             (0, concat (replicate (pc_width ctx * pc_height ctx) [0, 0, 0, 255]),
              replicate (pc_width ctx * pc_height ctx) 0)
             = Some (srcPos, concat (replicate (pc_width ctx * pc_height ctx) [0, 0, 0, 255]),
                     indexPixels) \<and>
           PCX_Read e data sz props
             = Inr (props\<lparr> m_Format := FillFormatBGRA32 (pc_width ctx) (pc_height ctx)
                                            (pc_width ctx * 4) out,
                            m_Data := Some out \<rparr>) \<and>
           (\<forall>y<pc_height ctx. \<forall>x<pc_width ctx.
              bgra_at out (y * (pc_width ctx * 4) + x * 4) =
                (let i = indexPixels ! (y * pc_width ctx + x)
                 in case FindVgaPalette fileData srcPos of
                      Some pal \<Rightarrow>
                        if pcx_paletteInfo (pc_header ctx) \<noteq> 2
                        then (fileData ! (pal + unat i * 3 + 2), fileData ! (pal + unat i * 3 + 1),
                              fileData ! (pal + unat i * 3 + 0), 255)
                        else (i, i, i, 255)
                    | None \<Rightarrow> (i, i, i, 255)))"
proof -
  define w where "w = pc_width ctx"
  define h where "h = pc_height ctx"
  define N where "N = (2::nat) ^ 32"
  define c where "c = ctx\<lparr>pc_fileData := fileData\<rparr>"
  define dst0 :: "byte list" where "dst0 = concat (replicate (w * h) [0, 0, 0, 255])"
  have facts: "0 < w" "w \<le> 32768" "0 < h" "h \<le> 32768"
    "pc_bytesPerScanLine ctx = pcx_bytesPerLine (pc_header ctx) * pcx_nPlanes (pc_header ctx)"
    "pcx_nPlanes (pc_header ctx) = 1"
    using ParsePcxHeader_facts[OF parsed] indexed by (simp_all add: w_def h_def)
  have cw: "pc_width c = w" "pc_height c = h" "pc_isIndexed8bpp c" "pc_fileData c = fileData"
    "pc_header c = pc_header ctx" "pc_bytesPerScanLine c = pcx_bytesPerLine (pc_header c)"
    using indexed facts(5,6) by (simp_all add: c_def w_def h_def)
  define X where "X = w * 4 * h"
  have X: "X \<le> 2147483647" using fits by (simp add: X_def w_def h_def)
  have "w * 4 < N" using facts(2) unfolding N_def by simp
  then have s1: "(w * 4) mod N = w * 4" by (rule mod_less)
  have wh: "w * h \<le> X" by (simp add: X_def)
  then have small: "w * h < 2 ^ 32" using X by simp
  have ld0: "length dst0 = w * 4 * h"
    by (simp add: dst0_def length_concat_replicate4 algebra_simps)
  obtain srcPos indexPixels where
    scan: "forM 0 h (PCX_scanLine c (w * 4)) (0, dst0, replicate (w * h) 0)
             = Some (srcPos, dst0, indexPixels)"
    and li: "length indexPixels = w * h"
    using PCX_scan_indexed[OF cw(3,6), of "replicate (w * h) 0" "w * 4" dst0] small
    unfolding cw by auto
  have pr: "\<And>pal. FindVgaPalette fileData srcPos = Some pal \<Longrightarrow> pal + 768 \<le> length fileData"
    by (rule FindVgaPalette_range)
  have "length dst0 < 2 ^ 32" using X unfolding ld0 X_def[symmetric] by simp
  from ApplyIndexedPalette_pixels[where data = fileData
        and vgaPal = "FindVgaPalette fileData srcPos"
        and grayscale = "pcx_paletteInfo (pc_header ctx) = 2",
      OF refl ld0 this li pr]
  obtain out where ap: "ApplyIndexedPalette w h (w * 4) indexPixels dst0 fileData
                          (FindVgaPalette fileData srcPos) (pcx_paletteInfo (pc_header ctx) = 2) = Some out"
    and px: "\<forall>y<h. \<forall>x<w. bgra_at out (y * (w * 4) + x * 4) =
              (let i = indexPixels ! (y * w + x)
               in case FindVgaPalette fileData srcPos of
                    Some pal \<Rightarrow>
                      if \<not> pcx_paletteInfo (pc_header ctx) = 2
                      then (fileData ! (pal + unat i * 3 + 2), fileData ! (pal + unat i * 3 + 1),
                            fileData ! (pal + unat i * 3 + 0), 255)
                      else (i, i, i, 255)
                  | None \<Rightarrow> (i, i, i, 255))"
    by blast
  have d4: "X div 4 = w * h" by (simp add: X_def)
  have nb: "\<not> 2147483647 < X" "\<not> 2147483647 < w * h" using X wh by simp_all
  have dec: "PCX_decode c = Inr (w * 4, out)"
    unfolding PCX_decode_def cw Let_def N_def[symmetric] s1 X_def[symmetric] d4
    using nb scan ap cw(3) by (simp add: dst0_def)
  have rd: "PCX_Read e data sz props
             = Inr (props\<lparr> m_Format := FillFormatBGRA32 w h (w * 4) out, m_Data := Some out \<rparr>)"
    using dec by (simp add: PCX_Read_def opened parsed remaining c_def w_def h_def)
  show ?thesis
    using scan rd px unfolding w_def h_def c_def dst0_def by blast
qed

text \<open>
  The claim as stated fails when no trailer is found and \<open>paletteInfo\<close> is 1: the file
  below has the indices 7 and 9 and nothing after them, and its pixels are not black but
  the grey values 7 and 9.
\<close>

theorem pcx_indexed_palette_counterexample:
  "pcx_paletteInfo (read_PCXHEADER (pcx_header_2x1 1)) = 1 \<and>
   FindVgaPalette [7, 9] 2 = None \<and>
   PCX_Read env0 (Some (pcx_header_2x1 1 @ [7, 9])) 130 props0
     = Inr (props0\<lparr> m_Format := FillFormatBGRA32 2 1 8 [7, 7, 7, 255, 9, 9, 9, 255],
                     m_Data := Some [7, 7, 7, 255, 9, 9, 9, 255] \<rparr>)"
  by code_simp

theorem pcx_indexed_palette_witness:
  "PCX_open env0 (Some (pcx_header_2x1 1 @ [7, 9])) 130
     = Inr (PcxMemorySource (pcx_header_2x1 1 @ [7, 9]) 130 0) \<and>
   ParsePcxHeader (PcxMemorySource (pcx_header_2x1 1 @ [7, 9]) 130 0)
     = Inr (pcx_ctx_2x1 1, PcxMemorySource (pcx_header_2x1 1 @ [7, 9]) 130 128) \<and>
   Pcx_ReadRemaining env0 (PcxMemorySource (pcx_header_2x1 1 @ [7, 9]) 130 128)
     = Some (True, [7, 9]) \<and>
   pc_isIndexed8bpp (pcx_ctx_2x1 1) \<and>
   pc_width (pcx_ctx_2x1 1) * 4 * pc_height (pcx_ctx_2x1 1) \<le> 0x7FFFFFFF \<and>
   (\<exists>srcPos indexPixels out.
      forM 0 (pc_height (pcx_ctx_2x1 1))
        (PCX_scanLine (pcx_ctx_2x1 1\<lparr>pc_fileData := [7, 9]\<rparr>)
           (pc_width (pcx_ctx_2x1 1) * 4))
        (0, concat (replicate (pc_width (pcx_ctx_2x1 1) * pc_height (pcx_ctx_2x1 1)) [0, 0, 0, 255]),
         replicate (pc_width (pcx_ctx_2x1 1) * pc_height (pcx_ctx_2x1 1)) 0)
        = Some (srcPos,
                concat (replicate (pc_width (pcx_ctx_2x1 1) * pc_height (pcx_ctx_2x1 1)) [0, 0, 0, 255]),
                indexPixels) \<and>
      PCX_Read env0 (Some (pcx_header_2x1 1 @ [7, 9])) 130 props0
        = Inr (props0\<lparr> m_Format := FillFormatBGRA32 (pc_width (pcx_ctx_2x1 1))
                                          (pc_height (pcx_ctx_2x1 1))
                                          (pc_width (pcx_ctx_2x1 1) * 4) out,
                        m_Data := Some out \<rparr>) \<and>
      (\<forall>y<pc_height (pcx_ctx_2x1 1). \<forall>x<pc_width (pcx_ctx_2x1 1).
         bgra_at out (y * (pc_width (pcx_ctx_2x1 1) * 4) + x * 4) =
           (let i = indexPixels ! (y * pc_width (pcx_ctx_2x1 1) + x)
            in case FindVgaPalette ([7, 9]) srcPos of
                 Some pal \<Rightarrow>
                   if pcx_paletteInfo (pc_header (pcx_ctx_2x1 1)) \<noteq> 2
                   then (([7, 9]) ! (pal + unat i * 3 + 2),
                         ([7, 9]) ! (pal + unat i * 3 + 1),
                         ([7, 9]) ! (pal + unat i * 3 + 0), 255)
                   else (i, i, i, 255)
               | None \<Rightarrow> (i, i, i, 255))))"
proof -
  have o: "PCX_open env0 (Some (pcx_header_2x1 1 @ [7, 9])) 130
     = Inr (PcxMemorySource (pcx_header_2x1 1 @ [7, 9]) 130 0)"
    by code_simp
  have p: "ParsePcxHeader (PcxMemorySource (pcx_header_2x1 1 @ [7, 9]) 130 0)
     = Inr (pcx_ctx_2x1 1, PcxMemorySource (pcx_header_2x1 1 @ [7, 9]) 130 128)"
    by code_simp
  have r: "Pcx_ReadRemaining env0 (PcxMemorySource (pcx_header_2x1 1 @ [7, 9]) 130 128)
     = Some (True, [7, 9])"
    by code_simp
  have i: "pc_isIndexed8bpp (pcx_ctx_2x1 1)" by code_simp
  have f: "pc_width (pcx_ctx_2x1 1) * 4 * pc_height (pcx_ctx_2x1 1) \<le> 0x7FFFFFFF" by code_simp
  show ?thesis
    by (intro conjI o p r i f pcx_indexed_palette [OF o p r i f])
qed

text \<open>
  It fails as well when a trailer is found and \<open>paletteInfo\<close> is 2: the file below has
  the indices 7 and 9 and a trailer all of whose entries are \<open>(0x55, 0x55, 0x55)\<close>; the
  trailer is found and not applied.
\<close>

lemma pcx_indexed_palette_grayscale_example:
  "FindVgaPalette ([7, 9] @ pcx_trailer_55) 2 = Some 3 \<and>
   PCX_Read env0 (Some (pcx_header_2x1 2 @ [7, 9] @ pcx_trailer_55)) 899 props0
     = Inr (props0\<lparr> m_Format := FillFormatBGRA32 2 1 8 [7, 7, 7, 255, 9, 9, 9, 255],
                     m_Data := Some [7, 7, 7, 255, 9, 9, 9, 255] \<rparr>)"
  by code_simp

section \<open>BMP: the delta escape\<close>





text \<open>
  The call \<open>ctx.Delta(ctx.ReadByte(), ctx.ReadByte())\<close> leaves the order of the two reads
  to the compiler. In a build that evaluates the second argument first the two bytes
  change places: the bytes \<open>(1, 0)\<close> after the escape then move the cursor of a bottom-up
  bitmap one row and no column.
\<close>

lemma read_Delta_argument_order_example:
  "DecodeRLE8_body env0_right_to_left (rle_ctx_2x2 False [0, 2, 1, 0])
     = Some ((rle_ctx_2x2 False [0, 2, 1, 0])\<lparr>rle_srcPos := 4, rle_x := 0, rle_y := 0\<rparr>, False)"
  by code_simp

section \<open>PCX: rejected dimensions\<close>

lemma pcx_extent_mod:
  assumes "lo < 65536" "hi < 65536"
  shows "((hi + 2 ^ 32 - lo + 1) mod 2 ^ 32 = 0 \<longleftrightarrow> pcx_extent lo hi = 0) \<and>
         ((hi + 2 ^ 32 - lo + 1) mod 2 ^ 32 > 32768 \<longleftrightarrow> pcx_extent lo hi < 0 \<or> pcx_extent lo hi > 32768)"
proof -
  define X where "X = hi + 2 ^ 32 - lo + 1"
  have p: "(2 :: nat) ^ 32 = 4294967296" by simp
  have "(X mod 4294967296 = 0 \<longleftrightarrow> pcx_extent lo hi = 0) \<and>
        (X mod 4294967296 > 32768 \<longleftrightarrow> pcx_extent lo hi < 0 \<or> pcx_extent lo hi > 32768)"
  proof (cases "lo \<le> hi + 1")
    case True
    then obtain d where d: "hi + 1 = lo + d" using le_Suc_ex by auto
    then have "d < 4294967296" using assms by linarith
    moreover have "X = d + 4294967296" using d assms unfolding X_def p by linarith
    ultimately have "X mod 4294967296 = d" by simp
    moreover have "pcx_extent lo hi = int d" using d unfolding pcx_extent_def by linarith
    ultimately show ?thesis by simp
  next
    case False
    then have "X < 4294967296" "X > 32768"
      using assms unfolding X_def p by linarith+
    moreover from this have "X mod 4294967296 = X" by simp
    moreover have "pcx_extent lo hi < 0" using False unfolding pcx_extent_def by linarith
    ultimately show ?thesis by simp
  qed
  then show ?thesis unfolding X_def p .
qed


text \<open>
  Claim C9, as amended. When the 128 bytes of the header are read, the manufacturer byte is
  \<open>0x0A\<close> and the encoding byte is 0 or 1, a width \<open>xMax - xMin + 1\<close> or height
  \<open>yMax - yMin + 1\<close> that is zero, negative or greater than 32768 makes \<open>PCX_Read\<close>
  return \<open>FileCorrupted\<close> from \<open>ParsePcxHeader\<close>, that is before the rest of the
  file is read and before any buffer is allocated.
\<close>

theorem pcx_dimension_rejection:
  assumes opened: "PCX_open e data sz = Inr src"
    and header: "Pcx_ReadHeader src = Some (True, h, src')"
    and manufacturer: "pcx_manufacturer (read_PCXHEADER h) = 0x0A"
    and encoding: "pcx_encoding (read_PCXHEADER h) = 0 \<or> pcx_encoding (read_PCXHEADER h) = 1"
    and dims: "pcx_extent (pcx_xMin (read_PCXHEADER h)) (pcx_xMax (read_PCXHEADER h)) \<le> 0 \<or>
               pcx_extent (pcx_xMin (read_PCXHEADER h)) (pcx_xMax (read_PCXHEADER h)) > 32768 \<or>
               pcx_extent (pcx_yMin (read_PCXHEADER h)) (pcx_yMax (read_PCXHEADER h)) \<le> 0 \<or>
               pcx_extent (pcx_yMin (read_PCXHEADER h)) (pcx_yMax (read_PCXHEADER h)) > 32768"
  shows "ParsePcxHeader src = Inl FileCorrupted \<and> PCX_Read e data sz props = Inl FileCorrupted"
proof -
  define hdr where "hdr = read_PCXHEADER h"
  define w where "w = (pcx_xMax hdr + 2 ^ 32 - pcx_xMin hdr + 1) mod 2 ^ 32"
  define ht where "ht = (pcx_yMax hdr + 2 ^ 32 - pcx_yMin hdr + 1) mod 2 ^ 32"
  have b: "pcx_xMin hdr < 65536" "pcx_xMax hdr < 65536" "pcx_yMin hdr < 65536" "pcx_yMax hdr < 65536"
    using field_bound[of h _ 2] by (simp_all add: hdr_def read_PCXHEADER_def)
  from dims pcx_extent_mod[OF b(1,2)] pcx_extent_mod[OF b(3,4)]
  have bad: "w = 0 \<or> ht = 0 \<or> w > 32768 \<or> ht > 32768"
    unfolding w_def ht_def hdr_def by linarith
  have m: "pcx_manufacturer (read_PCXHEADER h) = 10"
    using manufacturer by simp
  note P = ParsePcxHeader_def [of src, unfolded header option.case prod.case Let_def]
  consider "w = 0 \<or> ht = 0" | "\<not> (w = 0 \<or> ht = 0)" "w > 32768 \<or> ht > 32768"
    using bad by blast
  then have p: "ParsePcxHeader src = Inl FileCorrupted"
  proof cases
    case 1
    then show ?thesis
      unfolding P w_def ht_def hdr_def using m encoding
      by (elim disjE; simp split del: if_split)
  next
    case 2
    then show ?thesis
      unfolding P w_def ht_def hdr_def using m encoding
      by (elim disjE; simp split del: if_split)
  qed
  then show ?thesis using opened by (simp add: PCX_Read_def)
qed


text \<open>
  The claim as stated fails when the encoding byte is not 0 or 1: the header below has
  width 0, and \<open>PCX_Read\<close> returns \<open>UnsupportedFile\<close>, the check of the encoding
  coming first.
\<close>

theorem pcx_dimension_rejection_counterexample:
  "pcx_extent (pcx_xMin (read_PCXHEADER (pcx_header_zero_width 2)))
              (pcx_xMax (read_PCXHEADER (pcx_header_zero_width 2))) = 0 \<and>
   PCX_Read env0 (Some (pcx_header_zero_width 2)) 128 props0 = Inl UnsupportedFile"
  by code_simp

theorem pcx_dimension_rejection_witness:
  "PCX_open env0 (Some (pcx_header_zero_width 1)) 128
     = Inr (PcxMemorySource (pcx_header_zero_width 1) 128 0) \<and>
   Pcx_ReadHeader (PcxMemorySource (pcx_header_zero_width 1) 128 0)
     = Some (True, pcx_header_zero_width 1, PcxMemorySource (pcx_header_zero_width 1) 128 128) \<and>
   pcx_manufacturer (read_PCXHEADER (pcx_header_zero_width 1)) = 0x0A \<and>
   pcx_encoding (read_PCXHEADER (pcx_header_zero_width 1)) = 1 \<and>
   pcx_extent (pcx_xMin (read_PCXHEADER (pcx_header_zero_width 1)))
              (pcx_xMax (read_PCXHEADER (pcx_header_zero_width 1))) \<le> 0 \<and>
   ParsePcxHeader (PcxMemorySource (pcx_header_zero_width 1) 128 0) = Inl FileCorrupted \<and>
   PCX_Read env0 (Some (pcx_header_zero_width 1)) 128 props0 = Inl FileCorrupted"
proof -
  have o: "PCX_open env0 (Some (pcx_header_zero_width 1)) 128
             = Inr (PcxMemorySource (pcx_header_zero_width 1) 128 0)"
    by code_simp
  have r: "Pcx_ReadHeader (PcxMemorySource (pcx_header_zero_width 1) 128 0)
     = Some (True, pcx_header_zero_width 1, PcxMemorySource (pcx_header_zero_width 1) 128 128)"
    by code_simp
  have m: "pcx_manufacturer (read_PCXHEADER (pcx_header_zero_width 1)) = 0x0A" by code_simp
  have c: "pcx_encoding (read_PCXHEADER (pcx_header_zero_width 1)) = 1" by code_simp
  have d: "pcx_extent (pcx_xMin (read_PCXHEADER (pcx_header_zero_width 1)))
              (pcx_xMax (read_PCXHEADER (pcx_header_zero_width 1))) \<le> 0" by code_simp
  show ?thesis
    using pcx_dimension_rejection [OF o r m, of props0] c d o r m by simp
qed

section \<open>Saving with a depth the writer does not have\<close>




text \<open>What the two calls with depth 16 return for the image of two pixels: a BMP of 62 bytes
  and a TGA of 26 bytes with RLE, both with 24 bits in the header.\<close>

lemma BMP_Save_depth_16_example:
  "BMP_Save env0 None (Some image_2x1) 16 = Some (SavedToMemory 62
     [66, 77, 62, 0, 0, 0, 0, 0, 0, 0, 54, 0, 0, 0, 40, 0, 0, 0, 2, 0, 0, 0,
      1, 0, 0, 0, 1, 0, 24, 0, 0, 0, 0, 0, 8, 0, 0, 0, 19, 11, 0, 0, 19, 11,
      0, 0, 0, 0, 0, 0, 0, 0, 0, 0, 1, 2, 3, 4, 5, 6, 0, 0])"
  by code_simp

lemma TGA_Save_depth_16_example:
  "TGA_Save env0 None (Some image_2x1) 16 1 = Some (SavedToMemory 25
     [0, 0, 10, 0, 0, 0, 0, 0, 0, 0, 0, 0, 2, 0, 1, 0, 24, 0, 1, 1, 2, 3, 4, 5, 6])"
  by code_simp




end
